(* ===== verification/Prelude.thy ===== *)
theory Prelude
  imports Main "HOL-Library.AList" "HOL-Library.Word"
begin

text \<open>
  Shared vocabulary of the development: Go's error results, instants and durations, and the
  few list and map facts several components need.

  An instant (\<open>time.Time\<close>) is the number of nanoseconds since Go's zero time, so
  \<open>IsZero\<close> is equality with 0; a duration (\<open>time.Duration\<close>) is a number of
  nanoseconds. Instants are unbounded here: \<open>time.Time\<close> counts seconds in 64 bits, which
  no clock reading of the program reaches. Where the width of a duration matters (saturating
  \<open>Sub\<close>, the product in \<open>cacheTTL\<close>) it is written out at that place.
\<close>

section \<open>Named collections\<close>

named_theorems handler_defs \<open>the definitions of the request handlers and their helpers\<close>
named_theorems store_defs \<open>the definitions of the operations of one store implementation\<close>

section \<open>Errors as values\<close>

type_synonym go_error = string
type_synonym 'a res = "go_error + 'a"

definition is_ok :: "'a res \<Rightarrow> bool" where
  "is_ok r = (case r of Inl _ \<Rightarrow> False | Inr _ \<Rightarrow> True)"

lemma is_ok_simps [simp]: "\<not> is_ok (Inl e)" "is_ok (Inr x)"
  by (simp_all add: is_ok_def)

lemma is_ok_iff: "is_ok r \<longleftrightarrow> (\<exists>x. r = Inr x)"
  by (cases r) auto

text \<open>A chain of checks succeeds if each of them does.\<close>

lemma case_res_Inr: "(case r of Inl e \<Rightarrow> Inl (h e) | Inr x \<Rightarrow> f x) = Inr y \<longleftrightarrow> (\<exists>x. r = Inr x \<and> f x = Inr y)"
  by (cases r) auto

lemma if_res_Inr: "(if b then Inl e else r) = Inr y \<longleftrightarrow> \<not> b \<and> r = Inr y"
  by simp

lemmas res_Inr = case_res_Inr if_res_Inr

section \<open>Instants and durations\<close>

type_synonym time = int
type_synonym duration = int

abbreviation nanosecond :: duration where "nanosecond \<equiv> 1"
abbreviation second :: duration where "second \<equiv> 1000000000"
abbreviation minute :: duration where "minute \<equiv> 60000000000"
abbreviation hour :: duration where "hour \<equiv> 3600000000000"

abbreviation zero_time :: time where "zero_time \<equiv> 0"
abbreviation IsZero :: "time \<Rightarrow> bool" where "IsZero t \<equiv> t = zero_time"

abbreviation max_duration :: duration where "max_duration \<equiv> 9223372036854775807"
abbreviation min_duration :: duration where "min_duration \<equiv> - 9223372036854775808"

definition time_sub :: "time \<Rightarrow> time \<Rightarrow> duration" where
  \<comment> \<open>\<open>Time.Sub\<close> saturates at the ends of the 64-bit range.\<close>
  "time_sub t u = max min_duration (min max_duration (t - u))"

definition duration_seconds :: "duration \<Rightarrow> int" where
  \<comment> \<open>\<open>int64(d.Seconds())\<close>, which truncates towards zero\<close>
  "duration_seconds d = sgn d * (\<bar>d\<bar> div second)"

text \<open>An instant cut to whole seconds, as a JWT carries it.\<close>

definition trunc_second :: "time \<Rightarrow> time" where
  "trunc_second t = t div second * second"

lemma trunc_second_le: "trunc_second t \<le> t"
proof -
  have "trunc_second t + t mod second = t" by (simp add: trunc_second_def)
  moreover have "0 \<le> t mod second" by simp
  ultimately show ?thesis by linarith
qed

lemma trunc_second_gt: "t - second < trunc_second t"
proof -
  have "trunc_second t + t mod second = t" by (simp add: trunc_second_def)
  moreover have "t mod second < second" by simp
  ultimately show ?thesis by linarith
qed

section \<open>Association lists\<close>

lemma map_of_filter_distinct:
  assumes "distinct (map fst xs)"
  shows "map_of (filter (\<lambda>(k, v). P v) xs) k =
    (case map_of xs k of None \<Rightarrow> None | Some v \<Rightarrow> if P v then Some v else None)"
  using assms
proof (induction xs)
  case (Cons x xs)
  obtain k' v' where x: "x = (k', v')" by force
  have "k \<in> fst ` set xs" if "map_of xs k = Some v" for v
    using that by (force dest: map_of_SomeD)
  with Cons x show ?case by (auto split: option.splits)
qed simp

lemma distinct_filter_keys: "distinct (map fst xs) \<Longrightarrow> distinct (map fst (filter P xs))"
  by (simp add: distinct_map_filter)

lemma length_delete_key:
  "distinct (map fst xs) \<Longrightarrow> k \<in> fst ` set xs \<Longrightarrow> length (AList.delete k xs) = length xs - 1"
proof (induction xs)
  case (Cons x xs)
  show ?case
  proof (cases "fst x = k")
    case True
    then have "k \<notin> fst ` set xs" using Cons.prems by auto
    then have "AList.delete k xs = xs" by (simp add: delete_id)
    then show ?thesis using True by (cases x) auto
  next
    case False
    then have "k \<in> fst ` set xs" using Cons.prems by auto
    moreover from this have "xs \<noteq> []" by auto
    ultimately show ?thesis using False Cons by (cases x) auto
  qed
qed simp

lemma length_update_le: "length (AList.update k v xs) \<le> Suc (length xs)"
  by (induction xs) auto

end
