(* ===== verification/Go_Strings.thy ===== *)
theory Go_Strings
  imports Prelude "HOL-Library.Sublist"
begin

text \<open>
  The part of Go's string library the program uses. A Go string is a sequence of bytes, so it
  is a \<open>string\<close> (a \<open>char\<close> is a byte) and \<open>length\<close> is \<open>len\<close>. Functions with
  Unicode behaviour are exact on the bytes the program gives them; the lower-casing of text
  that is not ASCII depends on the Unicode tables and is the parameter \<open>ul\<close> of
  \<open>ToLower\<close>, which Go, too, consults only when some byte is not ASCII.
\<close>

section \<open>Bytes and characters\<close>

type_synonym byte = "8 word"

abbreviation ord :: "char \<Rightarrow> nat" where "ord c \<equiv> of_char c"

definition bytes :: "string \<Rightarrow> byte list" where
  "bytes s = map of_char s"

definition in_range :: "char \<Rightarrow> char \<Rightarrow> char \<Rightarrow> bool" where
  "in_range lo hi c \<longleftrightarrow> ord lo \<le> ord c \<and> ord c \<le> ord hi"

abbreviation is_alpha :: "char \<Rightarrow> bool" where
  "is_alpha c \<equiv> in_range CHR ''A'' CHR ''Z'' c \<or> in_range CHR ''a'' CHR ''z'' c"

abbreviation is_digit :: "char \<Rightarrow> bool" where
  "is_digit c \<equiv> in_range CHR ''0'' CHR ''9'' c"

lemma length_bytes [simp]: "length (bytes s) = length s"
  by (simp add: bytes_def)

section \<open>Case\<close>

definition lower_char :: "char \<Rightarrow> char" where
  "lower_char c = (if in_range CHR ''A'' CHR ''Z'' c then char_of (ord c + 32) else c)"

definition ascii_lower :: "string \<Rightarrow> string" where
  "ascii_lower s = map lower_char s"

definition ToLower :: "(string \<Rightarrow> string) \<Rightarrow> string \<Rightarrow> string" where
  "ToLower ul s = (if list_all (\<lambda>c. ord c < 128) s then ascii_lower s else ul s)"

text \<open>
  \<open>strings.EqualFold s t\<close> for a \<open>t\<close> that is lower-case ASCII: simple case folding also
  takes the long s (bytes C5 BF) to \<open>s\<close> and the Kelvin sign (bytes E2 84 AA) to
  \<open>k\<close>; no other rune folds to an ASCII letter.
\<close>

fun EqualFold :: "string \<Rightarrow> string \<Rightarrow> bool" where
  "EqualFold s [] = (s = [])"
| "EqualFold [] (t # ts) = False"
| "EqualFold (c # cs) (t # ts) =
     (if lower_char c = t then EqualFold cs ts
      else if t = CHR ''s'' \<and> c = CHR 0xC5 \<and> take 1 cs = [CHR 0xBF] then EqualFold (drop 1 cs) ts
      else if t = CHR ''k'' \<and> c = CHR 0xE2 \<and> take 2 cs = [CHR 0x84, CHR 0xAA]
           then EqualFold (drop 2 cs) ts
      else False)"

lemma EqualFold_ascii:
  "CHR ''s'' \<notin> set t \<Longrightarrow> CHR ''k'' \<notin> set t \<Longrightarrow> EqualFold s t \<longleftrightarrow> ascii_lower s = t"
  by (induction s t rule: EqualFold.induct) (auto simp: ascii_lower_def)

section \<open>Trimming\<close>

text \<open>The encodings of the runes \<open>unicode.IsSpace\<close> accepts.\<close>

definition space_runes :: "string list" where
  "space_runes =
     [[CHR 0x09], [CHR 0x0A], [CHR 0x0B], [CHR 0x0C], [CHR 0x0D], [CHR 0x20],
      [CHR 0xC2, CHR 0x85], [CHR 0xC2, CHR 0xA0], [CHR 0xE1, CHR 0x9A, CHR 0x80]]
     @ map (\<lambda>n. [CHR 0xE2, CHR 0x80, char_of (n :: nat)]) [0x80..<0x8B]
     @ [[CHR 0xE2, CHR 0x80, CHR 0xA8], [CHR 0xE2, CHR 0x80, CHR 0xA9],
        [CHR 0xE2, CHR 0x80, CHR 0xAF], [CHR 0xE2, CHR 0x81, CHR 0x9F],
        [CHR 0xE3, CHR 0x80, CHR 0x80]]"

function trim_left :: "string list \<Rightarrow> string \<Rightarrow> string" where
  "trim_left rs s =
     (case find (\<lambda>r. r \<noteq> [] \<and> take (length r) s = r) rs of
        None \<Rightarrow> s
      | Some r \<Rightarrow> trim_left rs (drop (length r) s))"
  by pat_completeness auto
termination
proof (relation "measure (\<lambda>(rs, s). length s)", simp)
  fix rs s r
  assume "find (\<lambda>r. r \<noteq> [] \<and> take (length r) s = r) rs = Some r"
  then have "r \<noteq> []" and "take (length r) s = r" by (auto simp: find_Some_iff)
  then have "s \<noteq> []" by auto
  with \<open>r \<noteq> []\<close> show "((rs, drop (length r) s), (rs, s)) \<in> measure (\<lambda>(rs, s). length s)"
    by simp
qed

declare trim_left.simps [simp del]

definition TrimSpace :: "string \<Rightarrow> string" where
  "TrimSpace s = rev (trim_left (map rev space_runes) (rev (trim_left space_runes s)))"

text \<open>A string with graphic ends is trimmed already.\<close>

lemma trim_left_id: "s \<noteq> [] \<Longrightarrow> hd s \<notin> hd ` set rs \<Longrightarrow> trim_left rs s = s"
proof -
  assume "s \<noteq> []" and "hd s \<notin> hd ` set rs"
  then have "find (\<lambda>r. r \<noteq> [] \<and> take (length r) s = r) rs = None"
    unfolding find_None_iff by (metis hd_take image_eqI length_greater_0_conv)
  then show "trim_left rs s = s" by (subst trim_left.simps) simp
qed

lemma TrimSpace_Nil [simp]: "TrimSpace [] = []"
proof -
  have "find (\<lambda>r. r \<noteq> [] \<and> take (length r) [] = r) rs = None" for rs :: "string list"
    by (simp add: find_None_iff)
  then have "trim_left rs [] = []" for rs by (subst trim_left.simps) simp
  then show ?thesis by (simp add: TrimSpace_def)
qed

lemma TrimSpace_id: "s \<noteq> [] \<Longrightarrow> hd s \<notin> hd ` set space_runes \<Longrightarrow> last s \<notin> last ` set space_runes \<Longrightarrow> TrimSpace s = s"
  by (simp add: TrimSpace_def trim_left_id hd_rev image_image)

lemma TrimSpace_graphic:
  assumes "s \<noteq> []" and "32 < ord (hd s)" "ord (hd s) < 128" and "32 < ord (last s)" "ord (last s) < 128"
  shows "TrimSpace s = s"
proof -
  have "list_all (\<lambda>r. (ord (hd r) \<le> 32 \<or> 128 \<le> ord (hd r)) \<and> (ord (last r) \<le> 32 \<or> 128 \<le> ord (last r))) space_runes"
    by code_simp
  then show ?thesis using assms by (intro TrimSpace_id) (fastforce simp: list_all_iff)+
qed

definition TrimRight :: "string \<Rightarrow> char \<Rightarrow> string" where
  \<comment> \<open>\<open>strings.TrimRight\<close> with a cutset of one character\<close>
  "TrimRight s c = rev (dropWhile (\<lambda>x. x = c) (rev s))"

section \<open>Prefixes, searching, splitting and joining\<close>

definition HasPrefix :: "string \<Rightarrow> string \<Rightarrow> bool" where
  "HasPrefix s p \<longleftrightarrow> take (length p) s = p"

definition HasSuffix :: "string \<Rightarrow> string \<Rightarrow> bool" where
  "HasSuffix s p \<longleftrightarrow> HasPrefix (rev s) (rev p)"

definition CutPrefix :: "string \<Rightarrow> string \<Rightarrow> string option" where
  "CutPrefix s p = (if HasPrefix s p then Some (drop (length p) s) else None)"

text \<open>\<open>strings.Cut\<close> at the first occurrence of one character.\<close>

fun Cut :: "char \<Rightarrow> string \<Rightarrow> string \<times> string \<times> bool" where
  "Cut d [] = ([], [], False)"
| "Cut d (c # cs) =
     (if c = d then ([], cs, True)
      else (let (a, b, found) = Cut d cs in (c # a, b, found)))"

fun split_char :: "char \<Rightarrow> string \<Rightarrow> string list" where
  "split_char d [] = [[]]"
| "split_char d (c # cs) =
     (if c = d then [] # split_char d cs
      else (case split_char d cs of [] \<Rightarrow> [[c]] | p # ps \<Rightarrow> (c # p) # ps))"

text \<open>\<open>strings.SplitN s d n\<close>: at most \<open>n\<close> pieces, the last of which is not split.\<close>

fun SplitN :: "char \<Rightarrow> nat \<Rightarrow> string \<Rightarrow> string list" where
  "SplitN d 0 s = []"
| "SplitN d (Suc 0) s = [s]"
| "SplitN d (Suc (Suc n)) s =
     (case Cut d s of (a, b, found) \<Rightarrow> if found then a # SplitN d (Suc n) b else [a])"

fun Join :: "string list \<Rightarrow> char \<Rightarrow> string" where
  "Join [] d = []"
| "Join [s] d = s"
| "Join (s # t # ss) d = s @ [d] @ Join (t # ss) d"

fun join_with :: "string \<Rightarrow> string list \<Rightarrow> string" where
  "join_with d [] = []"
| "join_with d [s] = s"
| "join_with d (s # t # ss) = s @ d @ join_with d (t # ss)"

lemma Cut_append:
  "d \<notin> set a \<Longrightarrow> Cut d (a @ d # b) = (a, b, True)"
  by (induction a) auto

lemma Cut_none: "d \<notin> set a \<Longrightarrow> Cut d a = (a, [], False)"
  by (induction a) auto

text \<open>Splitting what was joined gives the pieces back, when none holds the separator.\<close>

lemma SplitN_Join:
  assumes "ss \<noteq> []" and "\<forall>s \<in> set ss. d \<notin> set s" and "length ss \<le> n"
  shows "SplitN d n (Join ss d) = ss"
  using assms
proof (induction ss d arbitrary: n rule: Join.induct)
  case (2 s d)
  then obtain m where "n = Suc m" by (cases n) auto
  then show ?case using 2 by (cases m) (auto simp: Cut_none)
next
  case (3 s t ss d)
  then obtain m where n: "n = Suc (Suc m)" by (cases n; cases "n - 1") auto
  have "SplitN d (Suc m) (Join (t # ss) d) = t # ss"
    using 3 n by (intro "3.IH") auto
  then show ?case using 3 n by (simp add: Cut_append)
qed simp

section \<open>Quoting\<close>

definition hex_digit :: "nat \<Rightarrow> char" where
  "hex_digit n = (if n < 10 then char_of (48 + n) else char_of (87 + n))"

fun decimal :: "nat \<Rightarrow> string" where
  \<comment> \<open>\<open>%d\<close> of a length or a count\<close>
  "decimal n = (if n < 10 then [char_of (48 + n)] else decimal (n div 10) @ [char_of (48 + n mod 10)])"

declare decimal.simps [simp del]

definition quote_char :: "char \<Rightarrow> string" where
  "quote_char c =
     (if c = CHR 0x22 \<or> c = CHR 0x5C then [CHR 0x5C, c]
      else if c = CHR 0x07 then [CHR 0x5C, CHR ''a'']
      else if c = CHR 0x08 then [CHR 0x5C, CHR ''b'']
      else if c = CHR 0x0C then [CHR 0x5C, CHR ''f'']
      else if c = CHR 0x0A then [CHR 0x5C, CHR ''n'']
      else if c = CHR 0x0D then [CHR 0x5C, CHR ''r'']
      else if c = CHR 0x09 then [CHR 0x5C, CHR ''t'']
      else if c = CHR 0x0B then [CHR 0x5C, CHR ''v'']
      else if ord c < 32 \<or> ord c = 127
           then [CHR 0x5C, CHR ''x'', hex_digit (ord c div 16), hex_digit (ord c mod 16)]
      else [c])"

text \<open>\<open>strconv.Quote\<close> (\<open>%q\<close>); \<open>uq\<close> stands for it on strings that are not ASCII.\<close>

definition Quote :: "(string \<Rightarrow> string) \<Rightarrow> string \<Rightarrow> string" where
  "Quote uq s =
     (if list_all (\<lambda>c. ord c < 128) s
      then [CHR 0x22] @ concat (map quote_char s) @ [CHR 0x22] else uq s)"

end
