(* ===== verification/Types.thy ===== *)
theory Types
  imports Go_Crypto
begin

text \<open>
  The data of the program: \<open>types.go\<close> (the configuration and the four stored records),
  the in-process state of a \<open>Provider\<close> (\<open>mcpoauth.go\<close>, \<open>grace.go\<close>,
  \<open>google.go\<close>), and HTTP responses as the handlers build them. A field keeps its Go name;
  a prefix separates records that share one.
\<close>

section \<open>Stored records (\<open>types.go\<close>)\<close>

record client =
  cl_ClientID :: string
  cl_RedirectURIs :: "string list"
  cl_ClientName :: string
  cl_CreatedAt :: time
  cl_ExpiresAt :: time

fun has_uri :: "string list \<Rightarrow> string \<Rightarrow> bool" where
  "has_uri [] uri = False"
| "has_uri (u # us) uri = (if u = uri then True else has_uri us uri)"

definition HasRedirectURI :: "client \<Rightarrow> string \<Rightarrow> bool" where
  "HasRedirectURI c uri = has_uri (cl_RedirectURIs c) uri"

lemma has_uri_iff: "has_uri us uri \<longleftrightarrow> uri \<in> set us"
  by (induction us) auto

lemma HasRedirectURI_iff: "HasRedirectURI c uri \<longleftrightarrow> uri \<in> set (cl_RedirectURIs c)"
  by (simp add: HasRedirectURI_def has_uri_iff)

record auth_code =
  ac_CodeHash :: string
  ac_ClientID :: string
  ac_UserID :: string
  ac_RedirectURI :: string
  ac_CodeChallenge :: string
  ac_ExpiresAt :: time
  ac_CreatedAt :: time

record pending_auth =
  pa_StateHash :: string
  pa_ClientID :: string
  pa_RedirectURI :: string
  pa_CodeChallenge :: string
  pa_ClientState :: string
  pa_BinderHash :: string
  pa_Approved :: bool
  pa_ExpiresAt :: time
  pa_CreatedAt :: time

record refresh_token =
  rt_TokenHash :: string
  rt_ClientID :: string
  rt_UserID :: string
  rt_FamilyID :: string
  rt_FamilyCreatedAt :: time
  rt_FamilyExpiresAt :: time
  rt_ExpiresAt :: time
  rt_CreatedAt :: time
  rt_ConsumedAt :: time

section \<open>HTTP responses\<close>

datatype same_site = SameSiteLaxMode | SameSiteStrictMode | SameSiteNoneMode

record cookie =
  ck_Name :: string
  ck_Value :: string
  ck_Path :: string
  ck_HttpOnly :: bool
  ck_Secure :: bool
  ck_SameSite :: same_site
  ck_MaxAge :: int

record token_response =
  tr_AccessToken :: string
  tr_TokenType :: string
  tr_ExpiresIn :: int
  tr_RefreshToken :: string
  tr_Scope :: string

record registration_response =
  rr_ClientID :: string
  rr_RedirectURIs :: "string list"
  rr_ClientName :: string
  rr_TokenEndpointAuthMethod :: string
  rr_GrantTypes :: "string list"
  rr_ResponseTypes :: "string list"

record consent_page_data =
  cp_ClientName :: string
  cp_RedirectURI :: string
  cp_Scopes :: "string list"
  cp_FormAction :: string
  cp_NonceField :: string
  cp_Nonce :: string

record consent_request =
  cr_RedirectURI :: string
  cr_Scopes :: "string list"
  cr_FormAction :: string
  cr_NonceField :: string
  cr_Nonce :: string

datatype meta_value = MStr string | MList "string list"

text \<open>The values handed to the JSON encoder or the page template, one constructor each.\<close>

datatype body =
    NoBody
  | ErrorBody string string
  | TokenBody token_response
  | RegistrationBody registration_response
  | MetadataBody "(string \<times> meta_value) list"
  | ConsentBody consent_page_data
  | UnlinkedAccountPage
  | RedirectPage string
  | ApplicationBody string

record response =
  rs_status :: nat
  rs_headers :: "(string \<times> string) list"
  rs_cookies :: "cookie list"
  rs_body :: body

text \<open>A \<open>ResponseWriter\<close> before its header is written: the headers and cookies set so far.\<close>

record writer =
  wr_headers :: "(string \<times> string) list"
  wr_cookies :: "cookie list"

definition new_writer :: writer where
  "new_writer = \<lparr>wr_headers = [], wr_cookies = []\<rparr>"

definition header_set :: "string \<Rightarrow> string \<Rightarrow> writer \<Rightarrow> writer" where
  "header_set k v w = w\<lparr>wr_headers := AList.update k v (wr_headers w)\<rparr>"

definition set_cookie :: "cookie \<Rightarrow> writer \<Rightarrow> writer" where
  "set_cookie c w = w\<lparr>wr_cookies := wr_cookies w @ [c]\<rparr>"

definition finish :: "writer \<Rightarrow> nat \<Rightarrow> body \<Rightarrow> response" where
  "finish w st b = \<lparr>rs_status = st, rs_headers = wr_headers w, rs_cookies = wr_cookies w, rs_body = b\<rparr>"

section \<open>HTTP requests\<close>

text \<open>
  A request as \<open>net/http\<close> presents it: the decoded query, the outcome of decoding the form
  and of decoding a JSON body under a size limit, and the cookies.
\<close>

record registration_request =
  rg_RedirectURIs :: "string list"
  rg_ClientName :: string

record request =
  rq_Method :: string
  rq_query :: "(string \<times> string) list"
  rq_body_len :: nat
  rq_form :: "((string \<times> string) list) res"
  rq_json :: "nat \<Rightarrow> registration_request res"
  rq_cookies :: "(string \<times> string) list"
  rq_authorization :: string

section \<open>Configuration (\<open>types.go\<close>)\<close>

record config =
  Issuer :: string
  ResourceURL :: string
  MetadataBaseURL :: string
  GoogleClientID :: string
  GoogleClientSecret :: string
  GoogleRedirectURL :: string
  AuthorizeURL :: string
  TokenURL :: string
  RegisterURL :: string
  JWTSecret :: "byte list"
  AccessTokenTTL :: duration
  RefreshTokenTTL :: duration
  AuthCodeTTL :: duration
  PendingAuthTTL :: duration
  RefreshTokenAbsoluteTTL :: duration
  RefreshGracePeriod :: duration
  UnusedClientTTL :: duration
  ClientTTL :: duration
  PurgeInterval :: duration
  ConsentHandler :: "(writer \<Rightarrow> request \<Rightarrow> client \<Rightarrow> consent_request \<Rightarrow> response) option"
  AllowedRedirectHosts :: "string list"
  InsecureDevMode :: bool
  VerifyStoreUserID :: string
  GoogleAuthURL :: string
  GoogleTokenURL :: string
  GoogleJWKSURL :: string

definition GrantedScope :: string where
  "GrantedScope = ''openid email profile''"

definition TokenUseMCPAccess :: string where
  "TokenUseMCPAccess = ''mcp_access''"

definition ProtectedResourceMetadataPath :: string where
  "ProtectedResourceMetadataPath = ''/.well-known/oauth-protected-resource''"

definition AuthorizationServerMetadataPath :: string where
  "AuthorizationServerMetadataPath = ''/.well-known/oauth-authorization-server''"

definition OpenIDConfigurationPath :: string where
  "OpenIDConfigurationPath = ''/.well-known/openid-configuration''"

definition ConsentNonceField :: string where
  "ConsentNonceField = ''mcpoauth_consent''"

definition BinderCookieName :: string where
  "BinderCookieName = ''__Host-mcpoauth_binder''"

definition BinderCookieNameInsecure :: string where
  "BinderCookieNameInsecure = ''mcpoauth_binder''"

definition BinderCookieSep :: char where
  "BinderCookieSep = CHR ''.''"

section \<open>The provider and its in-process state (\<open>mcpoauth.go\<close>)\<close>

record provider =
  cfg :: config
  signKey :: "byte list"

record grace_entry =
  successorRaw :: string
  ge_expiresAt :: time

record rsa_key =
  rsa_N :: nat
  rsa_E :: int

text \<open>
  What a \<open>Provider\<close> mutates while it serves requests: the purge throttle (under
  \<open>p.mu\<close>), the grace cache (under \<open>p.graceMu\<close>) and the key cache (under
  \<open>c.mu\<close>). A Go map is an association list with distinct keys, in iteration order.
\<close>

record pmem =
  lastPurge :: time
  grace :: "(string \<times> grace_entry) list"
  jwks_keys :: "(string \<times> rsa_key) list"
  jwks_expiresAt :: time

definition new_pmem :: pmem where
  "new_pmem = \<lparr>lastPurge = zero_time, grace = [], jwks_keys = [], jwks_expiresAt = zero_time\<rparr>"

section \<open>Third-party and application code\<close>

text \<open>
  The instants of a claims record are the arguments of \<open>jwt.NewNumericDate\<close>.
\<close>

record access_claims =
  at_Scope :: string
  at_TokenUse :: string
  at_Issuer :: string
  at_Subject :: string
  at_Audience :: "string list"
  at_IssuedAt :: time
  at_NotBefore :: time
  at_ExpiresAt :: time

record google_claims =
  gc_Email :: string
  gc_EmailVerified :: bool
  gc_Issuer :: string

record parse_options =
  po_ValidMethods :: "string list"
  po_Issuer :: "string option"
  po_Audience :: string
  po_ExpirationRequired :: bool

text \<open>
  The functions of code that is not in the repository, and of the runtime where Go leaves
  the choice open. \<open>jwt_sign\<close> and the two \<open>jwt_parse\<close> functions are
  \<open>SignedString\<close> and \<open>ParseWithClaims\<close> of \<open>golang-jwt/jwt/v5\<close>: the parser is
  given the options, the instant it reads, and the key function of the caller, which sees
  whether the token's method is an HMAC (access tokens) or the key it returned (Google's). \<open>jwt_kid\<close> is what that key function is called with, the \<open>kid\<close>
  header, when the token is well-formed and its method is allowed. \<open>map_pick\<close> is the key
  a \<open>range\<close> over a map visits first, \<open>unicode_lower\<close> the Unicode lower-casing and
  \<open>unicode_quote\<close> the \<open>%q\<close> quoting of a string that is not ASCII.
\<close>

record lib =
  jwt_sign :: "access_claims \<Rightarrow> byte list \<Rightarrow> string res"
  jwt_parse_access :: "string \<Rightarrow> parse_options \<Rightarrow> time \<Rightarrow> (bool \<Rightarrow> byte list res) \<Rightarrow> access_claims res"
  jwt_kid :: "string \<Rightarrow> parse_options \<Rightarrow> string res"
  jwt_parse_google :: "string \<Rightarrow> parse_options \<Rightarrow> time \<Rightarrow> rsa_key \<Rightarrow> google_claims res"
  map_pick :: "string list \<Rightarrow> nat"
  unicode_lower :: "string \<Rightarrow> string"
  unicode_quote :: "string \<Rightarrow> string"

end
