(* ===== verification/Store.thy ===== *)
theory Store
  imports Types
begin

text \<open>
  The \<open>Store\<close> interface (\<open>store.go\<close>). \<open>store_ops\<close> is the interface's method
  table over an implementation state \<open>'s\<close>; every method returns its results and the
  changed state. \<open>astore\<close> is what the contract talks about: four tables and the user
  lookup. The locale \<open>store_contract\<close> states what \<open>store.go\<close> and
  \<open>STORE-CONTRACT.md\<close> require of each method relative to an abstraction \<open>absf\<close>, an
  invariant \<open>inv\<close> and the rounding \<open>nrm\<close> a backend applies to instants. A method
  may always fail; a failed method has either no effect or its whole effect.
\<close>

section \<open>The method table\<close>

record 's store_ops =
  op_SaveClient :: "client \<Rightarrow> 's \<Rightarrow> unit res \<times> 's"
  op_GetClient :: "string \<Rightarrow> 's \<Rightarrow> client option res \<times> 's"
  op_SaveAuthCode :: "auth_code \<Rightarrow> 's \<Rightarrow> unit res \<times> 's"
  op_ConsumeAuthCode :: "string \<Rightarrow> 's \<Rightarrow> auth_code option res \<times> 's"
  op_SavePendingAuth :: "pending_auth \<Rightarrow> 's \<Rightarrow> unit res \<times> 's"
  op_ConsumePendingAuth :: "string \<Rightarrow> 's \<Rightarrow> pending_auth option res \<times> 's"
  op_SaveRefreshToken :: "refresh_token \<Rightarrow> 's \<Rightarrow> unit res \<times> 's"
  op_GetRefreshToken :: "string \<Rightarrow> 's \<Rightarrow> refresh_token option res \<times> 's"
  op_ConsumeRefreshToken :: "string \<Rightarrow> time \<Rightarrow> 's \<Rightarrow> refresh_token option res \<times> 's"
  op_RevokeRefreshTokensForUser :: "string \<Rightarrow> 's \<Rightarrow> unit res \<times> 's"
  op_RevokeRefreshTokenFamily :: "string \<Rightarrow> 's \<Rightarrow> unit res \<times> 's"
  op_PurgeExpired :: "time \<Rightarrow> 's \<Rightarrow> unit res \<times> 's"
  op_FindUserIDByEmail :: "string \<Rightarrow> 's \<Rightarrow> string option res \<times> 's"

section \<open>The abstract store and the effect of each method\<close>

record astore =
  a_clients :: "string \<rightharpoonup> client"
  a_codes :: "string \<rightharpoonup> auth_code"
  a_pending :: "string \<rightharpoonup> pending_auth"
  a_refresh :: "string \<rightharpoonup> refresh_token"
  a_users :: "string \<rightharpoonup> string"

definition keep_rows :: "('v \<Rightarrow> bool) \<Rightarrow> (string \<rightharpoonup> 'v) \<Rightarrow> (string \<rightharpoonup> 'v)" where
  "keep_rows P m k = (case m k of None \<Rightarrow> None | Some v \<Rightarrow> if P v then Some v else None)"

definition put_client :: "client \<Rightarrow> astore \<Rightarrow> astore" where
  "put_client c a = a\<lparr>a_clients := (a_clients a)(cl_ClientID c \<mapsto> c)\<rparr>"

definition put_code :: "auth_code \<Rightarrow> astore \<Rightarrow> astore" where
  "put_code c a = a\<lparr>a_codes := (a_codes a)(ac_CodeHash c \<mapsto> c)\<rparr>"

definition del_code :: "string \<Rightarrow> astore \<Rightarrow> astore" where
  "del_code h a = a\<lparr>a_codes := (a_codes a)(h := None)\<rparr>"

definition put_pending :: "pending_auth \<Rightarrow> astore \<Rightarrow> astore" where
  "put_pending p a = a\<lparr>a_pending := (a_pending a)(pa_StateHash p \<mapsto> p)\<rparr>"

definition del_pending :: "string \<Rightarrow> astore \<Rightarrow> astore" where
  "del_pending h a = a\<lparr>a_pending := (a_pending a)(h := None)\<rparr>"

definition put_refresh :: "refresh_token \<Rightarrow> astore \<Rightarrow> astore" where
  "put_refresh rt a = a\<lparr>a_refresh := (a_refresh a)(rt_TokenHash rt \<mapsto> rt)\<rparr>"

definition stamp :: "string \<Rightarrow> time \<Rightarrow> (string \<rightharpoonup> refresh_token) \<Rightarrow> (string \<rightharpoonup> refresh_token)" where
  "stamp h t m = (case m h of
       None \<Rightarrow> m
     | Some rt \<Rightarrow> if IsZero (rt_ConsumedAt rt) then m(h \<mapsto> rt\<lparr>rt_ConsumedAt := t\<rparr>) else m)"

definition stamp_refresh :: "string \<Rightarrow> time \<Rightarrow> astore \<Rightarrow> astore" where
  "stamp_refresh h t a = a\<lparr>a_refresh := stamp h t (a_refresh a)\<rparr>"

definition revoke_user :: "string \<Rightarrow> astore \<Rightarrow> astore" where
  "revoke_user u a = a\<lparr>a_refresh := keep_rows (\<lambda>rt. rt_UserID rt \<noteq> u) (a_refresh a)\<rparr>"

definition revoke_family :: "string \<Rightarrow> astore \<Rightarrow> astore" where
  "revoke_family f a =
     (if f = [] then a
      else a\<lparr>a_refresh := keep_rows (\<lambda>rt. rt_FamilyID rt \<noteq> f) (a_refresh a)\<rparr>)"

definition retained :: "time \<Rightarrow> refresh_token \<Rightarrow> bool" where
  "retained b rt \<longleftrightarrow> \<not> (rt_ExpiresAt rt < b \<and> rt_FamilyExpiresAt rt < b)"

definition purge :: "time \<Rightarrow> astore \<Rightarrow> astore" where
  "purge b a = a\<lparr>
     a_codes := keep_rows (\<lambda>c. \<not> ac_ExpiresAt c < b) (a_codes a),
     a_pending := keep_rows (\<lambda>p. \<not> pa_ExpiresAt p < b) (a_pending a),
     a_refresh := keep_rows (retained b) (a_refresh a),
     a_clients := keep_rows (\<lambda>c. \<not> cl_ExpiresAt c < b) (a_clients a)\<rparr>"

text \<open>A purge that failed half-way: each table is either purged or untouched.\<close>

definition purge_partly :: "time \<Rightarrow> astore \<Rightarrow> astore \<Rightarrow> bool" where
  "purge_partly b a a' \<longleftrightarrow>
     a_users a' = a_users a \<and>
     (a_codes a' = a_codes a \<or> a_codes a' = a_codes (purge b a)) \<and>
     (a_pending a' = a_pending a \<or> a_pending a' = a_pending (purge b a)) \<and>
     (a_refresh a' = a_refresh a \<or> a_refresh a' = a_refresh (purge b a)) \<and>
     (a_clients a' = a_clients a \<or> a_clients a' = a_clients (purge b a))"

lemmas astore_defs =
  put_client_def put_code_def del_code_def put_pending_def del_pending_def put_refresh_def
  stamp_refresh_def revoke_user_def revoke_family_def purge_def

lemma keep_rows_eq_Some [simp]: "keep_rows P m k = Some v \<longleftrightarrow> m k = Some v \<and> P v"
  by (auto simp: keep_rows_def split: option.splits)

lemma keep_rows_eq_None: "keep_rows P m k = None \<longleftrightarrow> (\<forall>v. m k = Some v \<longrightarrow> \<not> P v)"
  by (auto simp: keep_rows_def split: option.splits)

lemma stamp_other [simp]: "k \<noteq> h \<Longrightarrow> stamp h t m k = m k"
  by (simp add: stamp_def split: option.splits)

lemma stamp_same: "stamp h t m h = map_option (\<lambda>rt. if IsZero (rt_ConsumedAt rt)
     then rt\<lparr>rt_ConsumedAt := t\<rparr> else rt) (m h)"
  by (simp add: stamp_def split: option.splits)

lemma stamp_None [simp]: "stamp h t m k = None \<longleftrightarrow> m k = None"
  by (cases "k = h") (auto simp: stamp_same)

lemma stamp_refresh_id:
  "a_refresh a h = None \<Longrightarrow> stamp_refresh h t a = a"
  "a_refresh a h = Some rt \<Longrightarrow> \<not> IsZero (rt_ConsumedAt rt) \<Longrightarrow> stamp_refresh h t a = a"
  by (simp_all add: stamp_refresh_def stamp_def)

lemma stamp_refresh_lookup:
  "a_refresh (stamp_refresh h t a) k = (if k = h then map_option (\<lambda>rt. if IsZero (rt_ConsumedAt rt)
     then rt\<lparr>rt_ConsumedAt := t\<rparr> else rt) (a_refresh a h) else a_refresh a k)"
  by (simp add: stamp_refresh_def stamp_same)

lemma put_refresh_lookup:
  "a_refresh (put_refresh rt a) k = (if k = rt_TokenHash rt then Some rt else a_refresh a k)"
  by (simp add: put_refresh_def)

lemma revoke_family_lookup:
  "a_refresh (revoke_family f a) k = Some rt \<longleftrightarrow> a_refresh a k = Some rt \<and> (f = [] \<or> rt_FamilyID rt \<noteq> f)"
  by (auto simp: revoke_family_def)

section \<open>Rounding of instants by the backend\<close>

text \<open>
  A database keeps instants with a finite precision, and a backend may read back the zero
  instant of a refresh token specially: \<open>r_row\<close> is what happens to the instants of clients,
  codes and pending records, \<open>r_refresh\<close> to those of refresh tokens. \<open>clock_floor\<close> is an instant every
  sane clock is past (the second day of year two); from there on rounding keeps the order
  and never gives the zero time.
\<close>

abbreviation clock_floor :: time where "clock_floor \<equiv> 31622400000000000"

record rounding =
  r_row :: "time \<Rightarrow> time"
  r_refresh :: "time \<Rightarrow> time"

text \<open>Nothing is lost.\<close>

definition exact :: rounding where
  "exact = \<lparr>r_row = (\<lambda>t. t), r_refresh = (\<lambda>t. t)\<rparr>"

lemma exact_simps [simp]: "r_row exact t = t" "r_refresh exact t = t"
  by (simp_all add: exact_def)

definition nrm_client :: "rounding \<Rightarrow> client \<Rightarrow> client" where
  "nrm_client n c = c\<lparr>cl_CreatedAt := r_row n (cl_CreatedAt c), cl_ExpiresAt := r_row n (cl_ExpiresAt c)\<rparr>"

definition nrm_code :: "rounding \<Rightarrow> auth_code \<Rightarrow> auth_code" where
  "nrm_code n c = c\<lparr>ac_ExpiresAt := r_row n (ac_ExpiresAt c), ac_CreatedAt := r_row n (ac_CreatedAt c)\<rparr>"

definition nrm_pending :: "rounding \<Rightarrow> pending_auth \<Rightarrow> pending_auth" where
  "nrm_pending n p = p\<lparr>pa_ExpiresAt := r_row n (pa_ExpiresAt p), pa_CreatedAt := r_row n (pa_CreatedAt p)\<rparr>"

definition nrm_refresh :: "rounding \<Rightarrow> refresh_token \<Rightarrow> refresh_token" where
  "nrm_refresh n rt = rt\<lparr>
     rt_FamilyCreatedAt := r_refresh n (rt_FamilyCreatedAt rt),
     rt_FamilyExpiresAt := r_refresh n (rt_FamilyExpiresAt rt),
     rt_ExpiresAt := r_refresh n (rt_ExpiresAt rt), rt_CreatedAt := r_refresh n (rt_CreatedAt rt),
     rt_ConsumedAt := r_refresh n (rt_ConsumedAt rt)\<rparr>"

lemmas nrm_defs = nrm_client_def nrm_code_def nrm_pending_def nrm_refresh_def

lemma nrm_exact [simp]:
  "nrm_client exact c = c" "nrm_code exact d = d" "nrm_pending exact p = p" "nrm_refresh exact rt = rt"
  by (simp_all add: nrm_defs)

section \<open>The contract\<close>

text \<open>\<open>SaveClient\<close> upserts; an implementation may keep the row's first \<open>CreatedAt\<close>.\<close>

definition client_row :: "rounding \<Rightarrow> client \<Rightarrow> client \<Rightarrow> bool" where
  "client_row n c c' \<longleftrightarrow> c'\<lparr>cl_CreatedAt := 0\<rparr> = (nrm_client n c)\<lparr>cl_CreatedAt := 0\<rparr>"

text \<open>
  \<open>SaveRefreshToken\<close> writes the row with a zero \<open>ConsumedAt\<close>; what becomes of a
  stamp that a caller hands over all the same is left to the implementation.
\<close>

definition refresh_row :: "rounding \<Rightarrow> refresh_token \<Rightarrow> refresh_token \<Rightarrow> bool" where
  "refresh_row n rt rt' \<longleftrightarrow> rt' = nrm_refresh n rt \<or>
     (\<not> IsZero (rt_ConsumedAt rt) \<and> rt' = (nrm_refresh n rt)\<lparr>rt_ConsumedAt := zero_time\<rparr>)"

lemma refresh_row_fresh [simp]: "IsZero (rt_ConsumedAt rt) \<Longrightarrow> refresh_row n rt rt' \<longleftrightarrow> rt' = nrm_refresh n rt"
  by (simp add: refresh_row_def)

lemma refresh_row_key: "refresh_row n rt rt' \<Longrightarrow> rt_TokenHash rt' = rt_TokenHash rt \<and> rt_FamilyID rt' = rt_FamilyID rt"
  by (auto simp: refresh_row_def nrm_refresh_def)

definition preserves :: "('s \<Rightarrow> bool) \<Rightarrow> ('s \<Rightarrow> 'r \<times> 's) \<Rightarrow> bool" where
  "preserves J f \<longleftrightarrow> (\<forall>s r s'. J s \<longrightarrow> f s = (r, s') \<longrightarrow> J s')"

lemma preservesD: "preserves J f \<Longrightarrow> J s \<Longrightarrow> f s = (r, s') \<Longrightarrow> J s'"
  by (auto simp: preserves_def)

locale store_contract =
  fixes S :: "'s store_ops"
    and absf :: "'s \<Rightarrow> astore"
    and inv :: "'s \<Rightarrow> bool"
    and nrm :: rounding
  assumes nrm_zero: "r_refresh nrm 0 = 0"
    and nrm_mono: "t \<le> t' \<Longrightarrow> r_row nrm t \<le> r_row nrm t'" "t \<le> t' \<Longrightarrow> r_refresh nrm t \<le> r_refresh nrm t'"
    and nrm_pos: "clock_floor \<le> t \<Longrightarrow> 0 < r_refresh nrm t"
    and save_client: "\<And>s r s'. inv s \<Longrightarrow> op_SaveClient S c s = (r, s') \<Longrightarrow>
      inv s' \<and> ((\<exists>c'. client_row nrm c c' \<and> absf s' = put_client c' (absf s)) \<or> (\<not> is_ok r \<and> absf s' = absf s))"
    and get_client: "\<And>s r s'. inv s \<Longrightarrow> op_GetClient S i s = (r, s') \<Longrightarrow>
      inv s' \<and> absf s' = absf s \<and> (\<forall>x. r = Inr x \<longrightarrow> x = a_clients (absf s) i)"
    and save_code: "\<And>s r s'. inv s \<Longrightarrow> op_SaveAuthCode S d s = (r, s') \<Longrightarrow>
      inv s' \<and> (absf s' = put_code (nrm_code nrm d) (absf s) \<or> (\<not> is_ok r \<and> absf s' = absf s))"
    and consume_code: "\<And>s r s'. inv s \<Longrightarrow> op_ConsumeAuthCode S h s = (r, s') \<Longrightarrow>
      inv s' \<and> (absf s' = del_code h (absf s) \<or> (\<not> is_ok r \<and> absf s' = absf s))
        \<and> (\<forall>x. r = Inr x \<longrightarrow> x = a_codes (absf s) h)"
    and save_pending: "\<And>s r s'. inv s \<Longrightarrow> op_SavePendingAuth S p s = (r, s') \<Longrightarrow>
      inv s' \<and> (absf s' = put_pending (nrm_pending nrm p) (absf s) \<or> (\<not> is_ok r \<and> absf s' = absf s))"
    and consume_pending: "\<And>s r s'. inv s \<Longrightarrow> op_ConsumePendingAuth S h s = (r, s') \<Longrightarrow>
      inv s' \<and> (absf s' = del_pending h (absf s) \<or> (\<not> is_ok r \<and> absf s' = absf s))
        \<and> (\<forall>x. r = Inr x \<longrightarrow> x = a_pending (absf s) h)"
    and save_refresh: "\<And>s r s'. inv s \<Longrightarrow> op_SaveRefreshToken S rt s = (r, s') \<Longrightarrow>
      inv s' \<and> ((\<exists>rt'. refresh_row nrm rt rt' \<and> absf s' = put_refresh rt' (absf s)) \<or> (\<not> is_ok r \<and> absf s' = absf s))"
    and get_refresh: "\<And>s r s'. inv s \<Longrightarrow> op_GetRefreshToken S h s = (r, s') \<Longrightarrow>
      inv s' \<and> absf s' = absf s \<and> (\<forall>x. r = Inr x \<longrightarrow> x = a_refresh (absf s) h)"
    and consume_refresh: "\<And>s r s'. inv s \<Longrightarrow> clock_floor \<le> t \<Longrightarrow> op_ConsumeRefreshToken S h t s = (r, s') \<Longrightarrow>
      inv s' \<and> (absf s' = stamp_refresh h (r_refresh nrm t) (absf s) \<or> (\<not> is_ok r \<and> absf s' = absf s))
        \<and> (\<forall>x. r = Inr x \<longrightarrow> x = a_refresh (absf s) h)"
    and revoke_user: "\<And>s r s'. inv s \<Longrightarrow> u \<noteq> [] \<Longrightarrow> op_RevokeRefreshTokensForUser S u s = (r, s') \<Longrightarrow>
      inv s' \<and> (absf s' = revoke_user u (absf s) \<or> (\<not> is_ok r \<and> absf s' = absf s))"
    and revoke_family: "\<And>s r s'. inv s \<Longrightarrow> op_RevokeRefreshTokenFamily S f s = (r, s') \<Longrightarrow>
      inv s' \<and> (absf s' = revoke_family f (absf s) \<or> (\<not> is_ok r \<and> absf s' = absf s))"
    and purge_expired: "\<And>s r s'. inv s \<Longrightarrow> clock_floor \<le> b \<Longrightarrow> op_PurgeExpired S b s = (r, s') \<Longrightarrow>
      inv s' \<and> (absf s' = purge (r_row nrm b) (absf s) \<or> (\<not> is_ok r \<and> purge_partly (r_row nrm b) (absf s) (absf s')))"
    and find_user: "\<And>s r s'. inv s \<Longrightarrow> op_FindUserIDByEmail S e s = (r, s') \<Longrightarrow>
      inv s' \<and> absf s' = absf s \<and> (\<forall>x. r = Inr x \<longrightarrow> x = a_users (absf s) e)"
begin

text \<open>What the contract says of a single table, whatever the method returned.\<close>

lemma consume_code_single_use:
  assumes "inv s" and "op_ConsumeAuthCode S h s = (Inr x, s')" and "op_ConsumeAuthCode S h s' = (Inr y, s'')"
  shows "y = None"
  using consume_code [OF assms(1,2)] consume_code [OF _ assms(3)]
  by (auto simp: del_code_def)

lemma consume_pending_single_use:
  assumes "inv s" and "op_ConsumePendingAuth S h s = (Inr x, s')" and "op_ConsumePendingAuth S h s' = (Inr y, s'')"
  shows "y = None"
  using consume_pending [OF assms(1,2)] consume_pending [OF _ assms(3)]
  by (auto simp: del_pending_def)

lemma consume_refresh_first_wins:
  assumes "inv s" and "clock_floor \<le> t" and "clock_floor \<le> u"
    and "op_ConsumeRefreshToken S h t s = (Inr (Some rt), s')"
    and "op_ConsumeRefreshToken S h u s' = (Inr (Some rt'), s'')"
  shows "\<not> IsZero (rt_ConsumedAt rt')"
    and "\<not> IsZero (rt_ConsumedAt rt) \<Longrightarrow> rt' = rt"
proof -
  from consume_refresh [OF assms(1,2,4)] have "inv s'" and row: "a_refresh (absf s) h = Some rt"
    and "absf s' = stamp_refresh h (r_refresh nrm t) (absf s)" by auto
  moreover from this consume_refresh [OF _ assms(3,5)] have "a_refresh (absf s') h = Some rt'" by auto
  ultimately have "rt' = (if IsZero (rt_ConsumedAt rt) then rt\<lparr>rt_ConsumedAt := r_refresh nrm t\<rparr> else rt)"
    by (simp add: stamp_refresh_def stamp_same)
  then show "\<not> IsZero (rt_ConsumedAt rt')" and "\<not> IsZero (rt_ConsumedAt rt) \<Longrightarrow> rt' = rt"
    using nrm_pos [OF assms(2)] by auto
qed

lemma revoked_family_gone:
  assumes "inv s" and "f \<noteq> []" and "op_RevokeRefreshTokenFamily S f s = (Inr u, s')"
    and "a_refresh (absf s') h = Some rt"
  shows "rt_FamilyID rt \<noteq> f"
  using revoke_family [OF assms(1,3)] assms(2,4) by (auto simp: revoke_family_def)

lemma conj_middle: "A \<and> X \<Longrightarrow> B \<Longrightarrow> (A \<and> B) \<and> X"
  by simp

text \<open>An invariant every method preserves may be added to the contract's.\<close>

lemma with_invariant:
  assumes "\<And>c. preserves J (op_SaveClient S c)" and "\<And>i. preserves J (op_GetClient S i)"
    and "\<And>c. preserves J (op_SaveAuthCode S c)" and "\<And>h. preserves J (op_ConsumeAuthCode S h)"
    and "\<And>p. preserves J (op_SavePendingAuth S p)" and "\<And>h. preserves J (op_ConsumePendingAuth S h)"
    and "\<And>rt. preserves J (op_SaveRefreshToken S rt)" and "\<And>h. preserves J (op_GetRefreshToken S h)"
    and "\<And>h t. preserves J (op_ConsumeRefreshToken S h t)" and "\<And>u. preserves J (op_RevokeRefreshTokensForUser S u)"
    and "\<And>f. preserves J (op_RevokeRefreshTokenFamily S f)" and "\<And>b. preserves J (op_PurgeExpired S b)"
    and "\<And>e. preserves J (op_FindUserIDByEmail S e)"
  shows "store_contract S absf (\<lambda>s. inv s \<and> J s) nrm"
  by unfold_locales
  ((rule nrm_zero | erule nrm_mono nrm_pos)
  | (elim conjE, rule conj_middle,
     (rule save_client get_client save_code consume_code save_pending consume_pending save_refresh get_refresh
        consume_refresh revoke_user revoke_family purge_expired find_user; assumption),
     rule assms [THEN preservesD], assumption, assumption))+

end

text \<open>
  A store whose methods do not fail: what the handlers do when nothing goes wrong. Saving a code,
  a pending record or a refresh token may still be refused when its hash is taken: these are
  plain insertions.
\<close>

locale reliable_store = store_contract S absf inv nrm
  for S :: "'s store_ops" and absf :: "'s \<Rightarrow> astore" and inv :: "'s \<Rightarrow> bool" and nrm :: rounding +
  assumes ok_save_client: "inv s \<Longrightarrow> is_ok (fst (op_SaveClient S c s))"
    and ok_get_client: "inv s \<Longrightarrow> is_ok (fst (op_GetClient S i s))"
    and ok_save_code: "inv s \<Longrightarrow> a_codes (absf s) (ac_CodeHash d) = None \<Longrightarrow> is_ok (fst (op_SaveAuthCode S d s))"
    and ok_consume_code: "inv s \<Longrightarrow> is_ok (fst (op_ConsumeAuthCode S h s))"
    and ok_save_pending: "inv s \<Longrightarrow> a_pending (absf s) (pa_StateHash p) = None \<Longrightarrow> is_ok (fst (op_SavePendingAuth S p s))"
    and ok_consume_pending: "inv s \<Longrightarrow> is_ok (fst (op_ConsumePendingAuth S h s))"
    and ok_save_refresh: "inv s \<Longrightarrow> a_refresh (absf s) (rt_TokenHash rt) = None \<Longrightarrow> is_ok (fst (op_SaveRefreshToken S rt s))"
    and ok_get_refresh: "inv s \<Longrightarrow> is_ok (fst (op_GetRefreshToken S h s))"
    and ok_consume_refresh: "inv s \<Longrightarrow> is_ok (fst (op_ConsumeRefreshToken S h t s))"
    and ok_revoke_user: "inv s \<Longrightarrow> is_ok (fst (op_RevokeRefreshTokensForUser S u s))"
    and ok_revoke_family: "inv s \<Longrightarrow> is_ok (fst (op_RevokeRefreshTokenFamily S f s))"
    and ok_purge: "inv s \<Longrightarrow> is_ok (fst (op_PurgeExpired S b s))"
    and ok_find_user: "inv s \<Longrightarrow> is_ok (fst (op_FindUserIDByEmail S e s))"

end
