(* ===== verification/Prog.thy ===== *)
theory Prog
  imports Store
begin

text \<open>
  Request handlers as effect programs. A handler is pure Go code between its calls to the
  clock, the random source, the store, the provider's locked state and the network; \<open>prog\<close>
  has one constructor for each of these calls, holding the arguments and the rest of the
  handler as a function of the result. A handler is written once and has two readings:
  \<^item> \<open>run\<close> executes it alone against any implementation of the store interface;
  \<^item> \<open>exec1\<close> executes its next call only, and \<open>sys_step\<close> interleaves the calls of
    any number of requests in flight, which is what concurrent goroutines do: each store
    method and each critical section is atomic, and nothing else is shared.
\<close>

section \<open>Calls to the outside\<close>

text \<open>
  The two outgoing requests, and a reply as the program consumes it: the status, one header,
  and the outcome of reading and decoding the body.
\<close>

datatype http_request =
    PostForm string "(string \<times> string) list"
  | GetURL string

record jwk =
  jwk_Kid :: string
  jwk_Kty :: string
  jwk_Use :: string
  jwk_N :: string
  jwk_E :: string

record http_reply =
  hr_StatusCode :: nat
  hr_CacheControl :: string
  hr_read :: "unit res"
  hr_id_token :: "string res"
  hr_jwks :: "jwk list res"

datatype 'a prog =
    Ret 'a
  | Now "time \<Rightarrow> 'a prog"
  | RandRead nat "byte list option \<Rightarrow> 'a prog"
  | Locked "pmem \<Rightarrow> pmem" "pmem \<Rightarrow> 'a prog"
  | HttpDo http_request "http_reply res \<Rightarrow> 'a prog"
  | SaveClient client "unit res \<Rightarrow> 'a prog"
  | GetClient string "client option res \<Rightarrow> 'a prog"
  | SaveAuthCode auth_code "unit res \<Rightarrow> 'a prog"
  | ConsumeAuthCode string "auth_code option res \<Rightarrow> 'a prog"
  | SavePendingAuth pending_auth "unit res \<Rightarrow> 'a prog"
  | ConsumePendingAuth string "pending_auth option res \<Rightarrow> 'a prog"
  | SaveRefreshToken refresh_token "unit res \<Rightarrow> 'a prog"
  | GetRefreshToken string "refresh_token option res \<Rightarrow> 'a prog"
  | ConsumeRefreshToken string time "refresh_token option res \<Rightarrow> 'a prog"
  | RevokeRefreshTokenFamily string "unit res \<Rightarrow> 'a prog"
  | PurgeExpired time "unit res \<Rightarrow> 'a prog"
  | FindUserIDByEmail string "string option res \<Rightarrow> 'a prog"

section \<open>Running a handler alone\<close>

text \<open>
  The world of a run: the store, the provider's locked state, the bytes the random source has
  left (\<open>rand.Read\<close> fills the whole slice or fails), and a counter of the readings taken
  from the environment, which fixes what the clock and the network answer.
\<close>

record env =
  e_now :: "nat \<Rightarrow> time"
  e_http :: "nat \<Rightarrow> http_request \<Rightarrow> http_reply res"

record 's world =
  w_store :: 's
  w_mem :: pmem
  w_rand :: "byte list"
  w_tick :: nat

definition rand_read :: "nat \<Rightarrow> byte list \<Rightarrow> byte list option \<times> byte list" where
  "rand_read n bs = (if length bs < n then (None, []) else (Some (take n bs), drop n bs))"

primrec run :: "'s store_ops \<Rightarrow> env \<Rightarrow> 'a prog \<Rightarrow> 's world \<Rightarrow> 'a \<times> 's world" where
  "run S E (Ret x) = (\<lambda>w. (x, w))"
| "run S E (Now k) = (\<lambda>w. run S E (k (e_now E (w_tick w))) (w\<lparr>w_tick := Suc (w_tick w)\<rparr>))"
| "run S E (RandRead n k) = (\<lambda>w. case rand_read n (w_rand w) of (r, bs) \<Rightarrow> run S E (k r) (w\<lparr>w_rand := bs\<rparr>))"
| "run S E (Locked f k) = (\<lambda>w. run S E (k (w_mem w)) (w\<lparr>w_mem := f (w_mem w)\<rparr>))"
| "run S E (HttpDo q k) = (\<lambda>w. run S E (k (e_http E (w_tick w) q)) (w\<lparr>w_tick := Suc (w_tick w)\<rparr>))"
| "run S E (SaveClient c k) = (\<lambda>w. case op_SaveClient S c (w_store w) of (r, s) \<Rightarrow> run S E (k r) (w\<lparr>w_store := s\<rparr>))"
| "run S E (GetClient i k) = (\<lambda>w. case op_GetClient S i (w_store w) of (r, s) \<Rightarrow> run S E (k r) (w\<lparr>w_store := s\<rparr>))"
| "run S E (SaveAuthCode c k) = (\<lambda>w. case op_SaveAuthCode S c (w_store w) of (r, s) \<Rightarrow> run S E (k r) (w\<lparr>w_store := s\<rparr>))"
| "run S E (ConsumeAuthCode h k) = (\<lambda>w. case op_ConsumeAuthCode S h (w_store w) of (r, s) \<Rightarrow> run S E (k r) (w\<lparr>w_store := s\<rparr>))"
| "run S E (SavePendingAuth p k) = (\<lambda>w. case op_SavePendingAuth S p (w_store w) of (r, s) \<Rightarrow> run S E (k r) (w\<lparr>w_store := s\<rparr>))"
| "run S E (ConsumePendingAuth h k) = (\<lambda>w. case op_ConsumePendingAuth S h (w_store w) of (r, s) \<Rightarrow> run S E (k r) (w\<lparr>w_store := s\<rparr>))"
| "run S E (SaveRefreshToken rt k) = (\<lambda>w. case op_SaveRefreshToken S rt (w_store w) of (r, s) \<Rightarrow> run S E (k r) (w\<lparr>w_store := s\<rparr>))"
| "run S E (GetRefreshToken h k) = (\<lambda>w. case op_GetRefreshToken S h (w_store w) of (r, s) \<Rightarrow> run S E (k r) (w\<lparr>w_store := s\<rparr>))"
| "run S E (ConsumeRefreshToken h t k) = (\<lambda>w. case op_ConsumeRefreshToken S h t (w_store w) of (r, s) \<Rightarrow> run S E (k r) (w\<lparr>w_store := s\<rparr>))"
| "run S E (RevokeRefreshTokenFamily f k) = (\<lambda>w. case op_RevokeRefreshTokenFamily S f (w_store w) of (r, s) \<Rightarrow> run S E (k r) (w\<lparr>w_store := s\<rparr>))"
| "run S E (PurgeExpired t k) = (\<lambda>w. case op_PurgeExpired S t (w_store w) of (r, s) \<Rightarrow> run S E (k r) (w\<lparr>w_store := s\<rparr>))"
| "run S E (FindUserIDByEmail e k) = (\<lambda>w. case op_FindUserIDByEmail S e (w_store w) of (r, s) \<Rightarrow> run S E (k r) (w\<lparr>w_store := s\<rparr>))"

section \<open>Executing one call\<close>

text \<open>
  A call as an observable event, with the result the environment or the store gave; a critical
  section shows the provider's memory before and after. The
  environment's answers (time, random bytes, network) are free in \<open>exec1\<close>: the step
  relation below ranges over all of them.
\<close>

datatype event =
    EvNow time
  | EvRand nat "byte list option"
  | EvLocked pmem pmem
  | EvHttp http_request "http_reply res"
  | EvSaveClient client "unit res"
  | EvGetClient string "client option res"
  | EvSaveAuthCode auth_code "unit res"
  | EvConsumeAuthCode string "auth_code option res"
  | EvSavePendingAuth pending_auth "unit res"
  | EvConsumePendingAuth string "pending_auth option res"
  | EvSaveRefreshToken refresh_token "unit res"
  | EvGetRefreshToken string "refresh_token option res"
  | EvConsumeRefreshToken string time "refresh_token option res"
  | EvRevokeRefreshTokenFamily string "unit res"
  | EvPurgeExpired time "unit res"
  | EvFindUserIDByEmail string "string option res"

record answer =
  an_now :: time
  an_rand :: "byte list"
  an_http :: "http_reply res"

fun exec1 :: "'s store_ops \<Rightarrow> answer \<Rightarrow> 'a prog \<Rightarrow> 's \<times> pmem \<Rightarrow> (event \<times> 'a prog \<times> 's \<times> pmem) option" where
  "exec1 S A (Ret x) (s, m) = None"
| "exec1 S A (Now k) (s, m) = Some (EvNow (an_now A), k (an_now A), s, m)"
| "exec1 S A (RandRead n k) (s, m) =
     (let r = fst (rand_read n (an_rand A)) in Some (EvRand n r, k r, s, m))"
| "exec1 S A (Locked f k) (s, m) = Some (EvLocked m (f m), k m, s, f m)"
| "exec1 S A (HttpDo q k) (s, m) = Some (EvHttp q (an_http A), k (an_http A), s, m)"
| "exec1 S A (SaveClient c k) (s, m) = (case op_SaveClient S c s of (r, s') \<Rightarrow> Some (EvSaveClient c r, k r, s', m))"
| "exec1 S A (GetClient i k) (s, m) = (case op_GetClient S i s of (r, s') \<Rightarrow> Some (EvGetClient i r, k r, s', m))"
| "exec1 S A (SaveAuthCode c k) (s, m) = (case op_SaveAuthCode S c s of (r, s') \<Rightarrow> Some (EvSaveAuthCode c r, k r, s', m))"
| "exec1 S A (ConsumeAuthCode h k) (s, m) = (case op_ConsumeAuthCode S h s of (r, s') \<Rightarrow> Some (EvConsumeAuthCode h r, k r, s', m))"
| "exec1 S A (SavePendingAuth p k) (s, m) = (case op_SavePendingAuth S p s of (r, s') \<Rightarrow> Some (EvSavePendingAuth p r, k r, s', m))"
| "exec1 S A (ConsumePendingAuth h k) (s, m) = (case op_ConsumePendingAuth S h s of (r, s') \<Rightarrow> Some (EvConsumePendingAuth h r, k r, s', m))"
| "exec1 S A (SaveRefreshToken rt k) (s, m) = (case op_SaveRefreshToken S rt s of (r, s') \<Rightarrow> Some (EvSaveRefreshToken rt r, k r, s', m))"
| "exec1 S A (GetRefreshToken h k) (s, m) = (case op_GetRefreshToken S h s of (r, s') \<Rightarrow> Some (EvGetRefreshToken h r, k r, s', m))"
| "exec1 S A (ConsumeRefreshToken h t k) (s, m) = (case op_ConsumeRefreshToken S h t s of (r, s') \<Rightarrow> Some (EvConsumeRefreshToken h t r, k r, s', m))"
| "exec1 S A (RevokeRefreshTokenFamily f k) (s, m) = (case op_RevokeRefreshTokenFamily S f s of (r, s') \<Rightarrow> Some (EvRevokeRefreshTokenFamily f r, k r, s', m))"
| "exec1 S A (PurgeExpired t k) (s, m) = (case op_PurgeExpired S t s of (r, s') \<Rightarrow> Some (EvPurgeExpired t r, k r, s', m))"
| "exec1 S A (FindUserIDByEmail e k) (s, m) = (case op_FindUserIDByEmail S e s of (r, s') \<Rightarrow> Some (EvFindUserIDByEmail e r, k r, s', m))"

end
