(* ===== verification/Http.thy ===== *)
theory Http
  imports Prog
begin

text \<open>
  Reading a request, and the shared response helpers of \<open>mcpoauth.go\<close>: JSON and OAuth
  error responses, CORS, redirects.
\<close>

section \<open>Reading a request\<close>

text \<open>\<open>url.Values.Get\<close>: the first value of a key, or the empty string.\<close>

definition values_get :: "(string \<times> string) list \<Rightarrow> string \<Rightarrow> string" where
  "values_get kvs k = (case map_of kvs k of None \<Rightarrow> [] | Some v \<Rightarrow> v)"

text \<open>
  \<open>ParseForm\<close> under a limit on the body it may read, and \<open>PostFormValue\<close>. Go reads the body of a
  form content type only: \<open>rq_body_len\<close> is the number of bytes there are for \<open>ParseForm\<close> to read, which
  is none for any other content type.
\<close>

definition ParseForm :: "nat \<Rightarrow> request \<Rightarrow> unit res" where
  "ParseForm limit r =
     (if limit < rq_body_len r then Inl ''http: request body too large''
      else case rq_form r of Inl e \<Rightarrow> Inl e | Inr _ \<Rightarrow> Inr ())"

definition PostFormValue :: "request \<Rightarrow> string \<Rightarrow> string" where
  "PostFormValue r k = (case rq_form r of Inl _ \<Rightarrow> [] | Inr kvs \<Rightarrow> values_get kvs k)"

definition default_form_limit :: nat where
  "default_form_limit = 10485760"

section \<open>Responses\<close>

definition writeJSON :: "writer \<Rightarrow> nat \<Rightarrow> body \<Rightarrow> response" where
  "writeJSON w status b =
     finish (header_set ''Cache-Control'' ''no-store''
              (header_set ''Content-Type'' ''application/json'' w)) status b"

definition writeOAuthError :: "writer \<Rightarrow> nat \<Rightarrow> string \<Rightarrow> string \<Rightarrow> response" where
  "writeOAuthError w status code desc = writeJSON w status (ErrorBody code desc)"

definition allowCORS :: "writer \<Rightarrow> request \<Rightarrow> string \<Rightarrow> writer \<times> response option" where
  "allowCORS w r methods =
     (let w' = header_set ''Access-Control-Max-Age'' ''3600''
                 (header_set ''Access-Control-Allow-Headers'' ''Content-Type, Authorization, MCP-Protocol-Version''
                   (header_set ''Access-Control-Allow-Methods'' (methods @ '', OPTIONS'')
                     (header_set ''Access-Control-Allow-Origin'' ''*'' w)))
      in if rq_Method r = ''OPTIONS'' then (w', Some (finish w' 204 NoBody)) else (w', None))"

text \<open>
  \<open>http.Redirect\<close> with status 302, for an absolute URL (a relative one would be completed
  with the path of the request).
\<close>

definition hexEscapeNonASCII :: "string \<Rightarrow> string" where
  "hexEscapeNonASCII s = concat (map (\<lambda>c. if ord c < 128 then [c]
     else [CHR ''%'', hex_digit (ord c div 16), hex_digit (ord c mod 16)]) s)"

definition redirect :: "writer \<Rightarrow> request \<Rightarrow> string \<Rightarrow> response" where
  "redirect w r url =
     (let hadCT = (map_of (wr_headers w) ''Content-Type'' \<noteq> None);
          w1 = header_set ''Location'' (hexEscapeNonASCII url) w;
          w2 = (if \<not> hadCT \<and> (rq_Method r = ''GET'' \<or> rq_Method r = ''HEAD'')
                then header_set ''Content-Type'' ''text/html; charset=utf-8'' w1 else w1)
      in finish w2 302 (if \<not> hadCT \<and> rq_Method r = ''GET'' then RedirectPage url else NoBody))"

lemma rs_writeJSON [simp]:
  "rs_status (writeJSON w st b) = st" "rs_body (writeJSON w st b) = b"
  "rs_cookies (writeJSON w st b) = wr_cookies w"
  by (simp_all add: writeJSON_def finish_def header_set_def)

lemma rs_writeOAuthError [simp]:
  "rs_status (writeOAuthError w st c d) = st" "rs_body (writeOAuthError w st c d) = ErrorBody c d"
  "rs_cookies (writeOAuthError w st c d) = wr_cookies w"
  by (simp_all add: writeOAuthError_def)

lemma wr_cookies_header_set [simp]: "wr_cookies (header_set k v w) = wr_cookies w"
  by (simp add: header_set_def)

definition Location :: "response \<Rightarrow> string option" where
  "Location resp = map_of (rs_headers resp) ''Location''"

lemma rs_redirect [simp]:
  "rs_status (redirect w r u) = 302" "rs_body (redirect w r u) \<noteq> TokenBody tr"
  "rs_cookies (redirect w r u) = wr_cookies w"
  "Location (redirect w r u) = Some (hexEscapeNonASCII u)"
  by (simp_all add: redirect_def finish_def Let_def Location_def header_set_def update_conv')

text \<open>Every JSON response forbids caching.\<close>

lemma writeJSON_no_store: "map_of (rs_headers (writeJSON w st b)) ''Cache-Control'' = Some ''no-store''"
  by (simp add: writeJSON_def finish_def header_set_def update_conv')

lemma allowCORS_preflight: "rq_Method r = ''OPTIONS'' \<Longrightarrow> \<exists>resp. snd (allowCORS w r m) = Some resp \<and> rs_status resp = 204"
  by (simp add: allowCORS_def Let_def finish_def)

lemma allowCORS_other: "rq_Method r \<noteq> ''OPTIONS'' \<Longrightarrow> snd (allowCORS w r m) = None"
  by (simp add: allowCORS_def Let_def)

end
