(* ===== verification/Secrets.thy ===== *)
theory Secrets
  imports Http
begin

text \<open>
  The secrets of \<open>token.go\<close>: random tokens and their hashes, the derived signing key, the
  derived family of a refresh token without one, and PKCE.
\<close>

section \<open>Random tokens and hashes\<close>

definition randomToken :: "nat \<Rightarrow> (string res \<Rightarrow> 'a prog) \<Rightarrow> 'a prog" where
  [handler_defs]: "randomToken n k = RandRead n (\<lambda>r. case r of
       None \<Rightarrow> k (Inl ''generating random token'')
     | Some b \<Rightarrow> k (Inr (b64url_encode b)))"

definition HashSecret :: "string \<Rightarrow> string" where
  "HashSecret s = hex_encode (sha256 (bytes s))"

lemma length_HashSecret [simp]: "length (HashSecret s) = 64"
  by (simp add: HashSecret_def)

lemma HashSecret_nonempty [simp]: "HashSecret s \<noteq> []"
  using length_HashSecret [of s] by force

text \<open>
  \<open>ConstantTimeCompare(x, y) == 1\<close>: the slices are equal.
\<close>

definition ConstantTimeCompare :: "string \<Rightarrow> string \<Rightarrow> bool" where
  "ConstantTimeCompare x y \<longleftrightarrow> x = y"

section \<open>The signing key\<close>

definition accessTokenKeyInfo :: string where
  "accessTokenKeyInfo = ''mcpoauth/v1/access-token''"

function hkdf_loop :: "byte list \<Rightarrow> byte list \<Rightarrow> nat \<Rightarrow> byte \<Rightarrow> byte list \<Rightarrow> byte list \<Rightarrow> byte list" where
  "hkdf_loop prk info n i t out =
     (if length out < n
      then (let t' = hmac_sha256 prk (t @ info @ [i]) in hkdf_loop prk info n (i + 1) t' (out @ t'))
      else out)"
  by pat_completeness auto
termination
  by (relation "measure (\<lambda>(prk, info, n, i, t, out). n - length out)") auto

declare hkdf_loop.simps [simp del]

definition hkdfExpand :: "byte list \<Rightarrow> byte list \<Rightarrow> nat \<Rightarrow> byte list" where
  "hkdfExpand prk info n = take n (hkdf_loop prk info n 1 [] [])"

definition deriveSigningKey :: "byte list \<Rightarrow> byte list" where
  "deriveSigningKey secret = hkdfExpand secret (bytes accessTokenKeyInfo) 32"

lemma length_hkdf_loop: "n \<le> length (hkdf_loop prk info n i t out)"
proof (induction prk info n i t out rule: hkdf_loop.induct)
  case (1 prk info n i t out)
  show ?case
  proof (cases "length out < n")
    case True
    with 1 show ?thesis by (subst hkdf_loop.simps) (simp add: Let_def)
  next
    case False
    then show ?thesis by (subst hkdf_loop.simps) simp
  qed
qed

lemma length_hkdfExpand [simp]: "length (hkdfExpand prk info n) = n"
  using length_hkdf_loop [of n prk info 1 "[]" "[]"] by (simp add: hkdfExpand_def)

text \<open>The 32-byte key is one HMAC block: HKDF-Expand's first output.\<close>

lemma deriveSigningKey_eq:
  "deriveSigningKey secret = hmac_sha256 secret (bytes accessTokenKeyInfo @ [1])"
  by (simp add: deriveSigningKey_def hkdfExpand_def hkdf_loop.simps)

section \<open>Families\<close>

definition legacyFamilyKeyInfo :: string where
  "legacyFamilyKeyInfo = ''mcpoauth/v1/legacy-family|''"

definition legacyFamilyID :: "string \<Rightarrow> string" where
  "legacyFamilyID tokenHash = ''legacy-'' @ take 32 (HashSecret (legacyFamilyKeyInfo @ tokenHash))"

definition familyToRevoke :: "refresh_token \<Rightarrow> string \<Rightarrow> string" where
  "familyToRevoke rt tokenHash =
     (if rt_FamilyID rt \<noteq> [] then rt_FamilyID rt
      else if tokenHash = [] then []
      else legacyFamilyID tokenHash)"

lemma legacyFamilyID_nonempty [simp]: "legacyFamilyID h \<noteq> []"
  by (simp add: legacyFamilyID_def)

lemma familyToRevoke_nonempty [simp]: "familyToRevoke rt (HashSecret s) \<noteq> []"
  by (simp add: familyToRevoke_def)

section \<open>PKCE\<close>

definition verifyPKCE :: "string \<Rightarrow> string \<Rightarrow> bool" where
  "verifyPKCE verifier challenge =
     (if verifier = [] \<or> challenge = [] then False
      else (let computed = b64url_encode (sha256 (bytes verifier))
            in ConstantTimeCompare computed challenge))"

definition minCodeChallengeLen :: nat where "minCodeChallengeLen = 43"
definition maxCodeChallengeLen :: nat where "maxCodeChallengeLen = 128"

fun challenge_chars :: "string \<Rightarrow> unit res" where
  "challenge_chars [] = Inr ()"
| "challenge_chars (c # cs) =
     (if is_alpha c \<or> is_digit c then challenge_chars cs
      else if c = CHR ''-'' \<or> c = CHR ''.'' \<or> c = CHR ''_'' \<or> c = CHR ''~'' then challenge_chars cs
      else Inl ''code_challenge contains an illegal character'')"

definition validateCodeChallenge :: "string \<Rightarrow> unit res" where
  "validateCodeChallenge challenge =
     (if length challenge < minCodeChallengeLen \<or> length challenge > maxCodeChallengeLen
      then Inl ''code_challenge must be 43-128 characters''
      else challenge_chars challenge)"

lemma challenge_chars_ok:
  "is_ok (challenge_chars cs) \<longleftrightarrow> list_all (\<lambda>c. b64url_alphabet c \<or> c = CHR ''.'' \<or> c = CHR ''~'') cs"
  by (induction cs) (auto simp: b64url_alphabet_def)

lemma validateCodeChallenge_ok:
  "is_ok (validateCodeChallenge c) \<longleftrightarrow> 43 \<le> length c \<and> length c \<le> 128 \<and>
     list_all (\<lambda>c. b64url_alphabet c \<or> c = CHR ''.'' \<or> c = CHR ''~'') c"
  by (auto simp: validateCodeChallenge_def challenge_chars_ok minCodeChallengeLen_def maxCodeChallengeLen_def)

end
