(* ===== verification/Access_Token.thy ===== *)
theory Access_Token
  imports Secrets
begin

text \<open>
  Access tokens (\<open>issueAccessToken\<close>, \<open>ValidateAccessToken\<close> of \<open>token.go\<close>) and the
  middleware that protects the MCP endpoint (\<open>handlers.go\<close>). The JWT library is a parameter;
  \<open>jwt_library\<close> states what its documentation promises of a parsed token.
\<close>

section \<open>Issuing and validating\<close>

definition access_claims_for :: "provider \<Rightarrow> string \<Rightarrow> time \<Rightarrow> access_claims" where
  "access_claims_for p userID now = \<lparr>
     at_Scope = GrantedScope, at_TokenUse = TokenUseMCPAccess, at_Issuer = Issuer (cfg p),
     at_Subject = userID, at_Audience = [ResourceURL (cfg p)],
     at_IssuedAt = now, at_NotBefore = now, at_ExpiresAt = now + AccessTokenTTL (cfg p)\<rparr>"

definition issueAccessToken :: "lib \<Rightarrow> provider \<Rightarrow> string \<Rightarrow> time \<Rightarrow> string res" where
  "issueAccessToken L p userID now =
     (let claims = access_claims_for p userID now
      in case jwt_sign L claims (signKey p) of
           Inl e \<Rightarrow> Inl (''signing access token: '' @ e)
         | Inr tok \<Rightarrow> Inr tok)"

definition ErrInvalidToken :: string where
  "ErrInvalidToken = ''mcpoauth: invalid access token''"

definition ErrWrongTokenUse :: string where
  "ErrWrongTokenUse = ''mcpoauth: token is not an MCP access token''"

definition access_parse_options :: "provider \<Rightarrow> parse_options" where
  "access_parse_options p = \<lparr>
     po_ValidMethods = [''HS256''], po_Issuer = Some (Issuer (cfg p)),
     po_Audience = ResourceURL (cfg p), po_ExpirationRequired = True\<rparr>"

definition access_keyfunc :: "provider \<Rightarrow> bool \<Rightarrow> byte list res" where
  "access_keyfunc p is_hmac = (if \<not> is_hmac then Inl ''unexpected signing method'' else Inr (signKey p))"

definition check_access_token :: "lib \<Rightarrow> provider \<Rightarrow> string \<Rightarrow> time \<Rightarrow> string res" where
  "check_access_token L p tokenString now =
     (case jwt_parse_access L tokenString (access_parse_options p) now (access_keyfunc p) of
        Inl err \<Rightarrow> Inl (ErrInvalidToken @ '': '' @ err)
      | Inr claims \<Rightarrow>
          if at_TokenUse claims \<noteq> TokenUseMCPAccess then Inl ErrWrongTokenUse
          else if at_Subject claims = [] then Inl (ErrInvalidToken @ '': empty subject'')
          else Inr (at_Subject claims))"

text \<open>The parser reads the wall clock itself (\<open>WithTimeFunc\<close> is not given here).\<close>

definition ValidateAccessToken :: "lib \<Rightarrow> provider \<Rightarrow> string \<Rightarrow> (string res \<Rightarrow> 'a prog) \<Rightarrow> 'a prog" where
  [handler_defs]: "ValidateAccessToken L p tokenString k =
     Now (\<lambda>now. k (check_access_token L p tokenString now))"

section \<open>The middleware\<close>

definition bearer_prefix :: string where "bearer_prefix = ''bearer ''"

definition BearerToken :: "request \<Rightarrow> string option" where
  "BearerToken r =
     (let h = rq_authorization r
      in if h = [] then None
         else if length h \<le> length bearer_prefix
              \<or> \<not> EqualFold (take (length bearer_prefix) h) bearer_prefix then None
         else (let token = TrimSpace (drop (length bearer_prefix) h)
               in if token = [] then None else Some token))"

text \<open>
  What a client has to send: the scheme in any case and a space, then a token that is not blank.
\<close>

definition bearer_token :: "request \<Rightarrow> string \<Rightarrow> bool" where
  "bearer_token r tok \<longleftrightarrow> (\<exists>scheme rest. rq_authorization r = scheme @ rest \<and>
     ascii_lower scheme = ''bearer '' \<and> tok = TrimSpace rest \<and> tok \<noteq> [])"

lemma bearer_token_iff: "bearer_token r tok \<longleftrightarrow> BearerToken r = Some tok"
proof -
  have prefix: "length bearer_prefix = 7" "EqualFold h bearer_prefix \<longleftrightarrow> ascii_lower h = ''bearer ''" for h
    by (simp_all add: bearer_prefix_def EqualFold_ascii)
  show ?thesis
  proof
    assume "bearer_token r tok"
    then obtain scheme rest where h: "rq_authorization r = scheme @ rest" "ascii_lower scheme = ''bearer ''"
      "tok = TrimSpace rest" "tok \<noteq> []" unfolding bearer_token_def by blast
    from h(2) have "length scheme = 7" by (auto simp: ascii_lower_def dest: arg_cong [of _ _ length])
    moreover have "rest \<noteq> []" using h(3,4) by auto
    ultimately show "BearerToken r = Some tok"
      using h by (auto simp: BearerToken_def Let_def prefix)
  next
    assume "BearerToken r = Some tok"
    then have "ascii_lower (take 7 (rq_authorization r)) = ''bearer ''" "tok = TrimSpace (drop 7 (rq_authorization r))"
      "tok \<noteq> []"
      by (auto simp: BearerToken_def Let_def prefix split: if_splits)
    then show "bearer_token r tok"
      unfolding bearer_token_def by (metis append_take_drop_id)
  qed
qed

definition ProtectedResourceMetadataURL :: "provider \<Rightarrow> string" where
  "ProtectedResourceMetadataURL p =
     TrimRight (MetadataBaseURL (cfg p)) CHR ''/'' @ ProtectedResourceMetadataPath"

definition Unauthorized :: "lib \<Rightarrow> provider \<Rightarrow> writer \<Rightarrow> response" where
  "Unauthorized L p w =
     writeJSON (header_set ''WWW-Authenticate''
                  (''Bearer resource_metadata='' @ Quote (unicode_quote L) (ProtectedResourceMetadataURL p)) w)
       401 (MetadataBody [(''error'', MStr ''unauthorized'')])"

text \<open>
  A request context: what \<open>context.WithValue\<close> added, the last first. A key is equal to
  another only if both are of the same Go type, and a value need not be a string.
\<close>

datatype context_key = ContextKey string | ForeignKey nat

datatype context_value = StringValue string | ForeignValue nat

type_synonym request_context = "(context_key \<times> context_value) list"

definition WithValue :: "request_context \<Rightarrow> context_key \<Rightarrow> context_value \<Rightarrow> request_context" where
  "WithValue ctx k v = (k, v) # ctx"

definition UserIDContextKey :: context_key where
  "UserIDContextKey = ContextKey ''mcpoauth.user_id''"

definition UserIDFromContext :: "request_context \<Rightarrow> string option" where
  "UserIDFromContext ctx =
     (case map_of ctx UserIDContextKey of
        Some (StringValue v) \<Rightarrow> if v = [] then None else Some v
      | _ \<Rightarrow> None)"

text \<open>\<open>next_handler\<close> is the wrapped handler; it is served the request with its context.\<close>

definition Middleware ::
  "lib \<Rightarrow> provider \<Rightarrow> (request_context \<Rightarrow> request \<Rightarrow> response prog) \<Rightarrow> request_context \<Rightarrow> request \<Rightarrow> response prog" where
  "Middleware L p next_handler ctx r =
     (case BearerToken r of
        None \<Rightarrow> Ret (Unauthorized L p new_writer)
      | Some token \<Rightarrow>
          ValidateAccessToken L p token (\<lambda>v. case v of
             Inl err \<Rightarrow> Ret (Unauthorized L p new_writer)
           | Inr userID \<Rightarrow> next_handler (WithValue ctx UserIDContextKey (StringValue userID)) r))"

text \<open>The wrapped handler reads the user back, and every other value as it was.\<close>

lemma UserIDFromContext_WithValue [simp]:
  "u \<noteq> [] \<Longrightarrow> UserIDFromContext (WithValue ctx UserIDContextKey (StringValue u)) = Some u"
  by (simp add: UserIDFromContext_def WithValue_def)

lemma map_of_WithValue [simp]: "map_of (WithValue ctx k v) = (map_of ctx)(k \<mapsto> v)"
  by (simp add: WithValue_def)

section \<open>What the JWT library promises\<close>

text \<open>
  \<open>ParseWithClaims\<close> succeeds only if the key function gave a key for a method that is
  allowed, the issuer and audience match, and the token is within its lifetime; a token it
  signed itself parses back to its claims, whose instants are whole seconds, during that
  lifetime. An empty issuer or audience is not checked (\<open>New\<close> refuses both).
\<close>

definition jwt_claims :: "access_claims \<Rightarrow> access_claims" where
  "jwt_claims c = c\<lparr>at_IssuedAt := trunc_second (at_IssuedAt c),
     at_NotBefore := trunc_second (at_NotBefore c), at_ExpiresAt := trunc_second (at_ExpiresAt c)\<rparr>"

definition jwt_library :: "lib \<Rightarrow> bool" where
  "jwt_library L \<longleftrightarrow>
     (\<forall>tok opts t kf c. jwt_parse_access L tok opts t kf = Inr c \<longrightarrow>
        (\<exists>hm key. kf hm = Inr key) \<and> (\<forall>i. po_Issuer opts = Some i \<longrightarrow> i \<noteq> [] \<longrightarrow> at_Issuer c = i)
        \<and> (po_Audience opts \<noteq> [] \<longrightarrow> po_Audience opts \<in> set (at_Audience c)) \<and> (po_ExpirationRequired opts \<longrightarrow> t < at_ExpiresAt c)
        \<and> at_NotBefore c \<le> t) \<and>
     (\<forall>c key tok opts t kf. jwt_sign L c key = Inr tok \<longrightarrow> kf True = Inr key \<longrightarrow>
        po_ValidMethods opts = [''HS256''] \<longrightarrow> po_Issuer opts = Some (at_Issuer c) \<longrightarrow>
        po_Audience opts \<in> set (at_Audience c) \<longrightarrow>
        trunc_second (at_NotBefore c) \<le> t \<longrightarrow> t < trunc_second (at_ExpiresAt c) \<longrightarrow>
        jwt_parse_access L tok opts t kf = Inr (jwt_claims c))"

lemma jwt_parse_checks:
  assumes "jwt_library L" and "jwt_parse_access L tok opts t kf = Inr c"
  shows "\<exists>hm key. kf hm = Inr key" and "po_Issuer opts = Some i \<Longrightarrow> i \<noteq> [] \<Longrightarrow> at_Issuer c = i"
    and "po_Audience opts \<noteq> [] \<Longrightarrow> po_Audience opts \<in> set (at_Audience c)" and "po_ExpirationRequired opts \<Longrightarrow> t < at_ExpiresAt c"
    and "at_NotBefore c \<le> t"
  using assms unfolding jwt_library_def by blast+

lemma jwt_parse_signed:
  assumes "jwt_library L" and "jwt_sign L c key = Inr tok" and "kf True = Inr key"
    and "po_ValidMethods opts = [''HS256'']" and "po_Issuer opts = Some (at_Issuer c)"
    and "po_Audience opts \<in> set (at_Audience c)"
    and "trunc_second (at_NotBefore c) \<le> t" and "t < trunc_second (at_ExpiresAt c)"
  shows "jwt_parse_access L tok opts t kf = Inr (jwt_claims c)"
  using assms unfolding jwt_library_def by blast

lemma issued_validates:
  assumes "jwt_library L" and "issueAccessToken L p u now = Inr tok" and "u \<noteq> []"
    and "now \<le> t" and "t < trunc_second (now + AccessTokenTTL (cfg p))"
  shows "check_access_token L p tok t = Inr u"
proof -
  let ?c = "access_claims_for p u now"
  from assms(2) have sign: "jwt_sign L ?c (signKey p) = Inr tok"
    by (simp add: issueAccessToken_def split: sum.splits)
  have "jwt_parse_access L tok (access_parse_options p) t (access_keyfunc p) = Inr (jwt_claims ?c)"
    using assms(4,5) order_trans [OF trunc_second_le assms(4)]
    by (intro jwt_parse_signed [OF assms(1) sign])
       (simp_all add: access_keyfunc_def access_parse_options_def access_claims_for_def)
  then show ?thesis
    using assms(3) by (simp add: check_access_token_def access_claims_for_def jwt_claims_def)
qed

lemma validated_bound:
  assumes "jwt_library L" and "Issuer (cfg p) \<noteq> []" and "ResourceURL (cfg p) \<noteq> []"
    and "check_access_token L p tok t = Inr u"
  shows "\<exists>c. jwt_parse_access L tok (access_parse_options p) t (access_keyfunc p) = Inr c \<and> u = at_Subject c
    \<and> u \<noteq> [] \<and> at_TokenUse c = TokenUseMCPAccess \<and> at_Issuer c = Issuer (cfg p)
    \<and> ResourceURL (cfg p) \<in> set (at_Audience c) \<and> at_NotBefore c \<le> t \<and> t < at_ExpiresAt c"
  using assms(2-4) jwt_parse_checks [OF assms(1), of tok "access_parse_options p" t "access_keyfunc p"]
  by (auto simp: check_access_token_def access_parse_options_def split: sum.splits if_splits)

end
