(* ===== verification/Grace.thy ===== *)
theory Grace
  imports Secrets
begin

text \<open>
  The grace cache (\<open>grace.go\<close>): predecessor hash to successor, in process memory, bounded
  and expiring. The operations are functions on the cache; the \<open>Locked\<close> wrappers run them
  under \<open>p.graceMu\<close>.
\<close>

section \<open>Operations\<close>

definition maxGraceEntries :: nat where "maxGraceEntries = 1024"

definition sweepGraceLocked :: "time \<Rightarrow> (string \<times> grace_entry) list \<Rightarrow> (string \<times> grace_entry) list" where
  "sweepGraceLocked now g = filter (\<lambda>(h, e). \<not> now > ge_expiresAt e) g"

lemma delete_shrinks: "k \<in> fst ` set xs \<Longrightarrow> length (AList.delete k xs) < length xs"
proof (induction xs)
  case (Cons x xs)
  have "length (AList.delete k xs) \<le> length xs" by (rule length_delete_le)
  with Cons show ?case by (cases x) auto
qed simp

text \<open>The loop that drops the entry a range over the map visits first, while the map is full.\<close>

function evict :: "(string list \<Rightarrow> nat) \<Rightarrow> (string \<times> grace_entry) list \<Rightarrow> (string \<times> grace_entry) list" where
  "evict pick g =
     (if maxGraceEntries \<le> length g
      then evict pick (AList.delete (map fst g ! (pick (map fst g) mod length g)) g)
      else g)"
  by pat_completeness auto
termination
proof (relation "measure (\<lambda>(pick, g). length g)", simp)
  fix pick :: "string list \<Rightarrow> nat" and g :: "(string \<times> grace_entry) list"
  assume "maxGraceEntries \<le> length g"
  then have "0 < length g" unfolding maxGraceEntries_def by linarith
  then have "pick (map fst g) mod length g < length (map fst g)" by simp
  then have "map fst g ! (pick (map fst g) mod length g) \<in> set (map fst g)" by (rule nth_mem)
  then show "((pick, AList.delete (map fst g ! (pick (map fst g) mod length g)) g), (pick, g))
      \<in> measure (\<lambda>(pick, g). length g)"
    using delete_shrinks by simp
qed

declare evict.simps [simp del]

definition grace_remember ::
  "lib \<Rightarrow> provider \<Rightarrow> string \<Rightarrow> string \<Rightarrow> time \<Rightarrow> (string \<times> grace_entry) list \<Rightarrow> (string \<times> grace_entry) list" where
  "grace_remember L p predecessorHash successor now g =
     (if RefreshGracePeriod (cfg p) \<le> 0 \<or> predecessorHash = [] then g
      else (let g1 = (if maxGraceEntries \<le> length g then sweepGraceLocked now g else g);
                g2 = evict (map_pick L) g1
            in AList.update predecessorHash
                 \<lparr>successorRaw = successor, ge_expiresAt = now + RefreshGracePeriod (cfg p)\<rparr> g2))"

definition grace_recall ::
  "string \<Rightarrow> time \<Rightarrow> (string \<times> grace_entry) list \<Rightarrow> string option \<times> (string \<times> grace_entry) list" where
  "grace_recall predecessorHash now g =
     (case map_of g predecessorHash of
        None \<Rightarrow> (None, g)
      | Some e \<Rightarrow>
          if now > ge_expiresAt e then (None, AList.delete predecessorHash g)
          else (Some (successorRaw e), g))"

definition rememberSuccessor ::
  "lib \<Rightarrow> provider \<Rightarrow> string \<Rightarrow> string \<Rightarrow> time \<Rightarrow> 'a prog \<Rightarrow> 'a prog" where
  [handler_defs]: "rememberSuccessor L p predecessorHash successor now k =
     Locked (\<lambda>m. m\<lparr>grace := grace_remember L p predecessorHash successor now (grace m)\<rparr>) (\<lambda>_. k)"

definition recallSuccessor :: "string \<Rightarrow> time \<Rightarrow> (string option \<Rightarrow> 'a prog) \<Rightarrow> 'a prog" where
  [handler_defs]: "recallSuccessor predecessorHash now k =
     Locked (\<lambda>m. m\<lparr>grace := snd (grace_recall predecessorHash now (grace m))\<rparr>)
       (\<lambda>m. k (fst (grace_recall predecessorHash now (grace m))))"

section \<open>The cache stays well-formed and bounded\<close>

definition grace_ok :: "(string \<times> grace_entry) list \<Rightarrow> bool" where
  "grace_ok g \<longleftrightarrow> distinct (map fst g) \<and> length g \<le> maxGraceEntries"

lemma grace_ok_empty: "grace_ok []"
  by (simp add: grace_ok_def)

lemma length_evict: "length (evict pick g) < maxGraceEntries"
proof (induction pick g rule: evict.induct)
  case (1 pick g)
  show ?case
  proof (cases "maxGraceEntries \<le> length g")
    case True
    with 1 show ?thesis by (subst evict.simps) simp
  next
    case False
    then show ?thesis by (subst evict.simps) simp
  qed
qed

lemma distinct_evict: "distinct (map fst g) \<Longrightarrow> distinct (map fst (evict pick g))"
proof (induction pick g rule: evict.induct)
  case (1 pick g)
  then show ?case by (subst evict.simps) (simp add: distinct_delete)
qed

lemma evict_subset: "map_of (evict pick g) k = Some e \<Longrightarrow> map_of g k = Some e"
proof (induction pick g rule: evict.induct)
  case (1 pick g)
  then show ?case
    by (subst (asm) (2) evict.simps) (auto simp: delete_conv' split: if_splits)
qed

lemma evict_small: "length g < maxGraceEntries \<Longrightarrow> evict pick g = g"
  by (subst evict.simps) simp

lemma grace_ok_sweep: "grace_ok g \<Longrightarrow> grace_ok (sweepGraceLocked now g)"
  by (auto simp: grace_ok_def sweepGraceLocked_def distinct_filter_keys
      intro: order_trans [OF length_filter_le])

lemma grace_ok_remember:
  assumes "grace_ok g"
  shows "grace_ok (grace_remember L p h s now g)"
proof -
  let ?g1 = "if maxGraceEntries \<le> length g then sweepGraceLocked now g else g"
  have "distinct (map fst (evict (map_pick L) ?g1))"
    using assms grace_ok_sweep [OF assms] by (auto simp: grace_ok_def intro: distinct_evict)
  moreover have "length (AList.update h e (evict (map_pick L) ?g1)) \<le> maxGraceEntries" for e
    using length_evict [of "map_pick L" ?g1] length_update_le [of h e "evict (map_pick L) ?g1"] by linarith
  ultimately show ?thesis
    using assms by (simp add: grace_ok_def grace_remember_def Let_def distinct_update)
qed

lemma grace_ok_recall: "grace_ok g \<Longrightarrow> grace_ok (snd (grace_recall h now g))"
  by (auto simp: grace_ok_def grace_recall_def distinct_delete
      intro: order_trans [OF length_delete_le] split: option.splits)

section \<open>What a lookup returns\<close>

lemma recall_after_remember:
  assumes "0 < RefreshGracePeriod (cfg p)" and "h \<noteq> []"
  shows "fst (grace_recall h t (grace_remember L p h s now g)) =
    (if t > now + RefreshGracePeriod (cfg p) then None else Some s)"
  using assms by (simp add: grace_recall_def grace_remember_def Let_def update_conv')

lemma recall_other_after_remember:
  assumes "grace_ok g" and "h' \<noteq> h" and "fst (grace_recall h' t (grace_remember L p h s now g)) = Some x"
  shows "fst (grace_recall h' t g) = Some x"
proof -
  let ?g1 = "if maxGraceEntries \<le> length g then sweepGraceLocked now g else g"
  show ?thesis
  proof (cases "RefreshGracePeriod (cfg p) \<le> 0 \<or> h = []")
    case True
    with assms(3) show ?thesis by (simp add: grace_remember_def)
  next
    case False
    with assms(2,3) obtain e where e: "map_of (evict (map_pick L) ?g1) h' = Some e"
      and x: "\<not> t > ge_expiresAt e" "x = successorRaw e"
      by (auto simp: grace_recall_def grace_remember_def Let_def update_conv' split: option.splits if_splits)
    from evict_subset [OF e] have "map_of ?g1 h' = Some e" .
    then have "map_of g h' = Some e"
      using assms(1) by (auto simp: sweepGraceLocked_def grace_ok_def map_of_filter_distinct
          split: if_splits option.splits)
    then show ?thesis using x by (simp add: grace_recall_def)
  qed
qed

lemma remember_adds:
  assumes "grace_ok g" and "map_of (grace_remember L p h s now g) k = Some e"
  shows "map_of g k = Some e \<or> (k = h \<and> successorRaw e = s)"
proof -
  let ?g1 = "if maxGraceEntries \<le> length g then sweepGraceLocked now g else g"
  have "map_of g k = Some e" if "map_of (evict (map_pick L) ?g1) k = Some e"
    using evict_subset [OF that] assms(1)
    by (auto simp: sweepGraceLocked_def grace_ok_def map_of_filter_distinct split: if_splits option.splits)
  then show ?thesis
    using assms(2) by (auto simp: grace_remember_def Let_def update_conv' split: if_splits)
qed

lemma recall_adds: "map_of (snd (grace_recall h now g)) k = Some e \<Longrightarrow> map_of g k = Some e"
  by (auto simp: grace_recall_def delete_conv' split: option.splits if_splits)

lemma recall_Some: "fst (grace_recall h now g) = Some s \<longleftrightarrow>
    (\<exists>e. map_of g h = Some e \<and> \<not> now > ge_expiresAt e \<and> s = successorRaw e)"
  by (auto simp: grace_recall_def split: option.splits)

text \<open>Nothing is remembered when the window is disabled.\<close>

lemma remember_disabled: "RefreshGracePeriod (cfg p) \<le> 0 \<Longrightarrow> grace_remember L p h s now g = g"
  by (simp add: grace_remember_def)

end
