(* ===== verification/Wp.thy ===== *)
theory Wp
  imports Prog
begin

text \<open>
  What a handler run alone guarantees against any store that keeps the contract.
  \<open>awp rel n E P w Q\<close> executes \<open>P\<close> on the abstract store of \<open>w\<close>, for every result the
  contract allows each method, and asks for \<open>Q\<close> at the end. With \<open>rel\<close> the methods
  succeed as those of a \<open>reliable_store\<close> do; without it any of them may fail. The
  soundness lemmas carry \<open>Q\<close> over to \<open>run\<close> on an implementation.
\<close>

definition aworld :: "('s \<Rightarrow> astore) \<Rightarrow> 's world \<Rightarrow> astore world" where
  "aworld absf w = \<lparr>w_store = absf (w_store w), w_mem = w_mem w, w_rand = w_rand w, w_tick = w_tick w\<rparr>"

lemma aworld_simps [simp]:
  "w_store (aworld absf w) = absf (w_store w)" "w_mem (aworld absf w) = w_mem w"
  "w_rand (aworld absf w) = w_rand w" "w_tick (aworld absf w) = w_tick w"
  "aworld absf (w\<lparr>w_tick := n\<rparr>) = (aworld absf w)\<lparr>w_tick := n\<rparr>"
  "aworld absf (w\<lparr>w_rand := bs\<rparr>) = (aworld absf w)\<lparr>w_rand := bs\<rparr>"
  "aworld absf (w\<lparr>w_mem := m\<rparr>) = (aworld absf w)\<lparr>w_mem := m\<rparr>"
  "aworld absf (w\<lparr>w_store := s\<rparr>) = (aworld absf w)\<lparr>w_store := absf s\<rparr>"
  "(aworld absf w)\<lparr>w_store := absf (w_store w)\<rparr> = aworld absf w"
  by (simp_all add: aworld_def)

text \<open>Every clock reading is past \<open>clock_floor\<close>.\<close>

definition sane_clock :: "env \<Rightarrow> bool" where
  "sane_clock E \<longleftrightarrow> (\<forall>n. clock_floor \<le> e_now E n)"

lemma sane_clockD [simp]: "sane_clock E \<Longrightarrow> clock_floor \<le> e_now E n"
  by (simp add: sane_clock_def)

primrec awp ::
  "bool \<Rightarrow> rounding \<Rightarrow> env \<Rightarrow> 'a prog \<Rightarrow> astore world \<Rightarrow> ('a \<Rightarrow> astore world \<Rightarrow> bool) \<Rightarrow> bool" where
  "awp rel n E (Ret x) = (\<lambda>w Q. Q x w)"
| "awp rel n E (Now k) = (\<lambda>w Q. awp rel n E (k (e_now E (w_tick w))) (w\<lparr>w_tick := Suc (w_tick w)\<rparr>) Q)"
| "awp rel n E (RandRead len k) = (\<lambda>w Q.
     awp rel n E (k (fst (rand_read len (w_rand w)))) (w\<lparr>w_rand := snd (rand_read len (w_rand w))\<rparr>) Q)"
| "awp rel n E (Locked f k) = (\<lambda>w Q. awp rel n E (k (w_mem w)) (w\<lparr>w_mem := f (w_mem w)\<rparr>) Q)"
| "awp rel n E (HttpDo q k) = (\<lambda>w Q. awp rel n E (k (e_http E (w_tick w) q)) (w\<lparr>w_tick := Suc (w_tick w)\<rparr>) Q)"
| "awp rel n E (SaveClient c k) = (\<lambda>w Q. \<forall>r a. (rel \<longrightarrow> is_ok r) \<longrightarrow>
     ((\<exists>c'. client_row n c c' \<and> a = put_client c' (w_store w)) \<or> (\<not> is_ok r \<and> a = w_store w)) \<longrightarrow>
     awp rel n E (k r) (w\<lparr>w_store := a\<rparr>) Q)"
| "awp rel n E (GetClient i k) = (\<lambda>w Q. \<forall>r. (rel \<longrightarrow> is_ok r) \<longrightarrow>
     (\<forall>x. r = Inr x \<longrightarrow> x = a_clients (w_store w) i) \<longrightarrow> awp rel n E (k r) w Q)"
| "awp rel n E (SaveAuthCode c k) = (\<lambda>w Q. \<forall>r a. (rel \<and> a_codes (w_store w) (ac_CodeHash c) = None \<longrightarrow> is_ok r) \<longrightarrow>
     (a = put_code (nrm_code n c) (w_store w) \<or> (\<not> is_ok r \<and> a = w_store w)) \<longrightarrow>
     awp rel n E (k r) (w\<lparr>w_store := a\<rparr>) Q)"
| "awp rel n E (ConsumeAuthCode h k) = (\<lambda>w Q. \<forall>r a. (rel \<longrightarrow> is_ok r) \<longrightarrow>
     (a = del_code h (w_store w) \<or> (\<not> is_ok r \<and> a = w_store w)) \<longrightarrow>
     (\<forall>x. r = Inr x \<longrightarrow> x = a_codes (w_store w) h) \<longrightarrow>
     awp rel n E (k r) (w\<lparr>w_store := a\<rparr>) Q)"
| "awp rel n E (SavePendingAuth p k) = (\<lambda>w Q. \<forall>r a. (rel \<and> a_pending (w_store w) (pa_StateHash p) = None \<longrightarrow> is_ok r) \<longrightarrow>
     (a = put_pending (nrm_pending n p) (w_store w) \<or> (\<not> is_ok r \<and> a = w_store w)) \<longrightarrow>
     awp rel n E (k r) (w\<lparr>w_store := a\<rparr>) Q)"
| "awp rel n E (ConsumePendingAuth h k) = (\<lambda>w Q. \<forall>r a. (rel \<longrightarrow> is_ok r) \<longrightarrow>
     (a = del_pending h (w_store w) \<or> (\<not> is_ok r \<and> a = w_store w)) \<longrightarrow>
     (\<forall>x. r = Inr x \<longrightarrow> x = a_pending (w_store w) h) \<longrightarrow>
     awp rel n E (k r) (w\<lparr>w_store := a\<rparr>) Q)"
| "awp rel n E (SaveRefreshToken rt k) = (\<lambda>w Q. \<forall>rt'. refresh_row n rt rt' \<longrightarrow>
     (\<forall>r a. (rel \<and> a_refresh (w_store w) (rt_TokenHash rt) = None \<longrightarrow> is_ok r) \<longrightarrow>
     (a = put_refresh rt' (w_store w) \<or> (\<not> is_ok r \<and> a = w_store w)) \<longrightarrow>
     awp rel n E (k r) (w\<lparr>w_store := a\<rparr>) Q))"
| "awp rel n E (GetRefreshToken h k) = (\<lambda>w Q. \<forall>r. (rel \<longrightarrow> is_ok r) \<longrightarrow>
     (\<forall>x. r = Inr x \<longrightarrow> x = a_refresh (w_store w) h) \<longrightarrow> awp rel n E (k r) w Q)"
| "awp rel n E (ConsumeRefreshToken h t k) = (\<lambda>w Q. clock_floor \<le> t \<and> (\<forall>r a. (rel \<longrightarrow> is_ok r) \<longrightarrow>
     (a = stamp_refresh h (r_refresh n t) (w_store w) \<or> (\<not> is_ok r \<and> a = w_store w)) \<longrightarrow>
     (\<forall>x. r = Inr x \<longrightarrow> x = a_refresh (w_store w) h) \<longrightarrow>
     awp rel n E (k r) (w\<lparr>w_store := a\<rparr>) Q))"
| "awp rel n E (RevokeRefreshTokenFamily f k) = (\<lambda>w Q. \<forall>r a. (rel \<longrightarrow> is_ok r) \<longrightarrow>
     (a = revoke_family f (w_store w) \<or> (\<not> is_ok r \<and> a = w_store w)) \<longrightarrow>
     awp rel n E (k r) (w\<lparr>w_store := a\<rparr>) Q)"
| "awp rel n E (PurgeExpired t k) = (\<lambda>w Q. clock_floor \<le> t \<and> (\<forall>r a. (rel \<longrightarrow> is_ok r) \<longrightarrow>
     (a = purge (r_row n t) (w_store w) \<or> (\<not> is_ok r \<and> purge_partly (r_row n t) (w_store w) a)) \<longrightarrow>
     awp rel n E (k r) (w\<lparr>w_store := a\<rparr>) Q))"
| "awp rel n E (FindUserIDByEmail e k) = (\<lambda>w Q. \<forall>r. (rel \<longrightarrow> is_ok r) \<longrightarrow>
     (\<forall>x. r = Inr x \<longrightarrow> x = a_users (w_store w) e) \<longrightarrow> awp rel n E (k r) w Q)"

text \<open>
  The quantifiers over results, computed: a call that succeeds has one result, a call that
  may fail has one result and any error.
\<close>

lemma all_res_split: "(\<forall>r. P r) \<longleftrightarrow> (\<forall>e. P (Inl e)) \<and> (\<forall>x. P (Inr x))"
  by (metis sum.exhaust)

lemma all_ok_res [simp]: "(\<forall>r. is_ok r \<longrightarrow> P r) \<longleftrightarrow> (\<forall>x. P (Inr x))"
  by (auto simp: all_res_split)

lemma all_failed_res [simp]: "(\<forall>r. \<not> is_ok r \<longrightarrow> P r) \<longleftrightarrow> (\<forall>e. P (Inl e))"
  by (auto simp: all_res_split)

lemma awp_read_ok [simp]:
  "(\<forall>r. is_ok r \<longrightarrow> (\<forall>x. r = Inr x \<longrightarrow> x = v) \<longrightarrow> P r) \<longleftrightarrow> P (Inr v)"
  by (auto simp: all_res_split)

lemma awp_read_any [simp]:
  "(\<forall>r. (\<forall>x. r = Inr x \<longrightarrow> x = v) \<longrightarrow> P r) \<longleftrightarrow> (\<forall>e. P (Inl e)) \<and> P (Inr v)"
  by (auto simp: all_res_split)

lemma awp_take_ok [simp]:
  "(\<forall>r. is_ok r \<longrightarrow> (\<forall>a. (a = A \<or> \<not> is_ok r \<and> a = B) \<longrightarrow> (\<forall>x. r = Inr x \<longrightarrow> x = v) \<longrightarrow> P r a))
     \<longleftrightarrow> P (Inr v) A"
  by (auto simp: all_res_split)

lemma awp_take_any [simp]:
  "(\<forall>r a. (a = A \<or> \<not> is_ok r \<and> a = B) \<longrightarrow> (\<forall>x. r = Inr x \<longrightarrow> x = v) \<longrightarrow> P r a)
     \<longleftrightarrow> (\<forall>e. P (Inl e) A \<and> P (Inl e) B) \<and> P (Inr v) A"
  by (auto simp: all_res_split)

lemma awp_write_ok [simp]:
  "(\<forall>r. is_ok r \<longrightarrow> (\<forall>a. (a = A \<or> \<not> is_ok r \<and> a = B) \<longrightarrow> P r a)) \<longleftrightarrow> P (Inr ()) A"
  by (auto simp: all_res_split)

lemma awp_write_any [simp]:
  "(\<forall>r a. (a = A \<or> \<not> is_ok r \<and> a = B) \<longrightarrow> P r a)
     \<longleftrightarrow> (\<forall>e. P (Inl e) A \<and> P (Inl e) B) \<and> P (Inr ()) A"
  by (auto simp: all_res_split)

lemma awp_mono: "awp rel n E P w Q \<Longrightarrow> (\<And>x w'. Q x w' \<Longrightarrow> Q' x w') \<Longrightarrow> awp rel n E P w Q'"
  by (induction P arbitrary: w) (simp_all, (blast+)?)

context store_contract
begin

definition reliable_if :: "bool \<Rightarrow> bool" where
  "reliable_if rel \<longleftrightarrow> (rel \<longrightarrow> reliable_store S absf inv nrm)"

text \<open>One call: what \<open>awp\<close> asked for holds of the rest of the handler.\<close>

lemma call_SaveClient:
  assumes "reliable_if rel" and "inv (w_store w)" and "op_SaveClient S c (w_store w) = (r, s')"
    and "awp rel nrm E (SaveClient c k) (aworld absf w) Q"
  shows "inv s' \<and> awp rel nrm E (k r) (aworld absf (w\<lparr>w_store := s'\<rparr>)) Q"
  using assms save_client [OF assms(2) assms(3)] reliable_store.ok_save_client [of S absf inv nrm "w_store w" c]
  by (auto simp: reliable_if_def)

lemma call_GetClient:
  assumes "reliable_if rel" and "inv (w_store w)" and "op_GetClient S i (w_store w) = (r, s')"
    and "awp rel nrm E (GetClient i k) (aworld absf w) Q"
  shows "inv s' \<and> awp rel nrm E (k r) (aworld absf (w\<lparr>w_store := s'\<rparr>)) Q"
  using assms get_client [OF assms(2) assms(3)] reliable_store.ok_get_client [of S absf inv nrm "w_store w" i]
  by (auto simp: reliable_if_def)

lemma call_SaveAuthCode:
  assumes "reliable_if rel" and "inv (w_store w)" and "op_SaveAuthCode S c (w_store w) = (r, s')"
    and "awp rel nrm E (SaveAuthCode c k) (aworld absf w) Q"
  shows "inv s' \<and> awp rel nrm E (k r) (aworld absf (w\<lparr>w_store := s'\<rparr>)) Q"
proof -
  have "rel \<and> a_codes (absf (w_store w)) (ac_CodeHash c) = None \<longrightarrow> is_ok r"
    using assms(1-3) reliable_store.ok_save_code [of S absf inv nrm "w_store w" c] by (auto simp: reliable_if_def)
  with assms(4) have "(absf s' = put_code (nrm_code nrm c) (absf (w_store w)) \<or> \<not> is_ok r \<and> absf s' = absf (w_store w)) \<longrightarrow>
      awp rel nrm E (k r) (aworld absf (w\<lparr>w_store := s'\<rparr>)) Q"
    unfolding awp.simps aworld_simps by blast
  then show ?thesis using save_code [OF assms(2) assms(3)] by blast
qed

lemma call_ConsumeAuthCode:
  assumes "reliable_if rel" and "inv (w_store w)" and "op_ConsumeAuthCode S h (w_store w) = (r, s')"
    and "awp rel nrm E (ConsumeAuthCode h k) (aworld absf w) Q"
  shows "inv s' \<and> awp rel nrm E (k r) (aworld absf (w\<lparr>w_store := s'\<rparr>)) Q"
  using assms consume_code [OF assms(2) assms(3)] reliable_store.ok_consume_code [of S absf inv nrm "w_store w" h]
  by (auto simp: reliable_if_def)

lemma call_SavePendingAuth:
  assumes "reliable_if rel" and "inv (w_store w)" and "op_SavePendingAuth S p (w_store w) = (r, s')"
    and "awp rel nrm E (SavePendingAuth p k) (aworld absf w) Q"
  shows "inv s' \<and> awp rel nrm E (k r) (aworld absf (w\<lparr>w_store := s'\<rparr>)) Q"
proof -
  have "rel \<and> a_pending (absf (w_store w)) (pa_StateHash p) = None \<longrightarrow> is_ok r"
    using assms(1-3) reliable_store.ok_save_pending [of S absf inv nrm "w_store w" p] by (auto simp: reliable_if_def)
  with assms(4) have "(absf s' = put_pending (nrm_pending nrm p) (absf (w_store w)) \<or> \<not> is_ok r \<and> absf s' = absf (w_store w)) \<longrightarrow>
      awp rel nrm E (k r) (aworld absf (w\<lparr>w_store := s'\<rparr>)) Q"
    unfolding awp.simps aworld_simps by blast
  then show ?thesis using save_pending [OF assms(2) assms(3)] by blast
qed

lemma call_ConsumePendingAuth:
  assumes "reliable_if rel" and "inv (w_store w)" and "op_ConsumePendingAuth S h (w_store w) = (r, s')"
    and "awp rel nrm E (ConsumePendingAuth h k) (aworld absf w) Q"
  shows "inv s' \<and> awp rel nrm E (k r) (aworld absf (w\<lparr>w_store := s'\<rparr>)) Q"
  using assms consume_pending [OF assms(2) assms(3)] reliable_store.ok_consume_pending [of S absf inv nrm "w_store w" h]
  by (auto simp: reliable_if_def)

lemma call_SaveRefreshToken:
  assumes "reliable_if rel" and "inv (w_store w)" and "op_SaveRefreshToken S rt (w_store w) = (r, s')"
    and "awp rel nrm E (SaveRefreshToken rt k) (aworld absf w) Q"
  shows "inv s' \<and> awp rel nrm E (k r) (aworld absf (w\<lparr>w_store := s'\<rparr>)) Q"
proof -
  have "rel \<and> a_refresh (absf (w_store w)) (rt_TokenHash rt) = None \<longrightarrow> is_ok r"
    using assms(1-3) reliable_store.ok_save_refresh [of S absf inv nrm "w_store w" rt] by (auto simp: reliable_if_def)
  with assms(4) have row: "(absf s' = put_refresh rt' (absf (w_store w)) \<or> \<not> is_ok r \<and> absf s' = absf (w_store w)) \<longrightarrow>
      awp rel nrm E (k r) (aworld absf (w\<lparr>w_store := s'\<rparr>)) Q" if "refresh_row nrm rt rt'" for rt'
    using that unfolding awp.simps aworld_simps by blast
  from save_refresh [OF assms(2) assms(3)] show ?thesis
    using row [of "nrm_refresh nrm rt"] row by (auto simp: refresh_row_def)
qed

lemma call_GetRefreshToken:
  assumes "reliable_if rel" and "inv (w_store w)" and "op_GetRefreshToken S h (w_store w) = (r, s')"
    and "awp rel nrm E (GetRefreshToken h k) (aworld absf w) Q"
  shows "inv s' \<and> awp rel nrm E (k r) (aworld absf (w\<lparr>w_store := s'\<rparr>)) Q"
  using assms get_refresh [OF assms(2) assms(3)] reliable_store.ok_get_refresh [of S absf inv nrm "w_store w" h]
  by (auto simp: reliable_if_def)

lemma call_ConsumeRefreshToken:
  assumes "reliable_if rel" and "inv (w_store w)" and "op_ConsumeRefreshToken S h t (w_store w) = (r, s')"
    and "awp rel nrm E (ConsumeRefreshToken h t k) (aworld absf w) Q"
  shows "inv s' \<and> awp rel nrm E (k r) (aworld absf (w\<lparr>w_store := s'\<rparr>)) Q"
  using assms consume_refresh [OF assms(2) _ assms(3)] reliable_store.ok_consume_refresh [of S absf inv nrm "w_store w" h t]
  by (auto simp: reliable_if_def)

lemma call_RevokeRefreshTokenFamily:
  assumes "reliable_if rel" and "inv (w_store w)" and "op_RevokeRefreshTokenFamily S f (w_store w) = (r, s')"
    and "awp rel nrm E (RevokeRefreshTokenFamily f k) (aworld absf w) Q"
  shows "inv s' \<and> awp rel nrm E (k r) (aworld absf (w\<lparr>w_store := s'\<rparr>)) Q"
  using assms revoke_family [OF assms(2) assms(3)] reliable_store.ok_revoke_family [of S absf inv nrm "w_store w" f]
  by (auto simp: reliable_if_def)

lemma call_PurgeExpired:
  assumes "reliable_if rel" and "inv (w_store w)" and "op_PurgeExpired S t (w_store w) = (r, s')"
    and "awp rel nrm E (PurgeExpired t k) (aworld absf w) Q"
  shows "inv s' \<and> awp rel nrm E (k r) (aworld absf (w\<lparr>w_store := s'\<rparr>)) Q"
  using assms purge_expired [OF assms(2) _ assms(3)] reliable_store.ok_purge [of S absf inv nrm "w_store w" t]
  by (auto simp: reliable_if_def)

lemma call_FindUserIDByEmail:
  assumes "reliable_if rel" and "inv (w_store w)" and "op_FindUserIDByEmail S e (w_store w) = (r, s')"
    and "awp rel nrm E (FindUserIDByEmail e k) (aworld absf w) Q"
  shows "inv s' \<and> awp rel nrm E (k r) (aworld absf (w\<lparr>w_store := s'\<rparr>)) Q"
  using assms find_user [OF assms(2) assms(3)] reliable_store.ok_find_user [of S absf inv nrm "w_store w" e]
  by (auto simp: reliable_if_def)

text \<open>Soundness.\<close>

lemma run_awp:
  assumes "reliable_if rel" and "inv (w_store w)" and "awp rel nrm E P (aworld absf w) Q"
  shows "inv (w_store (snd (run S E P w))) \<and> Q (fst (run S E P w)) (aworld absf (snd (run S E P w)))"
  using assms(2,3)
proof (induction P arbitrary: w)
  case (RandRead len k)
  then show ?case by (simp add: split_beta)
next
  case (SaveClient c k)
  obtain r s' where "op_SaveClient S c (w_store w) = (r, s')" by force
  with call_SaveClient [OF assms(1) SaveClient.prems(1) this SaveClient.prems(2)] SaveClient.IH [of "k r" "w\<lparr>w_store := s'\<rparr>"]
  show ?case by simp
next
  case (GetClient i k)
  obtain r s' where "op_GetClient S i (w_store w) = (r, s')" by force
  with call_GetClient [OF assms(1) GetClient.prems(1) this GetClient.prems(2)] GetClient.IH [of "k r" "w\<lparr>w_store := s'\<rparr>"]
  show ?case by simp
next
  case (SaveAuthCode c k)
  obtain r s' where "op_SaveAuthCode S c (w_store w) = (r, s')" by force
  with call_SaveAuthCode [OF assms(1) SaveAuthCode.prems(1) this SaveAuthCode.prems(2)] SaveAuthCode.IH [of "k r" "w\<lparr>w_store := s'\<rparr>"]
  show ?case by simp
next
  case (ConsumeAuthCode h k)
  obtain r s' where "op_ConsumeAuthCode S h (w_store w) = (r, s')" by force
  with call_ConsumeAuthCode [OF assms(1) ConsumeAuthCode.prems(1) this ConsumeAuthCode.prems(2)] ConsumeAuthCode.IH [of "k r" "w\<lparr>w_store := s'\<rparr>"]
  show ?case by simp
next
  case (SavePendingAuth p k)
  obtain r s' where "op_SavePendingAuth S p (w_store w) = (r, s')" by force
  with call_SavePendingAuth [OF assms(1) SavePendingAuth.prems(1) this SavePendingAuth.prems(2)] SavePendingAuth.IH [of "k r" "w\<lparr>w_store := s'\<rparr>"]
  show ?case by simp
next
  case (ConsumePendingAuth h k)
  obtain r s' where "op_ConsumePendingAuth S h (w_store w) = (r, s')" by force
  with call_ConsumePendingAuth [OF assms(1) ConsumePendingAuth.prems(1) this ConsumePendingAuth.prems(2)] ConsumePendingAuth.IH [of "k r" "w\<lparr>w_store := s'\<rparr>"]
  show ?case by simp
next
  case (SaveRefreshToken rt k)
  obtain r s' where "op_SaveRefreshToken S rt (w_store w) = (r, s')" by force
  with call_SaveRefreshToken [OF assms(1) SaveRefreshToken.prems(1) this SaveRefreshToken.prems(2)] SaveRefreshToken.IH [of "k r" "w\<lparr>w_store := s'\<rparr>"]
  show ?case by simp
next
  case (GetRefreshToken h k)
  obtain r s' where "op_GetRefreshToken S h (w_store w) = (r, s')" by force
  with call_GetRefreshToken [OF assms(1) GetRefreshToken.prems(1) this GetRefreshToken.prems(2)] GetRefreshToken.IH [of "k r" "w\<lparr>w_store := s'\<rparr>"]
  show ?case by simp
next
  case (ConsumeRefreshToken h t k)
  obtain r s' where "op_ConsumeRefreshToken S h t (w_store w) = (r, s')" by force
  with call_ConsumeRefreshToken [OF assms(1) ConsumeRefreshToken.prems(1) this ConsumeRefreshToken.prems(2)] ConsumeRefreshToken.IH [of "k r" "w\<lparr>w_store := s'\<rparr>"]
  show ?case by simp
next
  case (RevokeRefreshTokenFamily f k)
  obtain r s' where "op_RevokeRefreshTokenFamily S f (w_store w) = (r, s')" by force
  with call_RevokeRefreshTokenFamily [OF assms(1) RevokeRefreshTokenFamily.prems(1) this RevokeRefreshTokenFamily.prems(2)] RevokeRefreshTokenFamily.IH [of "k r" "w\<lparr>w_store := s'\<rparr>"]
  show ?case by simp
next
  case (PurgeExpired t k)
  obtain r s' where "op_PurgeExpired S t (w_store w) = (r, s')" by force
  with call_PurgeExpired [OF assms(1) PurgeExpired.prems(1) this PurgeExpired.prems(2)] PurgeExpired.IH [of "k r" "w\<lparr>w_store := s'\<rparr>"]
  show ?case by simp
next
  case (FindUserIDByEmail e k)
  obtain r s' where "op_FindUserIDByEmail S e (w_store w) = (r, s')" by force
  with call_FindUserIDByEmail [OF assms(1) FindUserIDByEmail.prems(1) this FindUserIDByEmail.prems(2)] FindUserIDByEmail.IH [of "k r" "w\<lparr>w_store := s'\<rparr>"]
  show ?case by simp
qed simp_all

end

section \<open>Computing with \<open>awp\<close>\<close>

text \<open>
  The equations proofs compute with. A store that succeeds gives one continuation; one that
  may fail gives that continuation and, for any error, the failed call with and without its
  effect.
\<close>

abbreviation awp_fails where
  "awp_fails n E k w a Q \<equiv> (\<forall>e. awp False n E (k (Inl e)) (w\<lparr>w_store := a\<rparr>) Q \<and> awp False n E (k (Inl e)) w Q)"

lemma awp_succeeds:
  "awp True n E (GetClient i kc) w Q = awp True n E (kc (Inr (a_clients (w_store w) i))) w Q"
  "awp True n E (ConsumeAuthCode h ka) w Q =
     awp True n E (ka (Inr (a_codes (w_store w) h))) (w\<lparr>w_store := del_code h (w_store w)\<rparr>) Q"
  "awp True n E (ConsumePendingAuth h kp) w Q =
     awp True n E (kp (Inr (a_pending (w_store w) h))) (w\<lparr>w_store := del_pending h (w_store w)\<rparr>) Q"
  "awp True n E (GetRefreshToken h kr) w Q = awp True n E (kr (Inr (a_refresh (w_store w) h))) w Q"
  "awp True n E (ConsumeRefreshToken h t kr) w Q \<longleftrightarrow> clock_floor \<le> t \<and>
     awp True n E (kr (Inr (a_refresh (w_store w) h))) (w\<lparr>w_store := stamp_refresh h (r_refresh n t) (w_store w)\<rparr>) Q"
  "awp True n E (RevokeRefreshTokenFamily f k) w Q =
     awp True n E (k (Inr ())) (w\<lparr>w_store := revoke_family f (w_store w)\<rparr>) Q"
  "awp True n E (PurgeExpired t k) w Q \<longleftrightarrow>
     clock_floor \<le> t \<and> awp True n E (k (Inr ())) (w\<lparr>w_store := purge (r_row n t) (w_store w)\<rparr>) Q"
  "awp True n E (FindUserIDByEmail e ku) w Q = awp True n E (ku (Inr (a_users (w_store w) e))) w Q"
  "a_codes (w_store w) (ac_CodeHash c) = None \<Longrightarrow> awp True n E (SaveAuthCode c k) w Q =
     awp True n E (k (Inr ())) (w\<lparr>w_store := put_code (nrm_code n c) (w_store w)\<rparr>) Q"
  "a_pending (w_store w) (pa_StateHash p) = None \<Longrightarrow> awp True n E (SavePendingAuth p k) w Q =
     awp True n E (k (Inr ())) (w\<lparr>w_store := put_pending (nrm_pending n p) (w_store w)\<rparr>) Q"
  "a_refresh (w_store w) (rt_TokenHash rt) = None \<Longrightarrow> IsZero (rt_ConsumedAt rt) \<Longrightarrow>
     awp True n E (SaveRefreshToken rt k) w Q =
     awp True n E (k (Inr ())) (w\<lparr>w_store := put_refresh (nrm_refresh n rt) (w_store w)\<rparr>) Q"
  by (auto simp: all_res_split)

lemma awp_may_fail:
  "awp False n E (GetClient i kc) w Q \<longleftrightarrow>
     (\<forall>e. awp False n E (kc (Inl e)) w Q) \<and> awp False n E (kc (Inr (a_clients (w_store w) i))) w Q"
  "awp False n E (SaveAuthCode c k) w Q \<longleftrightarrow> awp_fails n E k w (put_code (nrm_code n c) (w_store w)) Q \<and>
     awp False n E (k (Inr ())) (w\<lparr>w_store := put_code (nrm_code n c) (w_store w)\<rparr>) Q"
  "awp False n E (ConsumeAuthCode h ka) w Q \<longleftrightarrow> awp_fails n E ka w (del_code h (w_store w)) Q \<and>
     awp False n E (ka (Inr (a_codes (w_store w) h))) (w\<lparr>w_store := del_code h (w_store w)\<rparr>) Q"
  "awp False n E (SavePendingAuth p k) w Q \<longleftrightarrow> awp_fails n E k w (put_pending (nrm_pending n p) (w_store w)) Q \<and>
     awp False n E (k (Inr ())) (w\<lparr>w_store := put_pending (nrm_pending n p) (w_store w)\<rparr>) Q"
  "awp False n E (ConsumePendingAuth h kp) w Q \<longleftrightarrow> awp_fails n E kp w (del_pending h (w_store w)) Q \<and>
     awp False n E (kp (Inr (a_pending (w_store w) h))) (w\<lparr>w_store := del_pending h (w_store w)\<rparr>) Q"
  "IsZero (rt_ConsumedAt rt) \<Longrightarrow> awp False n E (SaveRefreshToken rt k) w Q \<longleftrightarrow>
     awp_fails n E k w (put_refresh (nrm_refresh n rt) (w_store w)) Q \<and>
     awp False n E (k (Inr ())) (w\<lparr>w_store := put_refresh (nrm_refresh n rt) (w_store w)\<rparr>) Q"
  "awp False n E (GetRefreshToken h kr) w Q \<longleftrightarrow>
     (\<forall>e. awp False n E (kr (Inl e)) w Q) \<and> awp False n E (kr (Inr (a_refresh (w_store w) h))) w Q"
  "awp False n E (ConsumeRefreshToken h t kr) w Q \<longleftrightarrow> clock_floor \<le> t \<and> awp_fails n E kr w (stamp_refresh h (r_refresh n t) (w_store w)) Q \<and>
     awp False n E (kr (Inr (a_refresh (w_store w) h))) (w\<lparr>w_store := stamp_refresh h (r_refresh n t) (w_store w)\<rparr>) Q"
  "awp False n E (RevokeRefreshTokenFamily f k) w Q \<longleftrightarrow> awp_fails n E k w (revoke_family f (w_store w)) Q \<and>
     awp False n E (k (Inr ())) (w\<lparr>w_store := revoke_family f (w_store w)\<rparr>) Q"
  "awp False n E (FindUserIDByEmail e ku) w Q \<longleftrightarrow>
     (\<forall>e. awp False n E (ku (Inl e)) w Q) \<and> awp False n E (ku (Inr (a_users (w_store w) e))) w Q"
  by (auto simp: all_res_split)

lemmas awp_calls = awp_succeeds awp_may_fail

declare awp.simps(7-17) [simp del]
declare awp_calls [simp]

end
