(* ===== verification/Token_Endpoint.thy ===== *)
theory Token_Endpoint
  imports Access_Token Grace Wp
begin

text \<open>
  The token endpoint (\<open>handlers.go\<close>): the authorization-code grant, refresh-token
  rotation, replay judgement with the grace window, and the issue of a token pair. Each
  handler is the Go function's sequence of store calls with its early returns.
\<close>

section \<open>Issuing a pair\<close>

definition writeTokenPair :: "lib \<Rightarrow> provider \<Rightarrow> writer \<Rightarrow> string \<Rightarrow> string \<Rightarrow> time \<Rightarrow> response" where
  "writeTokenPair L p w userID refresh now =
     (case issueAccessToken L p userID now of
        Inl err \<Rightarrow> writeOAuthError w 500 ''server_error'' ''could not issue access token''
      | Inr access \<Rightarrow> writeJSON w 200 (TokenBody \<lparr>
          tr_AccessToken = access, tr_TokenType = ''Bearer'',
          tr_ExpiresIn = duration_seconds (AccessTokenTTL (cfg p)),
          tr_RefreshToken = refresh, tr_Scope = GrantedScope\<rparr>))"

lemma status_writeTokenPair [simp]:
  "rs_status (writeTokenPair L p W u s now) = (if is_ok (issueAccessToken L p u now) then 200 else 500)"
  by (simp add: writeTokenPair_def is_ok_def split: sum.split)

lemma body_writeTokenPair:
  "rs_body (writeTokenPair L p W u s now) = TokenBody tr \<longleftrightarrow>
     (\<exists>access. issueAccessToken L p u now = Inr access \<and> tr = \<lparr>tr_AccessToken = access,
        tr_TokenType = ''Bearer'', tr_ExpiresIn = duration_seconds (AccessTokenTTL (cfg p)),
        tr_RefreshToken = s, tr_Scope = GrantedScope\<rparr>)"
  by (auto simp: writeTokenPair_def split: sum.split)

definition issued_row ::
  "provider \<Rightarrow> string \<Rightarrow> string \<Rightarrow> string \<Rightarrow> string \<Rightarrow> time \<Rightarrow> time \<Rightarrow> refresh_token" where
  "issued_row p refresh clientID userID familyID familyCreatedAt now =
     (let familyExpiresAt = familyCreatedAt + RefreshTokenAbsoluteTTL (cfg p);
          expiresAt = (let e = now + RefreshTokenTTL (cfg p)
                       in if familyExpiresAt < e then familyExpiresAt else e)
      in \<lparr>rt_TokenHash = HashSecret refresh, rt_ClientID = clientID, rt_UserID = userID,
          rt_FamilyID = familyID, rt_FamilyCreatedAt = familyCreatedAt,
          rt_FamilyExpiresAt = familyExpiresAt, rt_ExpiresAt = expiresAt, rt_CreatedAt = now,
          rt_ConsumedAt = zero_time\<rparr>)"

lemma issued_row_simps [simp]:
  "rt_TokenHash (issued_row p s c u f t now) = HashSecret s"
  "rt_ClientID (issued_row p s c u f t now) = c" "rt_UserID (issued_row p s c u f t now) = u"
  "rt_FamilyID (issued_row p s c u f t now) = f"
  "rt_FamilyCreatedAt (issued_row p s c u f t now) = t"
  "rt_FamilyExpiresAt (issued_row p s c u f t now) = t + RefreshTokenAbsoluteTTL (cfg p)"
  "rt_ExpiresAt (issued_row p s c u f t now) =
     min (now + RefreshTokenTTL (cfg p)) (t + RefreshTokenAbsoluteTTL (cfg p))"
  "rt_CreatedAt (issued_row p s c u f t now) = now"
  "rt_ConsumedAt (issued_row p s c u f t now) = zero_time"
  by (simp_all add: issued_row_def Let_def)

definition reuse_message :: string where
  "reuse_message = ''refresh token was already used; the whole token family has been revoked, sign in again''"

definition issueTokenPair ::
  "lib \<Rightarrow> provider \<Rightarrow> writer \<Rightarrow> string \<Rightarrow> string \<Rightarrow> string \<Rightarrow> string \<Rightarrow> time \<Rightarrow> response prog" where
  [handler_defs]: "issueTokenPair L p w prevHash clientID userID familyID familyCreatedAt =
     Now (\<lambda>now. randomToken 32 (\<lambda>rnd. case rnd of
       Inl err \<Rightarrow> Ret (writeOAuthError w 500 ''server_error'' ''could not issue refresh token'')
     | Inr refresh \<Rightarrow>
     SaveRefreshToken (issued_row p refresh clientID userID familyID familyCreatedAt now) (\<lambda>saved. case saved of
       Inl err \<Rightarrow> Ret (writeOAuthError w 500 ''server_error'' ''could not persist refresh token'')
     | Inr _ \<Rightarrow>
     if prevHash \<noteq> [] then
       GetRefreshToken prevHash (\<lambda>read. case read of
         Inl err \<Rightarrow> Ret (writeOAuthError w 500 ''server_error'' ''could not verify token rotation'')
       | Inr None \<Rightarrow> RevokeRefreshTokenFamily familyID (\<lambda>_.
           Ret (writeOAuthError w 400 ''invalid_grant'' reuse_message))
       | Inr (Some _) \<Rightarrow> rememberSuccessor L p prevHash refresh now
           (Ret (writeTokenPair L p w userID refresh now)))
     else Ret (writeTokenPair L p w userID refresh now))))"

section \<open>The authorization-code grant\<close>

definition authorizationCodeGrant :: "lib \<Rightarrow> provider \<Rightarrow> writer \<Rightarrow> request \<Rightarrow> response prog" where
  [handler_defs]: "authorizationCodeGrant L p w r =
     (let code = PostFormValue r ''code'';
          clientID = PostFormValue r ''client_id'';
          redirectURI = PostFormValue r ''redirect_uri'';
          verifier = PostFormValue r ''code_verifier''
      in if code = [] \<or> clientID = [] \<or> redirectURI = [] \<or> verifier = [] then
           Ret (writeOAuthError w 400 ''invalid_request''
             ''code, client_id, redirect_uri and code_verifier are required'')
         else
         ConsumeAuthCode (HashSecret code) (\<lambda>read. case read of
           Inl err \<Rightarrow> Ret (writeOAuthError w 500 ''server_error'' ''could not load authorization code'')
         | Inr None \<Rightarrow> Ret (writeOAuthError w 400 ''invalid_grant'' ''authorization code is invalid or already used'')
         | Inr (Some ac) \<Rightarrow>
         Now (\<lambda>now.
         if \<not> now < ac_ExpiresAt ac then
           Ret (writeOAuthError w 400 ''invalid_grant'' ''authorization code expired'')
         else if ac_ClientID ac \<noteq> clientID then
           Ret (writeOAuthError w 400 ''invalid_grant'' ''authorization code was issued to another client'')
         else if ac_RedirectURI ac \<noteq> redirectURI then
           Ret (writeOAuthError w 400 ''invalid_grant'' ''redirect_uri does not match the authorization request'')
         else if \<not> verifyPKCE verifier (ac_CodeChallenge ac) then
           Ret (writeOAuthError w 400 ''invalid_grant'' ''PKCE verification failed'')
         else
         randomToken 16 (\<lambda>rnd. case rnd of
           Inl err \<Rightarrow> Ret (writeOAuthError w 500 ''server_error'' ''could not start a token family'')
         | Inr familyID \<Rightarrow>
         Now (\<lambda>start. issueTokenPair L p w [] (ac_ClientID ac) (ac_UserID ac) familyID start)))))"

section \<open>Replays\<close>

definition graceApplies ::
  "lib \<Rightarrow> provider \<Rightarrow> refresh_token \<Rightarrow> string \<Rightarrow> string \<Rightarrow> time \<Rightarrow> (string \<times> bool \<Rightarrow> response prog) \<Rightarrow> response prog" where
  [handler_defs]: "graceApplies L p rt tokenHash clientID now k =
     (if RefreshGracePeriod (cfg p) \<le> 0 \<or> IsZero (rt_ConsumedAt rt) then k ([], False)
      else if now > rt_ConsumedAt rt + RefreshGracePeriod (cfg p) then k ([], False)
      else if rt_ClientID rt \<noteq> clientID then k ([], False)
      else recallSuccessor tokenHash now (\<lambda>known. case known of
        None \<Rightarrow> k ([], True)
      | Some successor \<Rightarrow>
      GetRefreshToken (HashSecret successor) (\<lambda>read. case read of
        Inl err \<Rightarrow> k ([], False)
      | Inr None \<Rightarrow> k ([], False)
      | Inr (Some nxt) \<Rightarrow>
          if \<not> IsZero (rt_ConsumedAt nxt) \<or> \<not> now < rt_ExpiresAt nxt then k ([], False)
          else k (successor, True))))"

definition replayedRefreshToken ::
  "lib \<Rightarrow> provider \<Rightarrow> writer \<Rightarrow> refresh_token \<Rightarrow> string \<Rightarrow> string \<Rightarrow> time \<Rightarrow> response prog" where
  [handler_defs]: "replayedRefreshToken L p w rt tokenHash clientID now =
     graceApplies L p rt tokenHash clientID now (\<lambda>(successor, inGrace).
       if inGrace then
         (if successor \<noteq> [] then Ret (writeTokenPair L p w (rt_UserID rt) successor now)
          else Ret (writeOAuthError w 400 ''invalid_grant''
                 ''this refresh token is being rotated by another request; retry''))
       else
         (let familyID = familyToRevoke rt tokenHash
          in if familyID \<noteq> [] then
               RevokeRefreshTokenFamily familyID (\<lambda>revoked. case revoked of
                 Inl err \<Rightarrow> Ret (writeOAuthError w 500 ''server_error'' ''could not revoke the token family'')
               | Inr _ \<Rightarrow> Ret (writeOAuthError w 400 ''invalid_grant'' reuse_message))
             else Ret (writeOAuthError w 400 ''invalid_grant'' reuse_message)))"

section \<open>The refresh-token grant\<close>

definition cap_message :: string where
  "cap_message = ''refresh token family has reached its absolute lifetime; sign in again''"

definition rotate_first_use ::
  "lib \<Rightarrow> provider \<Rightarrow> writer \<Rightarrow> refresh_token \<Rightarrow> string \<Rightarrow> string \<Rightarrow> time \<Rightarrow> response prog" where
  \<comment> \<open>the rest of \<open>refreshTokenGrant\<close> once the row came back unconsumed\<close>
  [handler_defs]: "rotate_first_use L p w rt tokenHash clientID now =
     (if \<not> now < rt_ExpiresAt rt then
        Ret (writeOAuthError w 400 ''invalid_grant'' ''refresh token expired'')
      else
        (let familyStart = (if IsZero (rt_FamilyCreatedAt rt) then rt_CreatedAt rt else rt_FamilyCreatedAt rt)
         in if IsZero familyStart \<or> \<not> now < familyStart + RefreshTokenAbsoluteTTL (cfg p) then
              (let familyID = familyToRevoke rt tokenHash
               in if familyID \<noteq> [] then
                    RevokeRefreshTokenFamily familyID (\<lambda>revoked. case revoked of
                      Inl err \<Rightarrow> Ret (writeOAuthError w 500 ''server_error'' ''could not revoke the token family'')
                    | Inr _ \<Rightarrow> Ret (writeOAuthError w 400 ''invalid_grant'' cap_message))
                  else Ret (writeOAuthError w 400 ''invalid_grant'' cap_message))
            else if rt_ClientID rt \<noteq> clientID then
              Ret (writeOAuthError w 400 ''invalid_grant'' ''refresh token was issued to another client'')
            else
              (let familyID = (if rt_FamilyID rt = [] then legacyFamilyID tokenHash else rt_FamilyID rt)
               in issueTokenPair L p w tokenHash (rt_ClientID rt) (rt_UserID rt) familyID familyStart)))"

definition refreshTokenGrant :: "lib \<Rightarrow> provider \<Rightarrow> writer \<Rightarrow> request \<Rightarrow> response prog" where
  [handler_defs]: "refreshTokenGrant L p w r =
     (let raw = PostFormValue r ''refresh_token'';
          clientID = PostFormValue r ''client_id''
      in if raw = [] \<or> clientID = [] then
           Ret (writeOAuthError w 400 ''invalid_request'' ''refresh_token and client_id are required'')
         else
         Now (\<lambda>now. let tokenHash = HashSecret raw in
         GetRefreshToken tokenHash (\<lambda>read. case read of
           Inl err \<Rightarrow> Ret (writeOAuthError w 500 ''server_error'' ''could not load refresh token'')
         | Inr known \<Rightarrow>
         if (case known of None \<Rightarrow> False | Some bound \<Rightarrow> rt_ClientID bound \<noteq> clientID) then
           Ret (writeOAuthError w 400 ''invalid_grant'' ''refresh token was issued to another client'')
         else
         ConsumeRefreshToken tokenHash now (\<lambda>consumed. case consumed of
           Inl err \<Rightarrow> Ret (writeOAuthError w 500 ''server_error'' ''could not load refresh token'')
         | Inr None \<Rightarrow> Ret (writeOAuthError w 400 ''invalid_grant'' ''refresh token is invalid or already used'')
         | Inr (Some rt) \<Rightarrow>
             if \<not> IsZero (rt_ConsumedAt rt) then replayedRefreshToken L p w rt tokenHash clientID now
             else rotate_first_use L p w rt tokenHash clientID now))))"

section \<open>The endpoint\<close>

definition Token :: "lib \<Rightarrow> provider \<Rightarrow> request \<Rightarrow> response prog" where
  [handler_defs]: "Token L p r =
     (case allowCORS new_writer r ''POST'' of
        (w, Some resp) \<Rightarrow> Ret resp
      | (w, None) \<Rightarrow>
          if rq_Method r \<noteq> ''POST'' then
            Ret (writeOAuthError w 405 ''invalid_request'' ''POST required'')
          else (case ParseForm default_form_limit r of
            Inl err \<Rightarrow> Ret (writeOAuthError w 400 ''invalid_request'' ''malformed form body'')
          | Inr _ \<Rightarrow>
              (let grant_type = PostFormValue r ''grant_type''
               in if grant_type = ''authorization_code'' then authorizationCodeGrant L p w r
                  else if grant_type = ''refresh_token'' then refreshTokenGrant L p w r
                  else if grant_type = [] then
                    Ret (writeOAuthError w 400 ''invalid_request'' ''grant_type is required'')
                  else Ret (writeOAuthError w 400 ''unsupported_grant_type'' ''unsupported grant_type''))))"

end
