(* ===== verification/Memstore.thy ===== *)
theory Memstore
  imports Store
begin

text \<open>
  The in-memory store (\<open>memstore/memstore.go\<close>). Each Go map is an association list with
  distinct keys; every method runs under \<open>s.mu\<close>, so it is one atomic function. The last
  section discharges the store contract for it, with no rounding and no failure.
\<close>

section \<open>State and operations\<close>

record memory_store =
  ms_clients :: "(string \<times> client) list"
  ms_codes :: "(string \<times> auth_code) list"
  ms_pending :: "(string \<times> pending_auth) list"
  ms_refresh :: "(string \<times> refresh_token) list"
  ms_usersByE :: "(string \<times> string) list"

definition NewMemoryStore :: memory_store where
  "NewMemoryStore = \<lparr>ms_clients = [], ms_codes = [], ms_pending = [], ms_refresh = [], ms_usersByE = []\<rparr>"

definition normalizeEmail :: "(string \<Rightarrow> string) \<Rightarrow> string \<Rightarrow> string" where
  "normalizeEmail ul e = ToLower ul (TrimSpace e)"

definition mem_AddUser :: "(string \<Rightarrow> string) \<Rightarrow> string \<Rightarrow> string \<Rightarrow> memory_store \<Rightarrow> memory_store" where
  "mem_AddUser ul email userID s =
     s\<lparr>ms_usersByE := AList.update (normalizeEmail ul email) userID (ms_usersByE s)\<rparr>"

definition mem_SaveClient :: "client \<Rightarrow> memory_store \<Rightarrow> unit res \<times> memory_store" where
  [store_defs]: "mem_SaveClient c s =
     (Inr (), s\<lparr>ms_clients := AList.update (cl_ClientID c) c (ms_clients s)\<rparr>)"

definition mem_GetClient :: "string \<Rightarrow> memory_store \<Rightarrow> client option res \<times> memory_store" where
  [store_defs]: "mem_GetClient clientID s = (Inr (map_of (ms_clients s) clientID), s)"

definition mem_SaveAuthCode :: "auth_code \<Rightarrow> memory_store \<Rightarrow> unit res \<times> memory_store" where
  [store_defs]: "mem_SaveAuthCode code s =
     (Inr (), s\<lparr>ms_codes := AList.update (ac_CodeHash code) code (ms_codes s)\<rparr>)"

definition mem_ConsumeAuthCode :: "string \<Rightarrow> memory_store \<Rightarrow> auth_code option res \<times> memory_store" where
  [store_defs]: "mem_ConsumeAuthCode codeHash s =
     (Inr (map_of (ms_codes s) codeHash), s\<lparr>ms_codes := AList.delete codeHash (ms_codes s)\<rparr>)"

definition mem_SavePendingAuth :: "pending_auth \<Rightarrow> memory_store \<Rightarrow> unit res \<times> memory_store" where
  [store_defs]: "mem_SavePendingAuth p s =
     (Inr (), s\<lparr>ms_pending := AList.update (pa_StateHash p) p (ms_pending s)\<rparr>)"

definition mem_ConsumePendingAuth :: "string \<Rightarrow> memory_store \<Rightarrow> pending_auth option res \<times> memory_store" where
  [store_defs]: "mem_ConsumePendingAuth stateHash s =
     (Inr (map_of (ms_pending s) stateHash), s\<lparr>ms_pending := AList.delete stateHash (ms_pending s)\<rparr>)"

definition mem_SaveRefreshToken :: "refresh_token \<Rightarrow> memory_store \<Rightarrow> unit res \<times> memory_store" where
  [store_defs]: "mem_SaveRefreshToken rt s =
     (Inr (), s\<lparr>ms_refresh := AList.update (rt_TokenHash rt) rt (ms_refresh s)\<rparr>)"

definition mem_GetRefreshToken :: "string \<Rightarrow> memory_store \<Rightarrow> refresh_token option res \<times> memory_store" where
  [store_defs]: "mem_GetRefreshToken tokenHash s = (Inr (map_of (ms_refresh s) tokenHash), s)"

definition mem_ConsumeRefreshToken ::
  "string \<Rightarrow> time \<Rightarrow> memory_store \<Rightarrow> refresh_token option res \<times> memory_store" where
  [store_defs]: "mem_ConsumeRefreshToken tokenHash consumedAt s =
     (case map_of (ms_refresh s) tokenHash of
        None \<Rightarrow> (Inr None, s)
      | Some before \<Rightarrow>
          (Inr (Some before),
           if IsZero (rt_ConsumedAt before)
           then s\<lparr>ms_refresh := AList.update tokenHash (before\<lparr>rt_ConsumedAt := consumedAt\<rparr>) (ms_refresh s)\<rparr>
           else s))"

definition mem_RevokeRefreshTokensForUser :: "string \<Rightarrow> memory_store \<Rightarrow> unit res \<times> memory_store" where
  [store_defs]: "mem_RevokeRefreshTokensForUser userID s =
     (Inr (), s\<lparr>ms_refresh := filter (\<lambda>(h, rt). rt_UserID rt \<noteq> userID) (ms_refresh s)\<rparr>)"

definition mem_RevokeRefreshTokenFamily :: "string \<Rightarrow> memory_store \<Rightarrow> unit res \<times> memory_store" where
  [store_defs]: "mem_RevokeRefreshTokenFamily familyID s =
     (if familyID = [] then (Inr (), s)
      else (Inr (), s\<lparr>ms_refresh := filter (\<lambda>(h, rt). rt_FamilyID rt \<noteq> familyID) (ms_refresh s)\<rparr>))"

definition mem_PurgeExpired :: "time \<Rightarrow> memory_store \<Rightarrow> unit res \<times> memory_store" where
  [store_defs]: "mem_PurgeExpired before s =
     (Inr (), s\<lparr>
        ms_codes := filter (\<lambda>(h, c). \<not> ac_ExpiresAt c < before) (ms_codes s),
        ms_pending := filter (\<lambda>(h, p). \<not> pa_ExpiresAt p < before) (ms_pending s),
        ms_refresh := filter (\<lambda>(h, rt). \<not> (rt_ExpiresAt rt < before \<and> rt_FamilyExpiresAt rt < before)) (ms_refresh s),
        ms_clients := filter (\<lambda>(i, c). \<not> cl_ExpiresAt c < before) (ms_clients s)\<rparr>)"

definition mem_Len :: "memory_store \<Rightarrow> nat \<times> nat \<times> nat \<times> nat" where
  "mem_Len s = (length (ms_clients s), length (ms_codes s), length (ms_pending s), length (ms_refresh s))"

definition mem_LiveRefresh :: "memory_store \<Rightarrow> nat" where
  "mem_LiveRefresh s =
     fold (\<lambda>(h, rt) n. if IsZero (rt_ConsumedAt rt) then n + 1 else n) (ms_refresh s) 0"

definition mem_FindUserIDByEmail ::
  "(string \<Rightarrow> string) \<Rightarrow> string \<Rightarrow> memory_store \<Rightarrow> string option res \<times> memory_store" where
  [store_defs]: "mem_FindUserIDByEmail ul email s = (Inr (map_of (ms_usersByE s) (normalizeEmail ul email)), s)"

definition mem_ops :: "(string \<Rightarrow> string) \<Rightarrow> memory_store store_ops" where
  "mem_ops ul = \<lparr>
     op_SaveClient = mem_SaveClient, op_GetClient = mem_GetClient,
     op_SaveAuthCode = mem_SaveAuthCode, op_ConsumeAuthCode = mem_ConsumeAuthCode,
     op_SavePendingAuth = mem_SavePendingAuth, op_ConsumePendingAuth = mem_ConsumePendingAuth,
     op_SaveRefreshToken = mem_SaveRefreshToken, op_GetRefreshToken = mem_GetRefreshToken,
     op_ConsumeRefreshToken = mem_ConsumeRefreshToken,
     op_RevokeRefreshTokensForUser = mem_RevokeRefreshTokensForUser,
     op_RevokeRefreshTokenFamily = mem_RevokeRefreshTokenFamily,
     op_PurgeExpired = mem_PurgeExpired,
     op_FindUserIDByEmail = mem_FindUserIDByEmail ul\<rparr>"

section \<open>Abstraction and invariant\<close>

definition mem_abs :: "(string \<Rightarrow> string) \<Rightarrow> memory_store \<Rightarrow> astore" where
  "mem_abs ul s = \<lparr>
     a_clients = map_of (ms_clients s), a_codes = map_of (ms_codes s),
     a_pending = map_of (ms_pending s), a_refresh = map_of (ms_refresh s),
     a_users = (\<lambda>e. map_of (ms_usersByE s) (normalizeEmail ul e))\<rparr>"

definition mem_inv :: "memory_store \<Rightarrow> bool" where
  "mem_inv s \<longleftrightarrow> distinct (map fst (ms_clients s)) \<and> distinct (map fst (ms_codes s)) \<and>
     distinct (map fst (ms_pending s)) \<and> distinct (map fst (ms_refresh s))"

lemma mem_inv_new: "mem_inv NewMemoryStore"
  by (simp add: mem_inv_def NewMemoryStore_def)

lemma map_of_filter_rows:
  "distinct (map fst xs) \<Longrightarrow> map_of (filter (\<lambda>(k, v). P v) xs) = keep_rows P (map_of xs)"
  by (rule ext) (simp add: map_of_filter_distinct keep_rows_def)

lemmas mem_simps = mem_ops_def mem_abs_def mem_inv_def astore_defs update_conv' delete_conv'
  map_of_filter_rows distinct_filter_keys distinct_update distinct_delete

lemma mem_stamp:
  "map_of xs h = Some rt \<Longrightarrow> IsZero (rt_ConsumedAt rt) \<Longrightarrow>
     stamp h t (map_of xs) = (map_of xs)(h \<mapsto> rt\<lparr>rt_ConsumedAt := t\<rparr>)"
  "map_of xs h = Some rt \<Longrightarrow> \<not> IsZero (rt_ConsumedAt rt) \<Longrightarrow> stamp h t (map_of xs) = map_of xs"
  "map_of xs h = None \<Longrightarrow> stamp h t (map_of xs) = map_of xs"
  by (simp_all add: stamp_def)

interpretation mem: store_contract "mem_ops ul" "mem_abs ul" mem_inv exact
proof
  fix s c r s' assume "mem_inv s" and "op_SaveClient (mem_ops ul) c s = (r, s')"
  then have "mem_inv s' \<and> client_row exact c c \<and> mem_abs ul s' = put_client c (mem_abs ul s)"
    by (auto simp: mem_simps store_defs client_row_def)
  then show "mem_inv s' \<and> ((\<exists>c'. client_row exact c c' \<and> mem_abs ul s' = put_client c' (mem_abs ul s))
      \<or> \<not> is_ok r \<and> mem_abs ul s' = mem_abs ul s)" by blast
next
  fix s rt r s' assume "mem_inv s" and "op_SaveRefreshToken (mem_ops ul) rt s = (r, s')"
  then have "mem_inv s' \<and> refresh_row exact rt rt \<and> mem_abs ul s' = put_refresh rt (mem_abs ul s)"
    by (auto simp: mem_simps store_defs refresh_row_def)
  then show "mem_inv s' \<and> ((\<exists>rt'. refresh_row exact rt rt' \<and> mem_abs ul s' = put_refresh rt' (mem_abs ul s))
      \<or> \<not> is_ok r \<and> mem_abs ul s' = mem_abs ul s)" by blast
next
  fix s h t r s' assume "mem_inv s" and "op_ConsumeRefreshToken (mem_ops ul) h t s = (r, s')"
  then show "mem_inv s' \<and> (mem_abs ul s' = stamp_refresh h (r_refresh exact t) (mem_abs ul s) \<or> \<not> is_ok r \<and> mem_abs ul s' = mem_abs ul s)
      \<and> (\<forall>x. r = Inr x \<longrightarrow> x = a_refresh (mem_abs ul s) h)"
    by (auto simp: mem_simps store_defs mem_stamp split: option.splits if_splits)
qed (auto simp: mem_simps store_defs retained_def [abs_def] split: if_splits)

interpretation memr: reliable_store "mem_ops ul" "mem_abs ul" mem_inv exact
  by unfold_locales (auto simp: mem_ops_def store_defs split: option.splits)

end
