(* ===== verification/Token_Spec.thy ===== *)
theory Token_Spec
  imports Token_Endpoint Memstore
begin

text \<open>
  The abstract specification of the token endpoint and the proof that the handlers implement
  it. \<open>judge\<close> is the decision the documentation of \<open>refreshTokenGrant\<close> describes, as a
  pure function of the tables, the grace cache and the clock; \<open>verdict_store\<close>,
  \<open>verdict_response\<close> and \<open>verdict_grace\<close> are the effect of each verdict. The
  refinement holds for every store that keeps the contract and does not fail; the lemmas that
  only say what a successful answer implies hold for stores that may fail as well.
\<close>

section \<open>Verdicts on a presented refresh token\<close>

datatype verdict =
    UnknownToken
  | WrongClient
  | InFlight
  | SameSuccessor string string
  | Reuse string
  | Expired
  | CapReached string
  | Rotate string string string time

definition in_window :: "provider \<Rightarrow> refresh_token \<Rightarrow> time \<Rightarrow> bool" where
  "in_window p rt now \<longleftrightarrow>
     0 < RefreshGracePeriod (cfg p) \<and> now \<le> rt_ConsumedAt rt + RefreshGracePeriod (cfg p)"

definition usable :: "refresh_token option \<Rightarrow> time \<Rightarrow> bool" where
  "usable row now \<longleftrightarrow> (case row of None \<Rightarrow> False
     | Some rt \<Rightarrow> IsZero (rt_ConsumedAt rt) \<and> now < rt_ExpiresAt rt)"

definition family_start :: "refresh_token \<Rightarrow> time" where
  "family_start rt = (if IsZero (rt_FamilyCreatedAt rt) then rt_CreatedAt rt else rt_FamilyCreatedAt rt)"

definition judge ::
  "provider \<Rightarrow> (string \<rightharpoonup> refresh_token) \<Rightarrow> (string \<times> grace_entry) list \<Rightarrow> string \<Rightarrow> string \<Rightarrow> time \<Rightarrow> verdict" where
  "judge p T g h clientID now =
     (case T h of
        None \<Rightarrow> UnknownToken
      | Some rt \<Rightarrow>
          if rt_ClientID rt \<noteq> clientID then WrongClient
          else if \<not> IsZero (rt_ConsumedAt rt) then
            (if in_window p rt now then
               (case fst (grace_recall h now g) of
                  None \<Rightarrow> InFlight
                | Some s \<Rightarrow> if \<not> usable (T (HashSecret s)) now then Reuse (familyToRevoke rt h)
                            else if s = [] then InFlight
                            else SameSuccessor s (rt_UserID rt))
             else Reuse (familyToRevoke rt h))
          else if rt_ExpiresAt rt \<le> now then Expired
          else if IsZero (family_start rt) \<or> family_start rt + RefreshTokenAbsoluteTTL (cfg p) \<le> now
            then CapReached (familyToRevoke rt h)
          else Rotate (rt_ClientID rt) (rt_UserID rt) (familyToRevoke rt h) (family_start rt))"

text \<open>The row a rotation writes when the clock is read a second time.\<close>

fun verdict_store ::
  "rounding \<Rightarrow> provider \<Rightarrow> string \<Rightarrow> time \<Rightarrow> time \<Rightarrow> string \<Rightarrow> verdict \<Rightarrow> astore \<Rightarrow> astore" where
  "verdict_store n p h now now2 fresh (Reuse f) a = revoke_family f a"
| "verdict_store n p h now now2 fresh Expired a = stamp_refresh h (r_refresh n now) a"
| "verdict_store n p h now now2 fresh (CapReached f) a = revoke_family f (stamp_refresh h (r_refresh n now) a)"
| "verdict_store n p h now now2 fresh (Rotate c u f start) a =
     put_refresh (nrm_refresh n (issued_row p fresh c u f start now2)) (stamp_refresh h (r_refresh n now) a)"
| "verdict_store n p h now now2 fresh _ a = a"

fun verdict_response :: "lib \<Rightarrow> provider \<Rightarrow> writer \<Rightarrow> time \<Rightarrow> time \<Rightarrow> string \<Rightarrow> verdict \<Rightarrow> response" where
  "verdict_response L p W now now2 fresh UnknownToken =
     writeOAuthError W 400 ''invalid_grant'' ''refresh token is invalid or already used''"
| "verdict_response L p W now now2 fresh WrongClient =
     writeOAuthError W 400 ''invalid_grant'' ''refresh token was issued to another client''"
| "verdict_response L p W now now2 fresh InFlight =
     writeOAuthError W 400 ''invalid_grant'' ''this refresh token is being rotated by another request; retry''"
| "verdict_response L p W now now2 fresh (SameSuccessor s u) = writeTokenPair L p W u s now"
| "verdict_response L p W now now2 fresh (Reuse f) = writeOAuthError W 400 ''invalid_grant'' reuse_message"
| "verdict_response L p W now now2 fresh Expired =
     writeOAuthError W 400 ''invalid_grant'' ''refresh token expired''"
| "verdict_response L p W now now2 fresh (CapReached f) = writeOAuthError W 400 ''invalid_grant'' cap_message"
| "verdict_response L p W now now2 fresh (Rotate c u f start) = writeTokenPair L p W u fresh now2"

section \<open>The handlers implement the verdicts\<close>

definition reaches ::
  "lib \<Rightarrow> provider \<Rightarrow> writer \<Rightarrow> rounding \<Rightarrow> string \<Rightarrow> time \<Rightarrow> time \<Rightarrow> string \<Rightarrow> verdict \<Rightarrow> astore \<Rightarrow>
   response \<Rightarrow> astore world \<Rightarrow> bool" where
  "reaches L p W n h now now2 fresh v a resp w' \<longleftrightarrow>
     resp = verdict_response L p W now now2 fresh v \<and> w_store w' = verdict_store n p h now now2 fresh v a"

lemma awp_replayed:
  assumes "a_refresh (w_store w) h = Some rt" and "rt_ClientID rt = clientID"
    and "\<not> IsZero (rt_ConsumedAt rt)" and "h \<noteq> []"
    and "v = judge p (a_refresh (w_store w)) (grace (w_mem w)) h clientID now"
  shows "awp True n E (replayedRefreshToken L p W rt h clientID now) w
    (reaches L p W n h now now2 fresh v (w_store w))"
proof -
  have "familyToRevoke rt h \<noteq> []" using assms(4) by (simp add: familyToRevoke_def)
  then show ?thesis
    using assms
    by (cases "fst (grace_recall h now (grace (w_mem w)))")
       (simp_all add: handler_defs judge_def reaches_def in_window_def usable_def not_less not_le
         split: option.split)
qed

lemma nrm_refresh_simps [simp]:
  "rt_TokenHash (nrm_refresh n rt) = rt_TokenHash rt" "rt_ClientID (nrm_refresh n rt) = rt_ClientID rt"
  "rt_UserID (nrm_refresh n rt) = rt_UserID rt" "rt_FamilyID (nrm_refresh n rt) = rt_FamilyID rt"
  by (simp_all add: nrm_refresh_def)

text \<open>A pair is issued and, after a rotation, the predecessor is still there.\<close>

lemma awp_issue:
  assumes "prev \<noteq> [] \<longrightarrow> a_refresh (w_store w) prev \<noteq> None"
    and "32 \<le> length (w_rand w)" and "fresh = b64url_encode (take 32 (w_rand w))"
    and "now2 = e_now E (w_tick w)" and "a_refresh (w_store w) (HashSecret fresh) = None"
  shows "awp True n E (issueTokenPair L p W prev c u f start) w
    (\<lambda>resp w'. resp = writeTokenPair L p W u fresh now2 \<and>
       w_store w' = put_refresh (nrm_refresh n (issued_row p fresh c u f start now2)) (w_store w))"
  using assms by (auto simp: handler_defs rand_read_def put_refresh_lookup)

definition rotating :: "verdict \<Rightarrow> bool" where
  "rotating v \<longleftrightarrow> (\<exists>c u f start. v = Rotate c u f start)"

lemma rotating_simps [simp]: "rotating (Rotate c u f start)" "\<not> rotating (Reuse f)"
  by (simp_all add: rotating_def)

lemma awp_rotate:
  assumes "a_refresh (w_store w) h = Some rt" and "rt_ClientID rt = clientID"
    and "IsZero (rt_ConsumedAt rt)" and "h \<noteq> []"
    and "32 \<le> length (w_rand w)" and "fresh = b64url_encode (take 32 (w_rand w))"
    and "now2 = e_now E (w_tick w)"
    and v: "v = judge p (a_refresh (w_store w)) g h clientID now"
    and w': "w' = w\<lparr>w_store := stamp_refresh h (r_refresh n now) (w_store w)\<rparr>"
    and new: "rotating v \<Longrightarrow> a_refresh (w_store w) (HashSecret fresh) = None"
  shows "awp True n E (rotate_first_use L p W rt h clientID now) w'
    (reaches L p W n h now now2 fresh v (w_store w))"
proof -
  have f: "familyToRevoke rt h = (if rt_FamilyID rt = [] then legacyFamilyID h else rt_FamilyID rt)"
    "familyToRevoke rt h \<noteq> []" using assms(4) by (simp_all add: familyToRevoke_def)
  have "awp True n E (issueTokenPair L p W h clientID u f' start) w'
      (\<lambda>resp w2. resp = writeTokenPair L p W u fresh now2 \<and>
        w_store w2 = put_refresh (nrm_refresh n (issued_row p fresh clientID u f' start now2)) (w_store w'))"
    if "rotating v" for u f' start
    by (rule awp_issue) (use assms new [OF that] in \<open>auto simp: stamp_refresh_lookup\<close>)
  moreover have issue: "awp True n E (issueTokenPair L p W h clientID u f' start) w'
      (reaches L p W n h now now2 fresh (Rotate clientID u f' start) (w_store w))" if "rotating v" for u f' start
    by (rule awp_mono [OF calculation [OF that]]) (simp add: reaches_def w')
  ultimately show ?thesis
    using assms(1-3) f unfolding v w'
    by (auto simp: rotating_def rotate_first_use_def judge_def Let_def family_start_def not_less reaches_def)
qed

lemma awp_refresh_refines:
  assumes "PostFormValue r ''refresh_token'' = raw" and "raw \<noteq> []"
    and "PostFormValue r ''client_id'' = clientID" and "clientID \<noteq> []"
    and "32 \<le> length (w_rand w)" and "fresh = b64url_encode (take 32 (w_rand w))"
    and "h = HashSecret raw" and "now = e_now E (w_tick w)" and "now2 = e_now E (Suc (w_tick w))"
    and "v = judge p (a_refresh (w_store w)) (grace (w_mem w)) h clientID now"
    and sane: "sane_clock E" and new: "rotating v \<Longrightarrow> a_refresh (w_store w) (HashSecret fresh) = None"
  shows "awp True n E (refreshTokenGrant L p W r) w (reaches L p W n h now now2 fresh v (w_store w))"
proof (cases "a_refresh (w_store w) h")
  case None
  then show ?thesis using assms by (simp add: refreshTokenGrant_def judge_def reaches_def Let_def stamp_refresh_id)
next
  case (Some rt)
  have h: "h \<noteq> []" using assms(7) by simp
  consider (wrong) "rt_ClientID rt \<noteq> clientID"
    | (replay) "rt_ClientID rt = clientID" "\<not> IsZero (rt_ConsumedAt rt)"
    | (rotate) "rt_ClientID rt = clientID" "IsZero (rt_ConsumedAt rt)" by blast
  then show ?thesis
  proof cases
    case wrong
    then show ?thesis using assms Some by (simp add: refreshTokenGrant_def judge_def reaches_def Let_def)
  next
    case replay
    let ?w = "w\<lparr>w_tick := Suc (w_tick w)\<rparr>"
    have "awp True n E (replayedRefreshToken L p W rt h clientID now) ?w
        (reaches L p W n h now now2 fresh v (w_store ?w))"
      by (rule awp_replayed) (use replay Some h assms(10) in simp_all)
    then show ?thesis
      using assms Some replay by (simp add: refreshTokenGrant_def Let_def stamp_refresh_id)
  next
    case rotate
    let ?w = "w\<lparr>w_tick := Suc (w_tick w)\<rparr>"
    have "awp True n E (rotate_first_use L p W rt h clientID now) (?w\<lparr>w_store := stamp_refresh h (r_refresh n now) (w_store ?w)\<rparr>)
        (reaches L p W n h now now2 fresh v (w_store ?w))"
      by (rule awp_rotate [where g = "grace (w_mem w)"]) (use rotate Some h assms in simp_all)
    then show ?thesis
      using assms Some rotate by (simp add: refreshTokenGrant_def Let_def)
  qed
qed

section \<open>What a successful answer implies, for stores that may fail\<close>

text \<open>The conditions under which a code may be exchanged.\<close>

definition code_matches :: "auth_code \<Rightarrow> string \<Rightarrow> string \<Rightarrow> string \<Rightarrow> time \<Rightarrow> bool" where
  "code_matches ac clientID redirectURI verifier now \<longleftrightarrow>
     now < ac_ExpiresAt ac \<and> ac_ClientID ac = clientID \<and> ac_RedirectURI ac = redirectURI \<and>
     verifyPKCE verifier (ac_CodeChallenge ac)"

definition code_request_complete :: "request \<Rightarrow> bool" where
  "code_request_complete r \<longleftrightarrow> PostFormValue r ''code'' \<noteq> [] \<and> PostFormValue r ''client_id'' \<noteq> [] \<and>
     PostFormValue r ''redirect_uri'' \<noteq> [] \<and> PostFormValue r ''code_verifier'' \<noteq> []"

definition pair_issued ::
  "lib \<Rightarrow> provider \<Rightarrow> writer \<Rightarrow> rounding \<Rightarrow> env \<Rightarrow> astore world \<Rightarrow> string \<Rightarrow> auth_code \<Rightarrow> response \<Rightarrow> astore \<Rightarrow> bool" where
  "pair_issued L p W n E w h ac resp a \<longleftrightarrow>
     (let family = b64url_encode (take 16 (w_rand w));
          refresh = b64url_encode (take 32 (drop 16 (w_rand w)));
          start = e_now E (Suc (w_tick w));
          issued = e_now E (Suc (Suc (w_tick w)))
      in resp = writeTokenPair L p W (ac_UserID ac) refresh issued \<and>
         a = put_refresh (nrm_refresh n
               (issued_row p refresh (ac_ClientID ac) (ac_UserID ac) family start issued))
             (del_code h (w_store w)))"

definition code_grant_post ::
  "lib \<Rightarrow> provider \<Rightarrow> writer \<Rightarrow> rounding \<Rightarrow> env \<Rightarrow> request \<Rightarrow> astore world \<Rightarrow> response \<Rightarrow> astore world \<Rightarrow> bool" where
  "code_grant_post L p W n E r w resp w' \<longleftrightarrow>
     (let h = HashSecret (PostFormValue r ''code'') in
      (rs_status resp = 200 \<longrightarrow> (\<exists>ac. a_codes (w_store w) h = Some ac \<and>
         code_matches ac (PostFormValue r ''client_id'') (PostFormValue r ''redirect_uri'')
           (PostFormValue r ''code_verifier'') (e_now E (w_tick w)) \<and>
         pair_issued L p W n E w h ac resp (w_store w'))) \<and>
      (rs_status resp \<noteq> 200 \<and> rs_status resp \<noteq> 500 \<longrightarrow> a_refresh (w_store w') = a_refresh (w_store w)) \<and>
      (code_request_complete r \<and> rs_status resp \<noteq> 500 \<longrightarrow> a_codes (w_store w') h = None))"

lemma del_code_simps [simp]:
  "a_codes (del_code h a) h = None" "a_refresh (del_code h a) = a_refresh a"
  "a_codes (put_refresh rt a) = a_codes a"
  by (simp_all add: del_code_def put_refresh_def)

lemma awp_code_grant:
  "awp False n E (authorizationCodeGrant L p W r) w (code_grant_post L p W n E r w)"
proof -
  have fail: "code_grant_post L p W n E r w (writeOAuthError W 500 e d) w'" for e d w'
    by (simp add: code_grant_post_def Let_def)
  have refuse: "code_grant_post L p W n E r w (writeOAuthError W 400 e d) (w\<lparr>w_store := del_code
      (HashSecret (PostFormValue r ''code'')) (w_store w), w_tick := t\<rparr>)" for e d t
    by (simp add: code_grant_post_def Let_def)
  have refuse': "code_grant_post L p W n E r w (writeOAuthError W 400 e d) (w\<lparr>w_store := del_code
      (HashSecret (PostFormValue r ''code'')) (w_store w)\<rparr>)" for e d
    by (simp add: code_grant_post_def Let_def)
  have incomplete: "code_grant_post L p W n E r w (writeOAuthError W 400 e d) w"
    if "\<not> code_request_complete r" for e d
    using that by (simp add: code_grant_post_def Let_def)
  show ?thesis
    using incomplete
    by (auto simp: handler_defs Let_def rand_read_def fail refuse refuse' code_request_complete_def
          split: option.split)
       (auto simp: code_grant_post_def pair_issued_def code_matches_def Let_def)
qed

text \<open>What follows the consumption of a code leaves the codes alone.\<close>

lemma awp_code_kept:
  "a_codes (w_store w) = m \<Longrightarrow> awp False n E (issueTokenPair L p W prev c u f start) w (\<lambda>resp w'. a_codes (w_store w') = m)"
  by (auto simp: handler_defs Let_def put_refresh_def revoke_family_def split: option.split)

lemma code_grant_first_call:
  assumes "code_request_complete r" and "h = HashSecret (PostFormValue r ''code'')"
  shows "\<exists>k. authorizationCodeGrant L p W r = ConsumeAuthCode h k \<and>
    (\<forall>e. \<exists>d. k (Inl e) = Ret (writeOAuthError W 500 ''server_error'' d)) \<and>
    (\<forall>x u. awp False n E (k (Inr x)) u (\<lambda>resp u'. a_codes (w_store u') = a_codes (w_store u)))"
  using assms
  by (simp add: authorizationCodeGrant_def Let_def code_request_complete_def, intro conjI allI)
     (blast, auto simp: randomToken_def awp_code_kept split: option.split)

text \<open>A matching code is exchanged when nothing fails.\<close>

lemma awp_code_grant_completes:
  assumes "code_request_complete r" and "a_codes (w_store w) (HashSecret (PostFormValue r ''code'')) = Some ac"
    and "code_matches ac (PostFormValue r ''client_id'') (PostFormValue r ''redirect_uri'')
      (PostFormValue r ''code_verifier'') (e_now E (w_tick w))"
    and "48 \<le> length (w_rand w)"
    and "a_refresh (w_store w) (HashSecret (b64url_encode (take 32 (drop 16 (w_rand w))))) = None"
  shows "awp True n E (authorizationCodeGrant L p W r) w (\<lambda>resp w'.
    pair_issued L p W n E w (HashSecret (PostFormValue r ''code'')) ac resp (w_store w'))"
  using assms
  by (simp add: handler_defs Let_def rand_read_def code_request_complete_def code_matches_def pair_issued_def)

text \<open>A refresh token presented by a client it was not issued to: nothing changes.\<close>

lemma awp_wrong_client:
  assumes "a_refresh (w_store w) (HashSecret (PostFormValue r ''refresh_token'')) = Some rt"
    and "rt_ClientID rt \<noteq> PostFormValue r ''client_id''"
  shows "awp False n E (refreshTokenGrant L p W r) w (\<lambda>resp w'. rs_status resp \<noteq> 200 \<and>
    w_store w' = w_store w \<and> w_mem w' = w_mem w)"
  using assms by (simp add: refreshTokenGrant_def Let_def)

text \<open>A refresh request that is answered 200 took the verdict of the tables it found.\<close>

definition succeeds_as ::
  "lib \<Rightarrow> provider \<Rightarrow> writer \<Rightarrow> rounding \<Rightarrow> string \<Rightarrow> time \<Rightarrow> time \<Rightarrow> string \<Rightarrow> verdict \<Rightarrow> astore \<Rightarrow>
   response \<Rightarrow> astore world \<Rightarrow> bool" where
  "succeeds_as L p W n h now now2 fresh v a resp w' \<longleftrightarrow>
     rs_status resp = 200 \<longrightarrow> reaches L p W n h now now2 fresh v a resp w'"

lemma succeeds_as_error [simp]:
  "succeeds_as L p W n h now now2 fresh v a (writeOAuthError W 400 e d) w'"
  "succeeds_as L p W n h now now2 fresh v a (writeOAuthError W 500 e d) w'"
  by (simp_all add: succeeds_as_def)

lemma awp_replayed_safe:
  assumes "a_refresh (w_store w) h = Some rt" and "rt_ClientID rt = clientID"
    and "\<not> IsZero (rt_ConsumedAt rt)"
    and "v = judge p (a_refresh (w_store w)) (grace (w_mem w)) h clientID now"
  shows "awp False n E (replayedRefreshToken L p W rt h clientID now) w
    (succeeds_as L p W n h now now2 fresh v (w_store w))"
  using assms
  by (cases "fst (grace_recall h now (grace (w_mem w)))")
     (simp_all add: handler_defs Let_def judge_def in_window_def usable_def not_less not_le split: option.split,
       simp_all add: succeeds_as_def reaches_def)

lemma awp_issue_safe:
  assumes "fresh = b64url_encode (take 32 (w_rand w))" and "now2 = e_now E (w_tick w)"
  shows "awp False n E (issueTokenPair L p W prev c u f start) w
    (\<lambda>resp w'. rs_status resp = 200 \<longrightarrow> resp = writeTokenPair L p W u fresh now2 \<and>
       w_store w' = put_refresh (nrm_refresh n (issued_row p fresh c u f start now2)) (w_store w))"
  using assms by (auto simp: handler_defs rand_read_def split: option.split)

lemma awp_refresh_safe:
  assumes "fresh = b64url_encode (take 32 (w_rand w))"
    and "h = HashSecret (PostFormValue r ''refresh_token'')"
    and "now = e_now E (w_tick w)" and "now2 = e_now E (Suc (w_tick w))"
    and "v = judge p (a_refresh (w_store w)) (grace (w_mem w)) h (PostFormValue r ''client_id'') now"
    and sane: "sane_clock E"
  shows "awp False n E (refreshTokenGrant L p W r) w (succeeds_as L p W n h now now2 fresh v (w_store w))"
proof (cases "a_refresh (w_store w) h")
  case None
  then show ?thesis using assms by (simp add: refreshTokenGrant_def Let_def stamp_refresh_id)
next
  case (Some rt)
  consider (wrong) "rt_ClientID rt \<noteq> PostFormValue r ''client_id''"
    | (replay) "rt_ClientID rt = PostFormValue r ''client_id''" "\<not> IsZero (rt_ConsumedAt rt)"
    | (rotate) "rt_ClientID rt = PostFormValue r ''client_id''" "IsZero (rt_ConsumedAt rt)" by blast
  then show ?thesis
  proof cases
    case wrong
    then show ?thesis using assms Some by (simp add: refreshTokenGrant_def Let_def)
  next
    case replay
    let ?w = "w\<lparr>w_tick := Suc (w_tick w)\<rparr>"
    have "awp False n E (replayedRefreshToken L p W rt h (PostFormValue r ''client_id'') now) ?w
        (succeeds_as L p W n h now now2 fresh v (w_store ?w))"
      by (rule awp_replayed_safe) (use replay Some assms in simp_all)
    then show ?thesis
      using assms Some replay by (simp add: refreshTokenGrant_def Let_def stamp_refresh_id)
  next
    case rotate
    let ?w = "w\<lparr>w_tick := Suc (w_tick w), w_store := stamp_refresh h (r_refresh n now) (w_store w)\<rparr>"
    have issue: "awp False n E (issueTokenPair L p W h c u f start) ?w
        (succeeds_as L p W n h now now2 fresh (Rotate c u f start) (w_store w))" for c u f start
      by (rule awp_mono [OF awp_issue_safe]) (use assms in \<open>auto simp: succeeds_as_def reaches_def\<close>)
    have "awp False n E (rotate_first_use L p W rt h (PostFormValue r ''client_id'') now) ?w
        (succeeds_as L p W n h now now2 fresh v (w_store w))"
      using assms rotate Some issue
      by (auto simp: rotate_first_use_def judge_def Let_def family_start_def familyToRevoke_def not_less)
    then show ?thesis
      using assms Some rotate by (simp add: refreshTokenGrant_def Let_def)
  qed
qed

end
