(* ===== verification/Samples.thy ===== *)
theory Samples
  imports Access_Token Memstore Wp
begin

text \<open>
  A concrete deployment the properties are applied to: a configuration, a signing library that
  keeps its documented promises for one token, a clock that stands still, and stored rows. The
  hashes of secrets stay symbolic: no proof needs their digits.
\<close>

section \<open>The deployment\<close>

definition sample_config :: config where
  "sample_config = \<lparr>
     Issuer = ''https://as.example'', ResourceURL = ''https://mcp.example/mcp'',
     MetadataBaseURL = ''https://mcp.example'', GoogleClientID = ''gid'', GoogleClientSecret = ''gsecret'',
     GoogleRedirectURL = ''https://as.example/cb'', AuthorizeURL = ''https://as.example/authorize'',
     TokenURL = ''https://as.example/token'', RegisterURL = ''https://as.example/register'',
     JWTSecret = replicate 32 7, AccessTokenTTL = hour, RefreshTokenTTL = 720 * hour,
     AuthCodeTTL = minute, PendingAuthTTL = 10 * minute, RefreshTokenAbsoluteTTL = 2160 * hour,
     RefreshGracePeriod = 30 * second, UnusedClientTTL = 24 * hour, ClientTTL = 2184 * hour,
     PurgeInterval = 10 * minute, ConsentHandler = None, AllowedRedirectHosts = [],
     InsecureDevMode = False, VerifyStoreUserID = [], GoogleAuthURL = ''https://g.example/auth'',
     GoogleTokenURL = ''https://g.example/token'', GoogleJWKSURL = ''https://g.example/certs''\<rparr>"

definition sample_provider :: provider where
  "sample_provider = \<lparr>cfg = sample_config, signKey = replicate 32 9\<rparr>"

definition sample_now :: time where
  "sample_now = 63800000000 * second"

definition sample_env :: env where
  "sample_env = \<lparr>e_now = (\<lambda>_. sample_now), e_http = (\<lambda>_ _. Inl ''no network'')\<rparr>"

definition sample_claims :: access_claims where
  "sample_claims = access_claims_for sample_provider ''alice'' sample_now"

definition sample_parse :: "string \<Rightarrow> parse_options \<Rightarrow> time \<Rightarrow> (bool \<Rightarrow> byte list res) \<Rightarrow> access_claims res" where
  "sample_parse tok opts t kf =
     (if tok = ''token'' \<and> kf True = Inr (signKey sample_provider) \<and>
         po_Issuer opts = Some (at_Issuer sample_claims) \<and> po_Audience opts \<in> set (at_Audience sample_claims) \<and>
         at_NotBefore (jwt_claims sample_claims) \<le> t \<and> t < at_ExpiresAt (jwt_claims sample_claims)
      then Inr (jwt_claims sample_claims) else Inl ''token is malformed'')"

definition sample_lib :: lib where
  "sample_lib = \<lparr>
     jwt_sign = (\<lambda>c key. if c = sample_claims \<and> key = signKey sample_provider then Inr ''token'' else Inl ''no''),
     jwt_parse_access = sample_parse, jwt_kid = (\<lambda>_ _. Inl ''no key''),
     jwt_parse_google = (\<lambda>_ _ _ _. Inl ''no token''), map_pick = (\<lambda>_. 0),
     unicode_lower = (\<lambda>s. s), unicode_quote = (\<lambda>s. s)\<rparr>"

lemma sample_cfg [simp]:
  "AccessTokenTTL (cfg sample_provider) = hour" "RefreshTokenTTL (cfg sample_provider) = 720 * hour"
  "RefreshTokenAbsoluteTTL (cfg sample_provider) = 2160 * hour"
  "RefreshGracePeriod (cfg sample_provider) = 30 * second"
  by (simp_all add: sample_provider_def sample_config_def)

lemma sample_e_now [simp]: "e_now sample_env k = sample_now"
  by (simp add: sample_env_def)

lemma sample_now_late [simp]: "sample_now \<noteq> hour" "sample_now \<noteq> minute" "sample_now \<noteq> second" "sample_now \<noteq> 0"
  "clock_floor \<le> sample_now"
  by (simp_all add: sample_now_def)

lemma sample_sane: "sane_clock sample_env"
  by (simp add: sane_clock_def)

lemma jwt_library_sample: "jwt_library sample_lib"
  unfolding jwt_library_def
proof (intro conjI allI impI)
  fix c key tok t and opts :: parse_options and kf :: "bool \<Rightarrow> byte list res"
  assume "jwt_sign sample_lib c key = Inr tok" and "kf True = Inr key"
    and "po_Issuer opts = Some (at_Issuer c)" and "po_Audience opts \<in> set (at_Audience c)"
    and "trunc_second (at_NotBefore c) \<le> t" and "t < trunc_second (at_ExpiresAt c)"
  then show "jwt_parse_access sample_lib tok opts t kf = Inr (jwt_claims c)"
    by (auto simp: sample_lib_def sample_parse_def jwt_claims_def split: if_splits)
qed (auto simp: sample_lib_def sample_parse_def jwt_claims_def split: if_splits)

lemma sample_issue [simp]: "issueAccessToken sample_lib sample_provider ''alice'' sample_now = Inr ''token''"
  by (simp add: issueAccessToken_def sample_lib_def sample_claims_def)

section \<open>Rows and requests\<close>

definition sample_row :: "time \<Rightarrow> refresh_token" where
  "sample_row consumed = \<lparr>
     rt_TokenHash = HashSecret ''old'', rt_ClientID = ''app'', rt_UserID = ''alice'', rt_FamilyID = ''family'',
     rt_FamilyCreatedAt = sample_now - hour, rt_FamilyExpiresAt = sample_now + 2159 * hour,
     rt_ExpiresAt = sample_now + hour, rt_CreatedAt = sample_now - hour, rt_ConsumedAt = consumed\<rparr>"

lemma sample_row_simps [simp]:
  "rt_TokenHash (sample_row t) = HashSecret ''old''" "rt_ClientID (sample_row t) = ''app''"
  "rt_UserID (sample_row t) = ''alice''" "rt_FamilyID (sample_row t) = ''family''"
  "rt_FamilyCreatedAt (sample_row t) = sample_now - hour" "rt_ExpiresAt (sample_row t) = sample_now + hour"
  "rt_FamilyExpiresAt (sample_row t) = sample_now + 2159 * hour" "rt_ConsumedAt (sample_row t) = t"
  by (simp_all add: sample_row_def)

definition sample_code :: auth_code where
  "sample_code = \<lparr>
     ac_CodeHash = HashSecret ''code'', ac_ClientID = ''app'', ac_UserID = ''alice'',
     ac_RedirectURI = ''http://127.0.0.1/cb'', ac_CodeChallenge = b64url_encode (sha256 (bytes ''verifier'')),
     ac_ExpiresAt = sample_now + minute, ac_CreatedAt = sample_now\<rparr>"

lemma sample_code_simps [simp]:
  "ac_ClientID sample_code = ''app''" "ac_UserID sample_code = ''alice''"
  "ac_RedirectURI sample_code = ''http://127.0.0.1/cb''" "ac_ExpiresAt sample_code = sample_now + minute"
  "ac_CodeChallenge sample_code = b64url_encode (sha256 (bytes ''verifier''))"
  by (simp_all add: sample_code_def)

definition sample_store :: "time \<Rightarrow> memory_store" where
  "sample_store consumed = NewMemoryStore\<lparr>
     ms_codes := [(HashSecret ''code'', sample_code)],
     ms_refresh := [(HashSecret ''old'', sample_row consumed)]\<rparr>"

definition sample_world :: "time \<Rightarrow> memory_store world" where
  "sample_world consumed = \<lparr>w_store = sample_store consumed, w_mem = new_pmem,
     w_rand = replicate 64 1, w_tick = 0\<rparr>"

definition form_post :: "(string \<times> string) list \<Rightarrow> request" where
  "form_post kvs = \<lparr>rq_Method = ''POST'', rq_query = [], rq_body_len = 100, rq_form = Inr kvs,
     rq_json = (\<lambda>_. Inl ''not JSON''), rq_cookies = [], rq_authorization = []\<rparr>"

definition sample_refresh_request :: request where
  "sample_refresh_request = form_post
     [(''grant_type'', ''refresh_token''), (''refresh_token'', ''old''), (''client_id'', ''app'')]"

definition sample_code_request :: request where
  "sample_code_request = form_post
     [(''grant_type'', ''authorization_code''), (''code'', ''code''), (''client_id'', ''app''),
      (''redirect_uri'', ''http://127.0.0.1/cb''), (''code_verifier'', ''verifier'')]"

abbreviation sample_ops where "sample_ops \<equiv> mem_ops (\<lambda>s. s)"
abbreviation sample_abs where "sample_abs \<equiv> mem_abs (\<lambda>s. s)"

lemma sample_reliable: "reliable_store sample_ops sample_abs mem_inv exact"
  by (rule memr.reliable_store_axioms)

lemma sample_contract: "store_contract sample_ops sample_abs mem_inv exact"
  by (rule mem.store_contract_axioms)

text \<open>A request served by the sample deployment.\<close>

abbreviation sample_run :: "'a prog \<Rightarrow> memory_store world \<Rightarrow> 'a \<times> memory_store world" where
  "sample_run P w \<equiv> run sample_ops sample_env P w"

lemma sample_store_simps [simp]:
  "mem_inv (sample_store t)"
  "a_refresh (mem_abs ul (sample_store t)) = [HashSecret ''old'' \<mapsto> sample_row t]"
  "a_codes (mem_abs ul (sample_store t)) = [HashSecret ''code'' \<mapsto> sample_code]"
  by (simp_all add: sample_store_def mem_inv_def mem_abs_def NewMemoryStore_def)

lemma sample_world_simps [simp]:
  "w_store (sample_world t) = sample_store t" "w_mem (sample_world t) = new_pmem"
  "w_rand (sample_world t) = replicate 64 1" "w_tick (sample_world t) = 0"
  by (simp_all add: sample_world_def)

lemma form_post_simps [simp]:
  "rq_Method (form_post kvs) = ''POST''" "ParseForm default_form_limit (form_post kvs) = Inr ()"
  "PostFormValue (form_post kvs) k = values_get kvs k"
  by (simp_all add: form_post_def ParseForm_def PostFormValue_def default_form_limit_def)

section \<open>Two hashes\<close>

text \<open>The hash of the presented secret and that of the secret the sample random source gives differ.\<close>

definition sample_secret :: string where
  "sample_secret = b64url_encode (replicate 32 1)"

lemma sample_secret_text: "sample_secret = ''AQEBAQEBAQEBAQEBAQEBAQEBAQEBAQEBAQEBAQEBAQE''"
proof -
  have chars: "char_of (65::nat) = CHR ''A''" "char_of (81::nat) = CHR ''Q''" "char_of (69::nat) = CHR ''E''"
    "char_of (66::nat) = CHR ''B''"
    by code_simp+
  have three: "b64url_encode (1 # 1 # 1 # r) = ''AQEB'' @ b64url_encode r" for r
    by (simp add: Let_def b64url_char_def chars)
  have two: "b64url_encode [1, 1] = ''AQE''"
    by (simp add: Let_def b64url_char_def chars)
  have "replicate 32 (1 :: byte) =
      [1, 1, 1, 1, 1, 1, 1, 1, 1, 1, 1, 1, 1, 1, 1, 1, 1, 1, 1, 1, 1, 1, 1, 1, 1, 1, 1, 1, 1, 1, 1, 1]"
    by code_simp
  then show ?thesis by (simp add: sample_secret_def three two del: b64url_encode.simps)
qed

lemma sample_secret_digest: "hd (sha256 (bytes ''AQEBAQEBAQEBAQEBAQEBAQEBAQEBAQEBAQEBAQEBAQE'')) = 86"
  by code_simp

lemma old_digest: "hd (sha256 (bytes ''old'')) = 203"
  by code_simp

lemma sample_hashes [simp]:
  "HashSecret ''old'' \<noteq> HashSecret (b64url_encode (replicate 32 1))"
  "HashSecret (b64url_encode (replicate 32 1)) \<noteq> HashSecret ''old''"
proof -
  have "hd (hex_encode bs) = hex_digit (unat (hd bs) div 16)" if "bs \<noteq> []" for bs
    using that by (cases bs) (simp_all add: hex_encode_def)
  moreover have "sha256 m \<noteq> []" for m using length_sha256 [of m] by force
  ultimately have "hd (HashSecret s) = hex_digit (unat (hd (sha256 (bytes s))) div 16)" for s
    by (simp add: HashSecret_def)
  from this [of "''old''"] this [of sample_secret]
  have "hd (HashSecret ''old'') \<noteq> hd (HashSecret sample_secret)"
    by (simp add: old_digest sample_secret_text sample_secret_digest hex_digit_def)
  then show "HashSecret ''old'' \<noteq> HashSecret (b64url_encode (replicate 32 1))"
    "HashSecret (b64url_encode (replicate 32 1)) \<noteq> HashSecret ''old''"
    by (auto simp: sample_secret_def)
qed

lemma sample_code_nonempty [simp]: "b64url_encode (replicate 32 1) \<noteq> []"
  using sample_secret_text by (simp add: sample_secret_def)

end
