(* ===== verification/Token_Properties.thy ===== *)
theory Token_Properties
  imports Token_Spec Samples
begin

text \<open>
  The properties of the token endpoint run alone, for every store that keeps the contract.
  The endpoint is \<open>Token\<close> with all its guards; the lemmas before the properties carry the
  facts of \<open>Token_Spec\<close> from the two grants to it and from \<open>awp\<close> to \<open>run\<close>.
\<close>

section \<open>From the grants to the endpoint\<close>

definition well_formed_post :: "request \<Rightarrow> string \<Rightarrow> bool" where
  "well_formed_post r grant_type \<longleftrightarrow> rq_Method r = ''POST'' \<and> is_ok (ParseForm default_form_limit r) \<and>
     PostFormValue r ''grant_type'' = grant_type"

definition cors_writer :: "request \<Rightarrow> writer" where
  "cors_writer r = fst (allowCORS new_writer r ''POST'')"

lemma Token_cases:
  "Token L p r = authorizationCodeGrant L p (cors_writer r) r \<and> well_formed_post r ''authorization_code''
   \<or> Token L p r = refreshTokenGrant L p (cors_writer r) r \<and> well_formed_post r ''refresh_token''
   \<or> (\<exists>resp. Token L p r = Ret resp \<and> rs_status resp \<noteq> 200 \<and> rs_status resp \<noteq> 500
        \<and> \<not> well_formed_post r ''authorization_code'' \<and> \<not> well_formed_post r ''refresh_token'')"
  by (auto simp: Token_def well_formed_post_def cors_writer_def allowCORS_def Let_def is_ok_def finish_def
      split: sum.splits)

lemma Token_refresh: "well_formed_post r ''refresh_token'' \<Longrightarrow> Token L p r = refreshTokenGrant L p (cors_writer r) r"
  using Token_cases [of L p r] by (auto simp: well_formed_post_def)

lemma Token_code: "well_formed_post r ''authorization_code'' \<Longrightarrow> Token L p r = authorizationCodeGrant L p (cors_writer r) r"
  using Token_cases [of L p r] by (auto simp: well_formed_post_def)

text \<open>The hash a request presents, the verdict on it, and the outcome the verdict fixes.\<close>

definition presented :: "request \<Rightarrow> string" where
  "presented r = HashSecret (PostFormValue r ''refresh_token'')"

definition refresh_verdict :: "provider \<Rightarrow> env \<Rightarrow> request \<Rightarrow> astore world \<Rightarrow> verdict" where
  "refresh_verdict p E r w = judge p (a_refresh (w_store w)) (grace (w_mem w)) (presented r)
     (PostFormValue r ''client_id'') (e_now E (w_tick w))"

definition next_secret :: "'s world \<Rightarrow> string" where
  "next_secret w = b64url_encode (take 32 (w_rand w))"

definition outcome ::
  "lib \<Rightarrow> provider \<Rightarrow> rounding \<Rightarrow> env \<Rightarrow> request \<Rightarrow> astore world \<Rightarrow> verdict \<Rightarrow> response \<Rightarrow> astore \<Rightarrow> bool" where
  "outcome L p n E r w v resp a \<longleftrightarrow>
     (let now = e_now E (w_tick w); now2 = e_now E (Suc (w_tick w)); fresh = next_secret w
      in resp = verdict_response L p (cors_writer r) now now2 fresh v \<and>
         a = verdict_store n p (presented r) now now2 fresh v (w_store w))"

definition complete_refresh :: "request \<Rightarrow> bool" where
  "complete_refresh r \<longleftrightarrow> well_formed_post r ''refresh_token'' \<and>
     PostFormValue r ''refresh_token'' \<noteq> [] \<and> PostFormValue r ''client_id'' \<noteq> []"

lemma next_secret_aworld [simp]: "next_secret (aworld absf w) = next_secret w"
  by (simp add: next_secret_def)

lemma run_refresh_refines:
  assumes "reliable_store S absf I nrm" and "I (w_store w)" and "complete_refresh r"
    and "32 \<le> length (w_rand w)" and "run S E (Token L p r) w = (resp, w')" and "sane_clock E"
    and "rotating (refresh_verdict p E r (aworld absf w)) \<Longrightarrow>
      a_refresh (absf (w_store w)) (HashSecret (next_secret w)) = None"
  shows "outcome L p nrm E r (aworld absf w) (refresh_verdict p E r (aworld absf w)) resp (absf (w_store w'))"
proof -
  note c = reliable_store.axioms(1) [OF assms(1)]
  have "awp True nrm E (refreshTokenGrant L p (cors_writer r) r) (aworld absf w)
      (reaches L p (cors_writer r) nrm (presented r) (e_now E (w_tick (aworld absf w)))
        (e_now E (Suc (w_tick (aworld absf w)))) (next_secret (aworld absf w))
        (refresh_verdict p E r (aworld absf w)) (w_store (aworld absf w)))"
    by (rule awp_refresh_refines)
       (use assms(3,4,6,7) in \<open>simp_all add: complete_refresh_def presented_def next_secret_def refresh_verdict_def\<close>)
  from store_contract.run_awp [OF c _ assms(2) this] show ?thesis
    using assms(1,3,5)
    by (simp add: store_contract.reliable_if_def [OF c] Token_refresh complete_refresh_def outcome_def
        reaches_def Let_def)
qed

lemma run_refresh_safe:
  assumes "store_contract S absf I nrm" and "I (w_store w)" and "well_formed_post r ''refresh_token''"
    and "run S E (Token L p r) w = (resp, w')" and "rs_status resp = 200" and "sane_clock E"
  shows "outcome L p nrm E r (aworld absf w) (refresh_verdict p E r (aworld absf w)) resp (absf (w_store w'))"
proof -
  have "awp False nrm E (refreshTokenGrant L p (cors_writer r) r) (aworld absf w)
      (succeeds_as L p (cors_writer r) nrm (presented r) (e_now E (w_tick (aworld absf w)))
        (e_now E (Suc (w_tick (aworld absf w)))) (next_secret (aworld absf w))
        (refresh_verdict p E r (aworld absf w)) (w_store (aworld absf w)))"
    by (rule awp_refresh_safe) (use assms(6) in \<open>simp_all add: presented_def next_secret_def refresh_verdict_def\<close>)
  from store_contract.run_awp [OF assms(1) _ assms(2) this] show ?thesis
    using assms(3-5)
    by (simp add: store_contract.reliable_if_def [OF assms(1)] Token_refresh succeeds_as_def outcome_def
        reaches_def Let_def)
qed

lemma run_code_grant:
  assumes "store_contract S absf I nrm" and "I (w_store w)" and "well_formed_post r ''authorization_code''"
    and "run S E (Token L p r) w = (resp, w')"
  shows "code_grant_post L p (cors_writer r) nrm E r (aworld absf w) resp (aworld absf w')"
  using store_contract.run_awp [OF assms(1) _ assms(2) awp_code_grant [of nrm E L p "cors_writer r" r]] assms(4)
  by (simp add: store_contract.reliable_if_def [OF assms(1)] Token_code [OF assms(3)])

text \<open>A run that starts with the consumption of a code goes on with what that call answered.\<close>

lemma run_consume_code:
  assumes "store_contract S absf I nrm" and "I (w_store w)" and "run S E (ConsumeAuthCode h k) w = (resp, w')"
    and "\<And>a. a = del_code h (absf (w_store w)) \<or> \<not> is_ok (fst (op_ConsumeAuthCode S h (w_store w))) \<and> a = absf (w_store w) \<Longrightarrow>
      awp False nrm E (k (fst (op_ConsumeAuthCode S h (w_store w)))) ((aworld absf w)\<lparr>w_store := a\<rparr>) Q"
  shows "Q resp (aworld absf w')"
proof -
  obtain x s' where op: "op_ConsumeAuthCode S h (w_store w) = (x, s')" by force
  from store_contract.consume_code [OF assms(1,2) op]
  have s': "I s'" "absf s' = del_code h (absf (w_store w)) \<or> \<not> is_ok x \<and> absf s' = absf (w_store w)" by auto
  have "run S E (k x) (w\<lparr>w_store := s'\<rparr>) = (resp, w')" using assms(3) op by simp
  then show ?thesis
    using store_contract.run_awp [OF assms(1), of False "w\<lparr>w_store := s'\<rparr>" E "k x" Q] assms(4) [of "absf s'"] s' op
    by (simp add: store_contract.reliable_if_def [OF assms(1)])
qed

lemma run_code_consumed:
  assumes "store_contract S absf I nrm" and "I (w_store w)" and "well_formed_post r ''authorization_code''"
    and "code_request_complete r" and "run S E (Token L p r) w = (resp, w')"
    and "h = HashSecret (PostFormValue r ''code'')"
  shows "if is_ok (fst (op_ConsumeAuthCode S h (w_store w)))
    then a_codes (absf (w_store w')) = (a_codes (absf (w_store w)))(h := None)
    else rs_status resp = 500 \<and> (absf (w_store w') = absf (w_store w) \<or> absf (w_store w') = del_code h (absf (w_store w)))"
proof -
  obtain k where k: "Token L p r = ConsumeAuthCode h k"
    and failed: "\<And>e. \<exists>d. k (Inl e) = Ret (writeOAuthError (cors_writer r) 500 ''server_error'' d)"
    and rest: "\<And>x u. awp False nrm E (k (Inr x)) u (\<lambda>resp u'. a_codes (w_store u') = a_codes (w_store u))"
    using code_grant_first_call [OF assms(4,6), of L p "cors_writer r" nrm E] unfolding Token_code [OF assms(3)] by blast
  let ?x = "fst (op_ConsumeAuthCode S h (w_store w))"
  have run: "run S E (ConsumeAuthCode h k) w = (resp, w')" using assms(5) by (simp add: k)
  note consumed = run_consume_code [OF assms(1,2) run]
  show ?thesis
  proof (cases ?x)
    case (Inl e)
    obtain d where d: "k (Inl e) = Ret (writeOAuthError (cors_writer r) 500 ''server_error'' d)" using failed by blast
    have "(\<lambda>resp u. rs_status resp = 500 \<and> (w_store u = absf (w_store w) \<or> w_store u = del_code h (absf (w_store w))))
        resp (aworld absf w')"
      by (rule consumed) (auto simp: Inl d)
    with Inl show ?thesis by simp
  next
    case (Inr x)
    have "(\<lambda>resp u. a_codes (w_store u) = (a_codes (absf (w_store w)))(h := None)) resp (aworld absf w')"
    proof (rule consumed)
      fix b
      assume "b = del_code h (absf (w_store w)) \<or> \<not> is_ok ?x \<and> b = absf (w_store w)"
      then have "a_codes b = (a_codes (absf (w_store w)))(h := None)" using Inr by (auto simp: del_code_def)
      then show "awp False nrm E (k ?x) ((aworld absf w)\<lparr>w_store := b\<rparr>)
          (\<lambda>resp u. a_codes (w_store u) = (a_codes (absf (w_store w)))(h := None))"
        unfolding Inr using rest [of x "(aworld absf w)\<lparr>w_store := b\<rparr>"] by simp
    qed
    with Inr show ?thesis by simp
  qed
qed

lemma run_code_completes:
  assumes "reliable_store S absf I nrm" and "I (w_store w)" and "well_formed_post r ''authorization_code''"
    and "code_request_complete r" and "48 \<le> length (w_rand w)"
    and "a_refresh (absf (w_store w)) (HashSecret (b64url_encode (take 32 (drop 16 (w_rand w))))) = None"
    and "a_codes (absf (w_store w)) (HashSecret (PostFormValue r ''code'')) = Some ac"
    and "code_matches ac (PostFormValue r ''client_id'') (PostFormValue r ''redirect_uri'')
      (PostFormValue r ''code_verifier'') (e_now E (w_tick w))"
    and "run S E (Token L p r) w = (resp, w')"
  shows "pair_issued L p (cors_writer r) nrm E (aworld absf w) (HashSecret (PostFormValue r ''code'')) ac resp
    (absf (w_store w'))"
proof -
  note c = reliable_store.axioms(1) [OF assms(1)]
  have "awp True nrm E (authorizationCodeGrant L p (cors_writer r) r) (aworld absf w) (\<lambda>resp w'.
      pair_issued L p (cors_writer r) nrm E (aworld absf w) (HashSecret (PostFormValue r ''code'')) ac resp (w_store w'))"
    by (rule awp_code_grant_completes) (use assms in simp_all)
  from store_contract.run_awp [OF c _ assms(2) this] show ?thesis
    using assms(1,9) by (simp add: store_contract.reliable_if_def [OF c] Token_code [OF assms(3)])
qed

lemma run_wrong_client:
  assumes "store_contract S absf I nrm" and "I (w_store w)" and "well_formed_post r ''refresh_token''"
    and "a_refresh (absf (w_store w)) (presented r) = Some rt" and "rt_ClientID rt \<noteq> PostFormValue r ''client_id''"
    and "run S E (Token L p r) w = (resp, w')"
  shows "rs_status resp \<noteq> 200 \<and> absf (w_store w') = absf (w_store w) \<and> w_mem w' = w_mem w"
proof -
  have "awp False nrm E (refreshTokenGrant L p (cors_writer r) r) (aworld absf w) (\<lambda>resp w'.
      rs_status resp \<noteq> 200 \<and> w_store w' = w_store (aworld absf w) \<and> w_mem w' = w_mem (aworld absf w))"
    by (rule awp_wrong_client [where rt = rt]) (use assms(4,5) in \<open>simp_all add: presented_def\<close>)
  from store_contract.run_awp [OF assms(1) _ assms(2) this] show ?thesis
    using assms(6) by (simp add: store_contract.reliable_if_def [OF assms(1)] Token_refresh [OF assms(3)])
qed

section \<open>What each verdict says of the presented row\<close>

lemma judge_rotate:
  "judge p T g h c now = Rotate c' u f start \<longleftrightarrow>
     (\<exists>rt. T h = Some rt \<and> rt_ClientID rt = c \<and> IsZero (rt_ConsumedAt rt) \<and> now < rt_ExpiresAt rt \<and>
        start = family_start rt \<and> \<not> IsZero start \<and> now < start + RefreshTokenAbsoluteTTL (cfg p) \<and>
        c' = rt_ClientID rt \<and> u = rt_UserID rt \<and> f = familyToRevoke rt h)"
  by (auto simp: judge_def not_le split: option.split)

lemma judge_same:
  "judge p T g h c now = SameSuccessor s u \<longleftrightarrow>
     (\<exists>rt. T h = Some rt \<and> rt_ClientID rt = c \<and> \<not> IsZero (rt_ConsumedAt rt) \<and> in_window p rt now \<and>
        fst (grace_recall h now g) = Some s \<and> s \<noteq> [] \<and> usable (T (HashSecret s)) now \<and> u = rt_UserID rt)"
  by (auto simp: judge_def split: option.split)

lemma judge_reuse:
  assumes "T h = Some rt" and "rt_ClientID rt = c" and "\<not> IsZero (rt_ConsumedAt rt)" and "\<not> in_window p rt now"
  shows "judge p T g h c now = Reuse (familyToRevoke rt h)"
  using assms by (simp add: judge_def)

lemma verdict_200:
  "rs_status (verdict_response L p W now now2 fresh v) = 200 \<Longrightarrow>
     (\<exists>s u. v = SameSuccessor s u) \<or> (\<exists>c u f start. v = Rotate c u f start)"
  by (cases v) auto

section \<open>The sample deployment\<close>

lemma sample_complete [simp]: "complete_refresh sample_refresh_request"
  "well_formed_post sample_refresh_request ''refresh_token''"
  by (simp_all add: complete_refresh_def well_formed_post_def sample_refresh_request_def values_get_def)

lemma sample_presented [simp]: "presented sample_refresh_request = HashSecret ''old''"
  "PostFormValue sample_refresh_request ''client_id'' = ''app''"
  by (simp_all add: presented_def sample_refresh_request_def values_get_def)

abbreviation sample_refresh :: "response prog" where
  "sample_refresh \<equiv> Token sample_lib sample_provider sample_refresh_request"

lemma sample_rotates: "refresh_verdict sample_provider sample_env sample_refresh_request
    (aworld (mem_abs ul) (sample_world 0)) = Rotate ''app'' ''alice'' ''family'' (sample_now - hour)"
  by (simp add: refresh_verdict_def judge_rotate family_start_def familyToRevoke_def)

lemma sample_refresh_result:
  "fst (sample_run sample_refresh (sample_world 0)) = writeTokenPair sample_lib sample_provider
     (cors_writer sample_refresh_request) ''alice'' (next_secret (sample_world 0)) sample_now"
  using run_refresh_refines [OF sample_reliable _ sample_complete(1) _ surjective_pairing sample_sane,
    where w = "sample_world 0" and L = sample_lib and p = sample_provider]
  by (simp add: sample_rotates outcome_def Let_def next_secret_def)

lemma sample_next_secret [simp]: "next_secret (sample_world t) = b64url_encode (replicate 32 1)"
  by (simp add: next_secret_def)

lemma sample_refresh_200: "rs_status (fst (sample_run sample_refresh (sample_world 0))) = 200"
  by (simp add: sample_refresh_result)

abbreviation sample_exchange :: "response prog" where
  "sample_exchange \<equiv> Token sample_lib sample_provider sample_code_request"

lemma sample_code_complete [simp]: "code_request_complete sample_code_request"
  "well_formed_post sample_code_request ''authorization_code''"
  by (simp_all add: code_request_complete_def well_formed_post_def sample_code_request_def values_get_def)

lemma sample_code_form [simp]:
  "PostFormValue sample_code_request ''code'' = ''code''"
  "PostFormValue sample_code_request ''client_id'' = ''app''"
  "PostFormValue sample_code_request ''redirect_uri'' = ''http://127.0.0.1/cb''"
  "PostFormValue sample_code_request ''code_verifier'' = ''verifier''"
  by (simp_all add: sample_code_request_def values_get_def)

lemma sample_challenge_nonempty: "b64url_encode (sha256 bs) \<noteq> []"
  using length_b64url_encode [of "sha256 bs"] by force

lemma sample_code_matches [simp]:
  "code_matches sample_code ''app'' ''http://127.0.0.1/cb'' ''verifier'' sample_now"
  by (simp add: code_matches_def verifyPKCE_def ConstantTimeCompare_def sample_challenge_nonempty)

lemma sample_exchange_200: "rs_status (fst (sample_run sample_exchange (sample_world 0))) = 200"
  using run_code_completes [OF sample_reliable _ sample_code_complete(2,1) _ _ _ _ surjective_pairing,
    where w = "sample_world 0" and E = sample_env and L = sample_lib and p = sample_provider and ac = sample_code]
  by (simp add: pair_issued_def Let_def)

definition sample_stolen_request :: request where
  "sample_stolen_request = form_post
     [(''grant_type'', ''refresh_token''), (''refresh_token'', ''old''), (''client_id'', ''other'')]"

lemma sample_stolen [simp]: "well_formed_post sample_stolen_request ''refresh_token''"
  "presented sample_stolen_request = HashSecret ''old''"
  "PostFormValue sample_stolen_request ''client_id'' = ''other''"
  by (simp_all add: well_formed_post_def presented_def sample_stolen_request_def values_get_def)

lemma sample_reuse: "refresh_verdict sample_provider sample_env sample_refresh_request
    (aworld (mem_abs ul) (sample_world (sample_now - minute))) = Reuse ''family''"
  by (simp add: refresh_verdict_def judge_def familyToRevoke_def in_window_def)

section \<open>Properties\<close>

text \<open>
  C2. A complete refresh request, run against any store that keeps the contract and does not
  fail, has exactly the response and the effect on the tables that the verdict on the
  presented token fixes.
\<close>

theorem refresh_grant_refines_verdict:
  assumes "reliable_store S absf I nrm" and "I (w_store w)" and "complete_refresh r"
    and "32 \<le> length (w_rand w)" and "run S E (Token L p r) w = (resp, w')" and "sane_clock E"
    and "a_refresh (absf (w_store w)) (HashSecret (next_secret w)) = None"
  shows "outcome L p nrm E r (aworld absf w) (refresh_verdict p E r (aworld absf w)) resp (absf (w_store w'))"
  by (rule run_refresh_refines [OF assms])

theorem refresh_grant_refines_verdict_witness:
  "outcome sample_lib sample_provider exact sample_env sample_refresh_request
     (aworld sample_abs (sample_world 0)) (Rotate ''app'' ''alice'' ''family'' (sample_now - hour))
     (fst (sample_run sample_refresh (sample_world 0)))
     (sample_abs (w_store (snd (sample_run sample_refresh (sample_world 0)))))"
  using refresh_grant_refines_verdict [OF sample_reliable _ sample_complete(1) _ surjective_pairing sample_sane,
    where w = "sample_world 0" and L = sample_lib and p = sample_provider]
  by (simp add: sample_rotates)

text \<open>
  C3. A refresh request that any store that keeps the contract, failing calls included,
  answers 200 either rotated an unconsumed, unexpired row of the presenting client within the
  family's cap, consuming it and adding exactly the successor row, or repeated inside the
  grace window the one successor already issued and changed no table.
\<close>

theorem refresh_success_sound:
  assumes "store_contract S absf I nrm" and "I (w_store w)" and "well_formed_post r ''refresh_token''"
    and "run S E (Token L p r) w = (resp, w')" and "rs_status resp = 200" and "sane_clock E"
  shows "\<exists>rt. a_refresh (absf (w_store w)) (presented r) = Some rt \<and> rt_ClientID rt = PostFormValue r ''client_id'' \<and>
    (let now = e_now E (w_tick w); now2 = e_now E (Suc (w_tick w)) in
      (IsZero (rt_ConsumedAt rt) \<and> now < rt_ExpiresAt rt \<and>
       now < family_start rt + RefreshTokenAbsoluteTTL (cfg p) \<and>
       resp = writeTokenPair L p (cors_writer r) (rt_UserID rt) (next_secret w) now2 \<and>
       absf (w_store w') = put_refresh (nrm_refresh nrm (issued_row p (next_secret w) (rt_ClientID rt)
           (rt_UserID rt) (familyToRevoke rt (presented r)) (family_start rt) now2))
         (stamp_refresh (presented r) (r_refresh nrm now) (absf (w_store w))))
      \<or> (\<not> IsZero (rt_ConsumedAt rt) \<and> in_window p rt now \<and> absf (w_store w') = absf (w_store w) \<and>
         (\<exists>s. fst (grace_recall (presented r) now (grace (w_mem w))) = Some s \<and>
            usable (a_refresh (absf (w_store w)) (HashSecret s)) now \<and>
            resp = writeTokenPair L p (cors_writer r) (rt_UserID rt) s now)))"
proof -
  let ?v = "refresh_verdict p E r (aworld absf w)"
  have o: "outcome L p nrm E r (aworld absf w) ?v resp (absf (w_store w'))"
    by (rule run_refresh_safe [OF assms])
  then have "rs_status (verdict_response L p (cors_writer r) (e_now E (w_tick w)) (e_now E (Suc (w_tick w)))
      (next_secret w) ?v) = 200"
    using assms(5) by (simp add: outcome_def Let_def)
  from verdict_200 [OF this]
  consider (same) s u where "?v = SameSuccessor s u" | (rotate) c u f start where "?v = Rotate c u f start"
    by blast
  then show ?thesis
  proof cases
    case same
    with o have "resp = writeTokenPair L p (cors_writer r) u s (e_now E (w_tick w))"
      and "absf (w_store w') = absf (w_store w)" by (simp_all add: outcome_def Let_def)
    with same show ?thesis by (auto simp: refresh_verdict_def judge_same)
  next
    case rotate
    with o have "resp = writeTokenPair L p (cors_writer r) u (next_secret w) (e_now E (Suc (w_tick w)))"
      and "absf (w_store w') = put_refresh (nrm_refresh nrm (issued_row p (next_secret w) c u f start
             (e_now E (Suc (w_tick w))))) (stamp_refresh (presented r) (r_refresh nrm (e_now E (w_tick w))) (absf (w_store w)))"
      by (simp_all add: outcome_def Let_def)
    with rotate show ?thesis by (auto simp: refresh_verdict_def judge_rotate)
  qed
qed

theorem refresh_success_sound_witness:
  "\<exists>rt. rt_ClientID rt = ''app'' \<and>
     a_refresh (sample_abs (sample_store 0)) (HashSecret ''old'') = Some rt \<and> IsZero (rt_ConsumedAt rt) \<and>
     fst (sample_run sample_refresh (sample_world 0))
       = writeTokenPair sample_lib sample_provider (cors_writer sample_refresh_request) ''alice''
           (next_secret (sample_world 0)) sample_now"
  using refresh_success_sound [OF sample_contract _ sample_complete(2) surjective_pairing sample_refresh_200 sample_sane]
  by auto

text \<open>
  C4. A replay outside the grace window revokes: the answer is \<open>invalid_grant\<close>, no row of the
  token's family is left, and every row of another family, every code, pending authorization
  and client stays as it was.
\<close>

theorem replay_revokes_family:
  assumes "reliable_store S absf I nrm" and "I (w_store w)" and "complete_refresh r"
    and "32 \<le> length (w_rand w)" and "run S E (Token L p r) w = (resp, w')" and "sane_clock E"
    and "a_refresh (absf (w_store w)) (presented r) = Some rt"
    and "rt_ClientID rt = PostFormValue r ''client_id''" and "\<not> IsZero (rt_ConsumedAt rt)"
    and "\<not> in_window p rt (e_now E (w_tick w))"
  shows "resp = writeOAuthError (cors_writer r) 400 ''invalid_grant'' reuse_message \<and>
    (\<forall>k row. a_refresh (absf (w_store w')) k = Some row \<longleftrightarrow>
       a_refresh (absf (w_store w)) k = Some row \<and> rt_FamilyID row \<noteq> familyToRevoke rt (presented r)) \<and>
    a_codes (absf (w_store w')) = a_codes (absf (w_store w)) \<and>
    a_pending (absf (w_store w')) = a_pending (absf (w_store w)) \<and>
    a_clients (absf (w_store w')) = a_clients (absf (w_store w))"
proof -
  have "refresh_verdict p E r (aworld absf w) = Reuse (familyToRevoke rt (presented r))"
    unfolding refresh_verdict_def by (rule judge_reuse) (use assms(7-10) in simp_all)
  with run_refresh_refines [OF assms(1-6)]
  have "resp = writeOAuthError (cors_writer r) 400 ''invalid_grant'' reuse_message"
    and "absf (w_store w') = revoke_family (familyToRevoke rt (presented r)) (absf (w_store w))"
    by (simp_all add: outcome_def Let_def)
  moreover have "familyToRevoke rt (presented r) \<noteq> []" by (simp add: presented_def)
  ultimately show ?thesis by (simp add: revoke_family_def)
qed

theorem replay_revokes_family_witness:
  "a_refresh (sample_abs (w_store (snd (sample_run sample_refresh (sample_world (sample_now - minute))))))
     (HashSecret ''old'') \<noteq> Some (sample_row (sample_now - minute))"
  using replay_revokes_family [OF sample_reliable _ sample_complete(1) _ surjective_pairing sample_sane,
    where w = "sample_world (sample_now - minute)" and L = sample_lib and p = sample_provider
      and rt = "sample_row (sample_now - minute)"]
  by (auto simp: in_window_def familyToRevoke_def)

text \<open>
  C5. A code exchange that any store that keeps the contract answers 200 presented a stored,
  unexpired code with its client, its redirect URI and a verifier of its challenge; it removed
  exactly that code and added exactly the row of the returned refresh token, in a new family.
\<close>

theorem code_success_sound:
  assumes "store_contract S absf I nrm" and "I (w_store w)" and "well_formed_post r ''authorization_code''"
    and "run S E (Token L p r) w = (resp, w')" and "rs_status resp = 200"
  shows "\<exists>ac. a_codes (absf (w_store w)) (HashSecret (PostFormValue r ''code'')) = Some ac \<and>
    code_matches ac (PostFormValue r ''client_id'') (PostFormValue r ''redirect_uri'')
      (PostFormValue r ''code_verifier'') (e_now E (w_tick w)) \<and>
    pair_issued L p (cors_writer r) nrm E (aworld absf w) (HashSecret (PostFormValue r ''code'')) ac resp
      (absf (w_store w'))"
  using run_code_grant [OF assms(1-4)] assms(5) by (simp add: code_grant_post_def Let_def)

theorem code_success_sound_witness:
  "\<exists>ac. a_codes (sample_abs (sample_store 0)) (HashSecret ''code'') = Some ac \<and>
     code_matches ac ''app'' ''http://127.0.0.1/cb'' ''verifier'' sample_now"
  using code_success_sound [OF sample_contract _ sample_code_complete(2) surjective_pairing sample_exchange_200]
  by auto

text \<open>
  C15. A code is spent by the first complete request that presents it and whose call of the store
  does not fail: from then on the code is not in the store and every other code is as it was,
  whatever the answer, right, wrong or a later error of the server (random source, save of the
  refresh token, signing). If that call failed, the answer is 500 and nothing but the presented
  code can be gone. And an exchange that was refused added no refresh token.
\<close>

theorem code_burned:
  assumes "store_contract S absf I nrm" and "I (w_store w)" and "well_formed_post r ''authorization_code''"
    and "code_request_complete r" and "run S E (Token L p r) w = (resp, w')"
    and "h = HashSecret (PostFormValue r ''code'')" and "a = absf (w_store w)" and "a' = absf (w_store w')"
  shows "(is_ok (fst (op_ConsumeAuthCode S h (w_store w))) \<longrightarrow> a_codes a' = (a_codes a)(h := None)) \<and>
    (\<not> is_ok (fst (op_ConsumeAuthCode S h (w_store w))) \<longrightarrow> rs_status resp = 500 \<and> a_refresh a' = a_refresh a \<and>
       (a_codes a' = a_codes a \<or> a_codes a' = (a_codes a)(h := None))) \<and>
    (rs_status resp = 200 \<or> rs_status resp = 500 \<or> a_refresh a' = a_refresh a)"
  using run_code_consumed [OF assms(1-6)] run_code_grant [OF assms(1-3,5)]
  by (auto simp: code_grant_post_def Let_def del_code_def assms(7,8) split: if_splits)

text \<open>The exchange whose code is gone, and one that fails for want of random bytes after the code was consumed.\<close>

theorem code_burned_witness:
  "a_codes (sample_abs (w_store (snd (sample_run sample_exchange (sample_world 0))))) (HashSecret ''code'') = None \<and>
   a_codes (sample_abs (w_store (snd (sample_run sample_exchange ((sample_world 0)\<lparr>w_rand := []\<rparr>))))) (HashSecret ''code'') = None"
  using code_burned [OF sample_contract _ sample_code_complete(2,1) surjective_pairing refl refl refl,
    where w = "sample_world 0" and L = sample_lib and p = sample_provider and E = sample_env]
   code_burned [OF sample_contract _ sample_code_complete(2,1) surjective_pairing refl refl refl,
    where w = "(sample_world 0)\<lparr>w_rand := []\<rparr>" and L = sample_lib and p = sample_provider and E = sample_env]
  by (simp add: mem_ops_def store_defs)

text \<open>
  C16. When nothing fails, a complete request with a matching code is answered 200 with a bearer
  token pair: the access token is what the JWT library signed with the provider's key for the
  code's user, this issuer and this resource, with the lifetime of an access token; the refresh
  token is a fresh secret of 32 random bytes. The code is gone, and the one row added under the
  refresh token's hash is unconsumed and carries the code's client and user, a fresh family that
  starts now, and an expiry that is the earlier of the token's lifetime and the family's cap (as
  the backend rounds instants); nothing else changed.
\<close>

theorem code_exchange_completes:
  assumes "reliable_store S absf I nrm" and "I (w_store w)" and "well_formed_post r ''authorization_code''"
    and "code_request_complete r" and "48 \<le> length (w_rand w)"
    and "family = b64url_encode (take 16 (w_rand w))" and "refresh = b64url_encode (take 32 (drop 16 (w_rand w)))"
    and "start = e_now E (Suc (w_tick w))" and "issued = e_now E (Suc (Suc (w_tick w)))"
    and "a = absf (w_store w)" and "a' = absf (w_store w')" and "h = HashSecret (PostFormValue r ''code'')"
    and "a_refresh a (HashSecret refresh) = None" and "a_codes a h = Some ac"
    and "code_matches ac (PostFormValue r ''client_id'') (PostFormValue r ''redirect_uri'')
      (PostFormValue r ''code_verifier'') (e_now E (w_tick w))"
    and "run S E (Token L p r) w = (resp, w')"
    and "jwt_sign L \<lparr>at_Scope = ''openid email profile'', at_TokenUse = ''mcp_access'', at_Issuer = Issuer (cfg p),
      at_Subject = ac_UserID ac, at_Audience = [ResourceURL (cfg p)], at_IssuedAt = issued, at_NotBefore = issued,
      at_ExpiresAt = issued + AccessTokenTTL (cfg p)\<rparr> (signKey p) = Inr access"
  shows "rs_status resp = 200 \<and> map_of (rs_headers resp) ''Cache-Control'' = Some ''no-store'' \<and>
    rs_body resp = TokenBody \<lparr>tr_AccessToken = access, tr_TokenType = ''Bearer'',
      tr_ExpiresIn = duration_seconds (AccessTokenTTL (cfg p)), tr_RefreshToken = refresh,
      tr_Scope = ''openid email profile''\<rparr> \<and>
    a_codes a' = (a_codes a)(h := None) \<and> a_clients a' = a_clients a \<and> a_pending a' = a_pending a \<and> a_users a' = a_users a \<and>
    (\<exists>row. a_refresh a' = (a_refresh a)(HashSecret refresh \<mapsto> row) \<and> rt_TokenHash row = HashSecret refresh \<and>
       rt_ClientID row = ac_ClientID ac \<and> rt_UserID row = ac_UserID ac \<and> rt_FamilyID row = family \<and>
       rt_FamilyCreatedAt row = r_refresh nrm start \<and>
       rt_FamilyExpiresAt row = r_refresh nrm (start + RefreshTokenAbsoluteTTL (cfg p)) \<and>
       rt_ExpiresAt row = r_refresh nrm (min (issued + RefreshTokenTTL (cfg p)) (start + RefreshTokenAbsoluteTTL (cfg p))) \<and>
       rt_CreatedAt row = r_refresh nrm issued \<and> IsZero (rt_ConsumedAt row))"
proof -
  have zero: "r_refresh nrm 0 = 0" using store_contract.nrm_zero [OF reliable_store.axioms(1) [OF assms(1)]] .
  have access: "issueAccessToken L p (ac_UserID ac) issued = Inr access"
    using assms(17) by (simp add: issueAccessToken_def access_claims_for_def GrantedScope_def TokenUseMCPAccess_def)
  let ?row = "nrm_refresh nrm (issued_row p refresh (ac_ClientID ac) (ac_UserID ac) family start issued)"
  have pair: "resp = writeTokenPair L p (cors_writer r) (ac_UserID ac) refresh issued" "a' = put_refresh ?row (del_code h a)"
    using run_code_completes [OF assms(1-5) _ _ assms(15,16)] assms(6-14) by (simp_all add: pair_issued_def Let_def)
  have "map_of (rs_headers resp) ''Cache-Control'' = Some ''no-store''"
    by (simp add: pair(1) writeTokenPair_def access writeJSON_no_store)
  moreover have "rs_status resp = 200 \<and> rs_body resp = TokenBody \<lparr>tr_AccessToken = access, tr_TokenType = ''Bearer'',
      tr_ExpiresIn = duration_seconds (AccessTokenTTL (cfg p)), tr_RefreshToken = refresh,
      tr_Scope = ''openid email profile''\<rparr>"
    using access by (simp add: pair(1) body_writeTokenPair GrantedScope_def)
  ultimately show ?thesis
    using zero
    by (simp only: pair(2), intro conjI exI [of _ ?row]) (simp_all add: put_refresh_def del_code_def nrm_refresh_def)
qed

theorem code_exchange_completes_witness:
  "\<exists>row. rs_body (fst (sample_run sample_exchange (sample_world 0))) = TokenBody \<lparr>tr_AccessToken = ''token'',
     tr_TokenType = ''Bearer'', tr_ExpiresIn = 3600, tr_RefreshToken = b64url_encode (replicate 32 1),
     tr_Scope = ''openid email profile''\<rparr> \<and>
   a_refresh (sample_abs (w_store (snd (sample_run sample_exchange (sample_world 0)))))
     (HashSecret (b64url_encode (replicate 32 1))) = Some row \<and> rt_ClientID row = ''app'' \<and> rt_UserID row = ''alice'' \<and>
     rt_ExpiresAt row = sample_now + 720 * hour"
proof -
  have sign: "jwt_sign sample_lib \<lparr>at_Scope = ''openid email profile'', at_TokenUse = ''mcp_access'',
      at_Issuer = Issuer (cfg sample_provider), at_Subject = ac_UserID sample_code,
      at_Audience = [ResourceURL (cfg sample_provider)], at_IssuedAt = sample_now, at_NotBefore = sample_now,
      at_ExpiresAt = sample_now + AccessTokenTTL (cfg sample_provider)\<rparr> (signKey sample_provider) = Inr ''token''"
    by (simp add: sample_lib_def sample_claims_def access_claims_for_def GrantedScope_def TokenUseMCPAccess_def)
  show ?thesis
    using code_exchange_completes [OF sample_reliable _ sample_code_complete(2,1) _ refl refl refl refl refl refl refl _ _ _ surjective_pairing,
      where w = "sample_world 0" and E = sample_env and L = sample_lib and p = sample_provider and ac = sample_code] sign
    by (auto simp: duration_seconds_def)
qed

text \<open>
  A refresh token presented by a client it was not issued to is refused before anything is
  consumed or revoked: whatever the store's calls answer, the tables and the provider's memory
  stay as they were.
\<close>

theorem wrong_client_changes_nothing:
  assumes "store_contract S absf I nrm" and "I (w_store w)" and "well_formed_post r ''refresh_token''"
    and "a_refresh (absf (w_store w)) (presented r) = Some rt" and "rt_ClientID rt \<noteq> PostFormValue r ''client_id''"
    and "run S E (Token L p r) w = (resp, w')"
  shows "rs_status resp \<noteq> 200 \<and> absf (w_store w') = absf (w_store w) \<and> w_mem w' = w_mem w"
  by (rule run_wrong_client [OF assms])

theorem wrong_client_changes_nothing_witness:
  "sample_abs (w_store (snd (sample_run (Token sample_lib sample_provider sample_stolen_request) (sample_world 0))))
     = sample_abs (sample_store 0)"
  using wrong_client_changes_nothing [OF sample_contract _ sample_stolen(1) _ _ surjective_pairing,
    where w = "sample_world 0" and L = sample_lib and p = sample_provider
      and rt = "sample_row 0"]
  by simp

end
