(* ===== verification/Go_Url.thy ===== *)
theory Go_Url
  imports Go_Strings "HOL-Library.Char_ord" "HOL-Library.List_Lexorder"
begin

text \<open>
  \<open>net/url\<close> and the part of \<open>net\<close> the program uses, as the standard library of the
  module's language version (\<open>go 1.23\<close>) defines them: \<open>url.Parse\<close>, \<open>URL.String\<close>,
  \<open>Hostname\<close>, query strings, and \<open>net.ParseIP\<close> with \<open>IsLoopback\<close>.
\<close>

section \<open>Percent-encoding\<close>

datatype encoding = encodePath | encodeHost | encodeZone | encodeUserPassword | encodeQueryComponent | encodeFragment

definition shouldEscape :: "char \<Rightarrow> encoding \<Rightarrow> bool" where
  "shouldEscape c mode =
     (if is_alpha c \<or> is_digit c then False
      else if (mode = encodeHost \<or> mode = encodeZone) \<and>
        c \<in> set (''!$&()*+,;=:[]<>'' @ [CHR 0x22, CHR 0x27]) then False
      else if c \<in> set ''-_.~'' then False
      else if c \<in> set ''$&+,/:;=?@'' \<and> mode = encodePath then c = CHR ''?''
      else if c \<in> set ''$&+,/:;=?@'' \<and> mode = encodeUserPassword then c \<in> set ''@/?:''
      else if c \<in> set ''$&+,/:;=?@'' \<and> mode = encodeFragment then False
      else if mode = encodeFragment \<and> c \<in> set ''!()*'' then False
      else True)"

definition upper_hex :: "nat \<Rightarrow> char" where
  "upper_hex n = (if n < 10 then char_of (48 + n) else char_of (55 + n))"

definition pct :: "char \<Rightarrow> string" where
  "pct c = [CHR ''%'', upper_hex (ord c div 16), upper_hex (ord c mod 16)]"

definition escape_char :: "encoding \<Rightarrow> char \<Rightarrow> string" where
  "escape_char mode c =
     (if \<not> shouldEscape c mode then [c]
      else if c = CHR '' '' \<and> mode = encodeQueryComponent then [CHR ''+'']
      else pct c)"

definition escape :: "string \<Rightarrow> encoding \<Rightarrow> string" where
  "escape s mode = concat (map (escape_char mode) s)"

definition unhex :: "char \<Rightarrow> nat option" where
  "unhex c =
     (if is_digit c then Some (ord c - 48)
      else if in_range CHR ''a'' CHR ''f'' c then Some (ord c - 87)
      else if in_range CHR ''A'' CHR ''F'' c then Some (ord c - 55)
      else None)"

definition EscapeError :: "string \<Rightarrow> go_error" where
  "EscapeError s = ''invalid URL escape '' @ s"

definition pct_ok :: "encoding \<Rightarrow> nat \<Rightarrow> nat \<Rightarrow> bool" where
  \<comment> \<open>which well-formed escapes a mode admits\<close>
  "pct_ok mode h l =
     (if mode = encodeHost \<and> h < 8 \<and> (h, l) \<noteq> (2, 5) then False
      else if mode = encodeZone \<and> (h, l) \<noteq> (2, 5) \<and> h * 16 + l \<noteq> 32 \<and>
              shouldEscape (char_of (h * 16 + l)) encodeHost then False
      else True)"

fun unescape :: "string \<Rightarrow> encoding \<Rightarrow> string res" where
  "unescape [] mode = Inr []"
| "unescape (c # cs) mode =
     (if c = CHR ''%'' then
        (case cs of
           x # y # rest \<Rightarrow>
             (case (unhex x, unhex y) of
                (Some h, Some l) \<Rightarrow>
                  if \<not> pct_ok mode h l then Inl (EscapeError [c, x, y])
                  else (case unescape rest mode of Inl e \<Rightarrow> Inl e | Inr s \<Rightarrow> Inr (char_of (h * 16 + l) # s))
              | _ \<Rightarrow> Inl (EscapeError [c, x, y]))
         | _ \<Rightarrow> Inl (EscapeError (c # cs)))
      else if c = CHR ''+'' \<and> mode = encodeQueryComponent then
        (case unescape cs mode of Inl e \<Rightarrow> Inl e | Inr s \<Rightarrow> Inr (CHR '' '' # s))
      else if (mode = encodeHost \<or> mode = encodeZone) \<and> ord c < 128 \<and> shouldEscape c mode then
        Inl ''invalid character in host name''
      else (case unescape cs mode of Inl e \<Rightarrow> Inl e | Inr s \<Rightarrow> Inr (c # s)))"

section \<open>URLs\<close>

text \<open>\<open>u_User\<close> keeps only whether userinfo was present and its decoded parts.\<close>

record url =
  u_Scheme :: string
  u_Opaque :: string
  u_User :: "(string \<times> string option) option"
  u_Host :: string
  u_Path :: string
  u_RawPath :: string
  u_OmitHost :: bool
  u_ForceQuery :: bool
  u_RawQuery :: string
  u_Fragment :: string

definition empty_url :: url where
  "empty_url = \<lparr>u_Scheme = [], u_Opaque = [], u_User = None, u_Host = [], u_Path = [], u_RawPath = [],
     u_OmitHost = False, u_ForceQuery = False, u_RawQuery = [], u_Fragment = []\<rparr>"

fun scheme_loop :: "string \<Rightarrow> string \<Rightarrow> (string \<times> string) option res" where
  \<comment> \<open>\<open>getScheme\<close>: the characters read so far, the rest; \<open>None\<close> for no scheme\<close>
  "scheme_loop seen [] = Inr None"
| "scheme_loop seen (c # cs) =
     (if is_alpha c then scheme_loop (seen @ [c]) cs
      else if is_digit c \<or> c \<in> set ''+-.'' then
        (if seen = [] then Inr None else scheme_loop (seen @ [c]) cs)
      else if c = CHR '':'' then
        (if seen = [] then Inl ''missing protocol scheme'' else Inr (Some (seen, cs)))
      else Inr None)"

definition getScheme :: "string \<Rightarrow> (string \<times> string) res" where
  "getScheme raw = (case scheme_loop [] raw of
     Inl e \<Rightarrow> Inl e | Inr None \<Rightarrow> Inr ([], raw) | Inr (Some (s, rest)) \<Rightarrow> Inr (s, rest))"

text \<open>\<open>strings.LastIndex\<close> of one character, as the text before and after it.\<close>

definition cut_last :: "char \<Rightarrow> string \<Rightarrow> (string \<times> string) option" where
  "cut_last d s = (case Cut d (rev s) of (after, front, found) \<Rightarrow>
     if found then Some (rev front, rev after) else None)"

definition validOptionalPort :: "string \<Rightarrow> bool" where
  "validOptionalPort port = (case port of [] \<Rightarrow> True | c # cs \<Rightarrow> c = CHR '':'' \<and> list_all is_digit cs)"

text \<open>The text before the first \<open>%25\<close>, and from it on.\<close>

fun cut_zone :: "string \<Rightarrow> (string \<times> string) option" where
  "cut_zone [] = None"
| "cut_zone (c # cs) =
     (if take 3 (c # cs) = ''%25'' then Some ([], c # cs)
      else map_option (\<lambda>(a, b). (c # a, b)) (cut_zone cs))"

definition parseHost :: "string \<Rightarrow> string res" where
  "parseHost host =
     (if HasPrefix host ''['' then
        (case cut_last CHR '']'' host of
           None \<Rightarrow> Inl ''missing closing bracket in host''
         | Some (front, colonPort) \<Rightarrow>
             if \<not> validOptionalPort colonPort then Inl ''invalid port after host''
             else (case cut_zone front of
                     None \<Rightarrow> unescape host encodeHost
                   | Some (h1, z) \<Rightarrow>
                       (case unescape h1 encodeHost of Inl e \<Rightarrow> Inl e | Inr host1 \<Rightarrow>
                        (case unescape z encodeZone of Inl e \<Rightarrow> Inl e | Inr host2 \<Rightarrow>
                         (case unescape (CHR '']'' # colonPort) encodeHost of Inl e \<Rightarrow> Inl e | Inr host3 \<Rightarrow>
                            Inr (host1 @ host2 @ host3))))))
      else (case cut_last CHR '':'' host of
              Some (front, port) \<Rightarrow>
                if \<not> validOptionalPort (CHR '':'' # port) then Inl ''invalid port after host''
                else unescape host encodeHost
            | None \<Rightarrow> unescape host encodeHost))"

definition validUserinfo :: "string \<Rightarrow> bool" where
  "validUserinfo s = list_all (\<lambda>c. is_alpha c \<or> is_digit c \<or> c \<in> set (''-._:~!$&()*+,;=%@'' @ [CHR 0x27])) s"

definition parseUserinfo :: "string \<Rightarrow> (string \<times> string option) res" where
  "parseUserinfo s =
     (if \<not> validUserinfo s then Inl ''net/url: invalid userinfo''
      else (case Cut CHR '':'' s of (name, password, found) \<Rightarrow>
        (case unescape name encodeUserPassword of Inl e \<Rightarrow> Inl e | Inr name' \<Rightarrow>
           if \<not> found then Inr (name', None)
           else (case unescape password encodeUserPassword of
                   Inl e \<Rightarrow> Inl e | Inr password' \<Rightarrow> Inr (name', Some password')))))"

definition parseAuthority :: "string \<Rightarrow> ((string \<times> string option) option \<times> string) res" where
  "parseAuthority authority =
     (case cut_last CHR ''@'' authority of
        None \<Rightarrow> (case parseHost authority of Inl e \<Rightarrow> Inl e | Inr host \<Rightarrow> Inr (None, host))
      | Some (userinfo, h) \<Rightarrow>
          (case parseHost h of Inl e \<Rightarrow> Inl e | Inr host \<Rightarrow>
           (case parseUserinfo userinfo of Inl e \<Rightarrow> Inl e | Inr u \<Rightarrow> Inr (Some u, host))))"

definition setPath :: "string \<Rightarrow> url \<Rightarrow> url res" where
  "setPath p u = (case unescape p encodePath of
     Inl e \<Rightarrow> Inl e
   | Inr path \<Rightarrow> Inr (u\<lparr>u_Path := path, u_RawPath := (if p = escape path encodePath then [] else p)\<rparr>))"

definition cut_slash :: "string \<Rightarrow> string \<times> string" where
  "cut_slash s = (takeWhile (\<lambda>c. c \<noteq> CHR ''/'') s, dropWhile (\<lambda>c. c \<noteq> CHR ''/'') s)"

definition split_query :: "string \<Rightarrow> string \<times> string \<times> bool" where
  \<comment> \<open>the text before the query, the query, and \<open>ForceQuery\<close>\<close>
  "split_query rest =
     (case Cut CHR ''?'' rest of (a, b, found) \<Rightarrow> (a, b, found \<and> b = []))"

definition parse_rest :: "string \<Rightarrow> string \<Rightarrow> url res" where
  \<comment> \<open>\<open>parse\<close> after the scheme was cut off\<close>
  "parse_rest scheme rest0 =
     (case split_query rest0 of (rest, query, force) \<Rightarrow>
        let u = empty_url\<lparr>u_Scheme := scheme, u_RawQuery := query, u_ForceQuery := force\<rparr>
        in if \<not> HasPrefix rest ''/'' \<and> scheme \<noteq> [] then Inr (u\<lparr>u_Opaque := rest\<rparr>)
           else if \<not> HasPrefix rest ''/'' \<and> CHR '':'' \<in> set (fst (cut_slash rest))
             then Inl ''first path segment in URL cannot contain colon''
           else if (scheme \<noteq> [] \<or> \<not> HasPrefix rest ''///'') \<and> HasPrefix rest ''//'' then
             (case cut_slash (drop 2 rest) of (authority, path) \<Rightarrow>
               (case parseAuthority authority of
                  Inl e \<Rightarrow> Inl e
                | Inr (user, host) \<Rightarrow> setPath path (u\<lparr>u_User := user, u_Host := host\<rparr>)))
           else setPath rest (u\<lparr>u_OmitHost := (scheme \<noteq> [] \<and> HasPrefix rest ''/'')\<rparr>))"

definition parse_nofrag :: "string \<Rightarrow> url res" where
  "parse_nofrag raw =
     (if list_ex (\<lambda>c. ord c < 32 \<or> ord c = 127) raw then Inl ''net/url: invalid control character in URL''
      else if raw = ''*'' then Inr (empty_url\<lparr>u_Path := ''*''\<rparr>)
      else (case getScheme raw of
              Inl e \<Rightarrow> Inl e
            | Inr (scheme, rest) \<Rightarrow> parse_rest (ascii_lower scheme) rest))"

definition Parse :: "string \<Rightarrow> url res" where
  "Parse raw =
     (case Cut CHR ''#'' raw of (u, frag, found) \<Rightarrow>
        (case parse_nofrag u of
           Inl e \<Rightarrow> Inl e
         | Inr url \<Rightarrow>
             if frag = [] then Inr url
             else (case unescape frag encodeFragment of
                     Inl e \<Rightarrow> Inl e | Inr f \<Rightarrow> Inr (url\<lparr>u_Fragment := f\<rparr>))))"

definition IsAbs :: "url \<Rightarrow> bool" where
  "IsAbs u \<longleftrightarrow> u_Scheme u \<noteq> []"

definition Hostname :: "url \<Rightarrow> string" where
  "Hostname u =
     (let host = (case cut_last CHR '':'' (u_Host u) of
                    Some (h, port) \<Rightarrow> if validOptionalPort (CHR '':'' # port) then h else u_Host u
                  | None \<Rightarrow> u_Host u)
      in if HasPrefix host ''['' \<and> HasSuffix host '']'' then butlast (drop 1 host) else host)"

definition validEncoded :: "string \<Rightarrow> bool" where
  "validEncoded s = list_all (\<lambda>c. c \<in> set (''!$&()*+,;=:@[]%'' @ [CHR 0x27]) \<or> \<not> shouldEscape c encodePath) s"

definition EscapedPath :: "url \<Rightarrow> string" where
  "EscapedPath u =
     (if u_RawPath u \<noteq> [] \<and> validEncoded (u_RawPath u) \<and> unescape (u_RawPath u) encodePath = Inr (u_Path u)
      then u_RawPath u
      else if u_Path u = ''*'' then ''*''
      else escape (u_Path u) encodePath)"

definition userinfo_text :: "string \<times> string option \<Rightarrow> string" where
  "userinfo_text u = escape (fst u) encodeUserPassword
     @ (case snd u of None \<Rightarrow> [] | Some pw \<Rightarrow> CHR '':'' # escape pw encodeUserPassword)"

text \<open>\<open>URL.String\<close>: what precedes the query, then the query and the fragment.\<close>

definition url_prefix :: "url \<Rightarrow> string" where
  "url_prefix u =
     (let scheme = (if u_Scheme u \<noteq> [] then u_Scheme u @ '':'' else [])
      in if u_Opaque u \<noteq> [] then scheme @ u_Opaque u
         else (let auth =
                 (if u_Scheme u \<noteq> [] \<or> u_Host u \<noteq> [] \<or> u_User u \<noteq> None
                  then (if u_OmitHost u \<and> u_Host u = [] \<and> u_User u = None then []
                        else (if u_Host u \<noteq> [] \<or> u_Path u \<noteq> [] \<or> u_User u \<noteq> None then ''//'' else [])
                          @ (case u_User u of None \<Rightarrow> [] | Some ui \<Rightarrow> userinfo_text ui @ ''@'')
                          @ escape (u_Host u) encodeHost)
                  else []);
                   path = EscapedPath u;
                   slash = (if path \<noteq> [] \<and> \<not> HasPrefix path ''/'' \<and> u_Host u \<noteq> [] then ''/'' else []);
                   front = scheme @ auth @ slash;
                   dot = (if front = [] \<and> CHR '':'' \<in> set (fst (cut_slash path)) then ''./'' else [])
               in front @ dot @ path))"

definition url_String :: "url \<Rightarrow> string" where
  "url_String u = url_prefix u
     @ (if u_ForceQuery u \<or> u_RawQuery u \<noteq> [] then CHR ''?'' # u_RawQuery u else [])
     @ (if u_Fragment u \<noteq> [] then CHR ''#'' # escape (u_Fragment u) encodeFragment else [])"

section \<open>Query strings\<close>

type_synonym url_values = "(string \<times> string list) list"

definition values_add :: "string \<Rightarrow> string \<Rightarrow> url_values \<Rightarrow> url_values" where
  "values_add k v q = AList.update k ((case map_of q k of None \<Rightarrow> [] | Some vs \<Rightarrow> vs) @ [v]) q"

definition values_set :: "string \<Rightarrow> string \<Rightarrow> url_values \<Rightarrow> url_values" where
  "values_set k v q = AList.update k [v] q"

definition query_pair :: "string \<Rightarrow> url_values \<Rightarrow> url_values" where
  \<comment> \<open>one round of the loop of \<open>parseQuery\<close>; a malformed pair is skipped\<close>
  "query_pair kv q =
     (if CHR '';'' \<in> set kv \<or> kv = [] then q
      else (case Cut CHR ''='' kv of (k, v, _) \<Rightarrow>
        (case (unescape k encodeQueryComponent, unescape v encodeQueryComponent) of
           (Inr k', Inr v') \<Rightarrow> values_add k' v' q
         | _ \<Rightarrow> q)))"

definition ParseQuery :: "string \<Rightarrow> url_values" where
  "ParseQuery s = fold query_pair (split_char CHR ''&'' s) []"

definition Encode :: "url_values \<Rightarrow> string" where
  "Encode q = join_with ''&'' (concat (map (\<lambda>k. map (\<lambda>v. escape k encodeQueryComponent @ ''='' @ escape v encodeQueryComponent)
     (the (map_of q k))) (sort (remdups (map fst q)))))"

section \<open>IP addresses\<close>

fun ipv4_loop :: "string \<Rightarrow> nat \<Rightarrow> nat \<Rightarrow> bool \<Rightarrow> nat list \<Rightarrow> nat list option" where
  \<comment> \<open>value and digits of the current octet, whether the last character was a dot (or none yet), octets so far\<close>
  "ipv4_loop [] val digLen dot octets =
     (if length octets < 3 then None else Some (octets @ [val]))"
| "ipv4_loop (c # cs) val digLen dot octets =
     (if is_digit c then
        (if digLen = 1 \<and> val = 0 then None
         else (let val' = val * 10 + (ord c - 48)
               in if 255 < val' then None else ipv4_loop cs val' (digLen + 1) False octets))
      else if c = CHR ''.'' then
        (if dot \<or> cs = [] then None
         else if length octets = 3 then None
         else ipv4_loop cs 0 0 True (octets @ [val]))
      else None)"

definition parseIPv4 :: "string \<Rightarrow> nat list option" where
  "parseIPv4 s = ipv4_loop s 0 0 True []"

fun hex_group :: "string \<Rightarrow> nat \<Rightarrow> nat \<Rightarrow> (nat \<times> nat \<times> string) option" where
  \<comment> \<open>digits read, their value; gives digits, value and the rest, or fails on a fifth digit\<close>
  "hex_group [] off acc = Some (off, acc, [])"
| "hex_group (c # cs) off acc =
     (case unhex c of
        None \<Rightarrow> Some (off, acc, c # cs)
      | Some d \<Rightarrow> if 3 < off then None else hex_group cs (off + 1) (acc * 16 + d))"

text \<open>
  The loop of \<open>parseIPv6\<close>: the rest of the text, the bytes so far and the position of the
  ellipsis. At most eight rounds store a group each, which \<open>fuel\<close> counts.
\<close>

fun ipv6_loop :: "nat \<Rightarrow> string \<Rightarrow> nat list \<Rightarrow> nat option \<Rightarrow> (string \<times> nat list \<times> nat option) option" where
  "ipv6_loop 0 s ip ellipsis = Some (s, ip, ellipsis)"
| "ipv6_loop (Suc fuel) s ip ellipsis =
     (case hex_group s 0 0 of
        None \<Rightarrow> None
      | Some (off, acc, rest) \<Rightarrow>
          if off = 0 then None
          else if HasPrefix rest ''.'' then
            (if ellipsis = None \<and> length ip \<noteq> 12 then None
             else if length ip + 4 > 16 then None
             else (case parseIPv4 s of None \<Rightarrow> None | Some v4 \<Rightarrow> Some ([], ip @ v4, ellipsis)))
          else
            (let ip' = ip @ [acc div 256, acc mod 256]
             in case rest of
                  [] \<Rightarrow> Some ([], ip', ellipsis)
                | c # cs \<Rightarrow>
                    if c \<noteq> CHR '':'' \<or> cs = [] then None
                    else if hd cs = CHR '':'' then
                      (if ellipsis \<noteq> None then None
                       else if tl cs = [] then Some ([], ip', Some (length ip'))
                       else ipv6_loop fuel (tl cs) ip' (Some (length ip')))
                    else ipv6_loop fuel cs ip' ellipsis))"

definition parseIPv6 :: "string \<Rightarrow> nat list option" where
  \<comment> \<open>of an address without a zone\<close>
  "parseIPv6 s =
     (if s = ''::'' then Some (replicate 16 0)
      else (case (if HasPrefix s ''::'' then ipv6_loop 8 (drop 2 s) [] (Some 0) else ipv6_loop 8 s [] None) of
              None \<Rightarrow> None
            | Some (rest, ip, ellipsis) \<Rightarrow>
                if rest \<noteq> [] then None
                else if length ip < 16 then
                  (case ellipsis of None \<Rightarrow> None
                   | Some e \<Rightarrow> Some (take e ip @ replicate (16 - length ip) 0 @ drop e ip))
                else if ellipsis \<noteq> None then None
                else Some ip))"

definition v4_prefix :: "nat list" where
  "v4_prefix = replicate 10 0 @ [255, 255]"

text \<open>\<open>net.ParseIP\<close>: 16 bytes, an IPv4 address in its mapped form; a zone is refused.\<close>

definition ParseIP :: "string \<Rightarrow> nat list option" where
  "ParseIP s =
     (case find (\<lambda>c. c \<in> set ''.:%'') s of
        None \<Rightarrow> None
      | Some c \<Rightarrow>
          if c = CHR ''.'' then map_option (\<lambda>v4. v4_prefix @ v4) (parseIPv4 s)
          else if c = CHR '':'' then (if CHR ''%'' \<in> set s then None else parseIPv6 s)
          else None)"

definition IsLoopback :: "nat list \<Rightarrow> bool" where
  "IsLoopback ip =
     (if take 12 ip = v4_prefix then ip ! 12 = 127 else ip = replicate 15 0 @ [1])"

end
