(* ===== verification/Registration.thy ===== *)
theory Registration
  imports Http Secrets Go_Url
begin

text \<open>
  The redirect-URI policy and dynamic client registration (\<open>handlers.go\<close>). A URI is
  accepted if it is an absolute \<open>https\<close> URL, or \<open>http\<close> to a loopback address, with no
  fragment and no userinfo; a deployment may restrict the hosts further.
\<close>

section \<open>Redirect URIs\<close>

definition isLoopbackHost :: "string \<Rightarrow> bool" where
  "isLoopbackHost host =
     (if EqualFold host ''localhost'' then True
      else (case ParseIP host of None \<Rightarrow> False | Some ip \<Rightarrow> IsLoopback ip))"

definition ValidateRedirectURI :: "lib \<Rightarrow> string \<Rightarrow> unit res" where
  "ValidateRedirectURI L raw =
     (if raw = [] then Inl ''redirect_uri must not be empty''
      else (case Parse raw of
              Inl err \<Rightarrow> Inl ''redirect_uri is not a valid URL''
            | Inr u \<Rightarrow>
                if \<not> IsAbs u \<or> u_Host u = [] then Inl ''redirect_uri must be an absolute URL''
                else if u_Fragment u \<noteq> [] \<or> CHR ''#'' \<in> set raw then Inl ''redirect_uri must not contain a fragment''
                else if u_User u \<noteq> None then Inl ''redirect_uri must not contain userinfo''
                else (let scheme = ToLower (unicode_lower L) (u_Scheme u)
                      in if scheme = ''https'' then Inr ()
                         else if scheme = ''http'' then
                           (if \<not> isLoopbackHost (Hostname u)
                            then Inl ''http redirect_uri is only allowed for loopback addresses''
                            else Inr ())
                         else Inl (''unsupported redirect_uri scheme '' @ Quote (unicode_quote L) (u_Scheme u)))))"

fun host_listed :: "string \<Rightarrow> string list \<Rightarrow> bool" where
  "host_listed host [] = False"
| "host_listed host (allowed # hs) = (if host = allowed then True else host_listed host hs)"

definition checkRedirectHostPolicy :: "lib \<Rightarrow> provider \<Rightarrow> string \<Rightarrow> unit res" where
  "checkRedirectHostPolicy L p raw =
     (if AllowedRedirectHosts (cfg p) = [] then Inr ()
      else (case Parse raw of
              Inl err \<Rightarrow> Inl ''redirect_uri is not a valid URL''
            | Inr u \<Rightarrow>
                (let host = ToLower (unicode_lower L) (Hostname u)
                 in if EqualFold (u_Scheme u) ''http'' \<and> isLoopbackHost host then Inr ()
                    else if host_listed host (AllowedRedirectHosts (cfg p)) then Inr ()
                    else Inl ''redirect_uri host is not allowed by this deployment'')))"

section \<open>Registration\<close>

definition maxRedirectURIs :: nat where "maxRedirectURIs = 10"
definition maxRedirectURILen :: nat where "maxRedirectURILen = 2048"
definition maxClientNameLen :: nat where "maxClientNameLen = 200"
definition maxRegistrationBytes :: nat where "maxRegistrationBytes = 16384"

fun check_uris :: "lib \<Rightarrow> provider \<Rightarrow> string list \<Rightarrow> unit res" where
  \<comment> \<open>the loop of \<open>Register\<close> over the redirect URIs\<close>
  "check_uris L p [] = Inr ()"
| "check_uris L p (u # us) =
     (if length u > maxRedirectURILen then Inl ''redirect_uri is too long''
      else (case ValidateRedirectURI L u of Inl err \<Rightarrow> Inl err
            | Inr _ \<Rightarrow> (case checkRedirectHostPolicy L p u of Inl err \<Rightarrow> Inl err
                       | Inr _ \<Rightarrow> check_uris L p us)))"

definition Register :: "lib \<Rightarrow> provider \<Rightarrow> request \<Rightarrow> response prog" where
  [handler_defs]: "Register L p r =
     (case allowCORS new_writer r ''POST'' of
        (w, Some resp) \<Rightarrow> Ret resp
      | (w, None) \<Rightarrow>
          if rq_Method r \<noteq> ''POST'' then
            Ret (writeOAuthError w 405 ''invalid_request'' ''POST required'')
          else (case rq_json r maxRegistrationBytes of
            Inl err \<Rightarrow> Ret (writeOAuthError w 400 ''invalid_client_metadata'' ''request body must be JSON'')
          | Inr req \<Rightarrow>
              if rg_RedirectURIs req = [] then
                Ret (writeOAuthError w 400 ''invalid_redirect_uri'' ''redirect_uris is required'')
              else if length (rg_RedirectURIs req) > maxRedirectURIs then
                Ret (writeOAuthError w 400 ''invalid_redirect_uri'' ''too many redirect_uris'')
              else (case check_uris L p (rg_RedirectURIs req) of
                Inl err \<Rightarrow> Ret (writeOAuthError w 400 ''invalid_redirect_uri'' err)
              | Inr _ \<Rightarrow>
                  if length (rg_ClientName req) > maxClientNameLen then
                    Ret (writeOAuthError w 400 ''invalid_client_metadata'' ''client_name is too long'')
                  else
                  randomToken 24 (\<lambda>rnd. case rnd of
                    Inl err \<Rightarrow> Ret (writeOAuthError w 500 ''server_error'' ''could not generate client id'')
                  | Inr clientID \<Rightarrow>
                  Now (\<lambda>now.
                  SaveClient \<lparr>cl_ClientID = clientID, cl_RedirectURIs = rg_RedirectURIs req,
                      cl_ClientName = rg_ClientName req, cl_CreatedAt = now,
                      cl_ExpiresAt = now + UnusedClientTTL (cfg p)\<rparr> (\<lambda>saved. case saved of
                    Inl err \<Rightarrow> Ret (writeOAuthError w 500 ''server_error'' ''could not persist client'')
                  | Inr _ \<Rightarrow> Ret (writeJSON w 201 (RegistrationBody \<lparr>
                      rr_ClientID = clientID, rr_RedirectURIs = rg_RedirectURIs req,
                      rr_ClientName = rg_ClientName req, rr_TokenEndpointAuthMethod = ''none'',
                      rr_GrantTypes = [''authorization_code'', ''refresh_token''],
                      rr_ResponseTypes = [''code'']\<rparr>))))))))"

section \<open>What the policy admits\<close>

lemma host_listed_iff: "host_listed h hs \<longleftrightarrow> h \<in> set hs"
  by (induction hs) auto

text \<open>A registered URI, as the policy means it.\<close>

definition safe_redirect :: "string \<Rightarrow> bool" where
  "safe_redirect raw \<longleftrightarrow> (\<exists>u. Parse raw = Inr u \<and> u_Host u \<noteq> [] \<and> u_User u = None \<and> u_Fragment u = [] \<and>
     CHR ''#'' \<notin> set raw \<and> (u_Scheme u = ''https'' \<or> u_Scheme u = ''http'' \<and> isLoopbackHost (Hostname u)))"

definition allowed_host :: "lib \<Rightarrow> provider \<Rightarrow> string \<Rightarrow> bool" where
  "allowed_host L p raw \<longleftrightarrow> AllowedRedirectHosts (cfg p) = [] \<or>
     (\<exists>u. Parse raw = Inr u \<and>
        (u_Scheme u = ''http'' \<and> isLoopbackHost (ToLower (unicode_lower L) (Hostname u)) \<or>
         ToLower (unicode_lower L) (Hostname u) \<in> set (AllowedRedirectHosts (cfg p))))"

text \<open>The parser lower-cases the scheme, which is ASCII.\<close>

definition plain_scheme :: "string \<Rightarrow> bool" where
  "plain_scheme s \<longleftrightarrow> list_all (\<lambda>c. ord c < 128 \<and> lower_char c = c) s"

lemma lower_char_idem [simp]: "lower_char (lower_char c) = lower_char c"
  by (cases "in_range CHR ''A'' CHR ''Z'' c") (auto simp: lower_char_def in_range_def)

lemma lower_char_ascii: "ord c < 128 \<Longrightarrow> ord (lower_char c) < 128"
  by (auto simp: lower_char_def in_range_def)

lemma ascii_lower_Nil [simp]: "ascii_lower [] = []"
  by (simp add: ascii_lower_def)

lemma plain_lower: "list_all (\<lambda>c. ord c < 128) s \<Longrightarrow> plain_scheme (ascii_lower s)"
  by (induction s) (auto simp: plain_scheme_def ascii_lower_def lower_char_ascii)

lemma scheme_loop_ascii:
  "scheme_loop seen cs = Inr (Some (s, rest)) \<Longrightarrow> list_all (\<lambda>c. ord c < 128) seen \<Longrightarrow> list_all (\<lambda>c. ord c < 128) s"
proof (induction seen cs rule: scheme_loop.induct)
  case (2 seen c cs)
  then show ?case by (auto simp: in_range_def split: if_splits)
qed simp

lemma setPath_simps:
  "setPath p u = Inr v \<Longrightarrow> u_Scheme v = u_Scheme u \<and> u_Host v = u_Host u \<and> u_User v = u_User u
     \<and> u_Opaque v = u_Opaque u \<and> u_RawQuery v = u_RawQuery u \<and> u_Fragment v = u_Fragment u"
  by (auto simp: setPath_def split: sum.splits)

lemma parse_rest_scheme: "parse_rest s rest = Inr u \<Longrightarrow> u_Scheme u = s \<and> u_Fragment u = []"
  by (auto simp: parse_rest_def Let_def empty_url_def split: prod.splits if_splits sum.splits dest!: setPath_simps)

lemma Parse_scheme: "Parse raw = Inr u \<Longrightarrow> plain_scheme (u_Scheme u)"
  by (auto simp: Parse_def parse_nofrag_def getScheme_def empty_url_def plain_scheme_def
      split: prod.splits sum.splits option.splits if_splits
      dest!: parse_rest_scheme scheme_loop_ascii plain_lower)

lemma plain_ToLower: "plain_scheme s \<Longrightarrow> ToLower ul s = s"
  by (auto simp: plain_scheme_def ToLower_def ascii_lower_def list_all_iff intro!: map_idI)

lemma Parse_empty: "Parse [] = Inr u \<Longrightarrow> u_Scheme u = []"
  by (auto simp: Parse_def parse_nofrag_def getScheme_def split: sum.splits dest: parse_rest_scheme)

lemma plain_EqualFold: "plain_scheme s \<Longrightarrow> EqualFold s t \<longleftrightarrow> s = t"
  by (induction s t rule: EqualFold.induct) (auto simp: plain_scheme_def)

lemma ValidateRedirectURI_ok: "is_ok (ValidateRedirectURI L raw) \<longleftrightarrow> safe_redirect raw"
proof (cases "Parse raw")
  case (Inr u)
  then have "ToLower ul (u_Scheme u) = u_Scheme u" for ul by (intro plain_ToLower Parse_scheme)
  moreover have "raw \<noteq> []" if "u_Scheme u \<noteq> []" using that Inr Parse_empty by auto
  ultimately show ?thesis
    using Inr by (cases "u_User u") (auto simp: ValidateRedirectURI_def safe_redirect_def IsAbs_def Let_def)
qed (simp add: ValidateRedirectURI_def safe_redirect_def)

lemma checkRedirectHostPolicy_ok: "is_ok (checkRedirectHostPolicy L p raw) \<longleftrightarrow> allowed_host L p raw"
proof (cases "Parse raw")
  case (Inr u)
  then have "EqualFold (u_Scheme u) ''http'' \<longleftrightarrow> u_Scheme u = ''http''"
    by (intro plain_EqualFold Parse_scheme)
  then show ?thesis
    using Inr by (auto simp: checkRedirectHostPolicy_def allowed_host_def Let_def host_listed_iff)
qed (simp add: checkRedirectHostPolicy_def allowed_host_def)

lemma check_uris_ok:
  "is_ok (check_uris L p us) \<longleftrightarrow> (\<forall>u \<in> set us. length u \<le> maxRedirectURILen \<and> safe_redirect u \<and> allowed_host L p u)"
proof (induction us)
  case (Cons u us)
  have "is_ok (check_uris L p (u # us)) \<longleftrightarrow> length u \<le> maxRedirectURILen \<and> is_ok (ValidateRedirectURI L u)
      \<and> is_ok (checkRedirectHostPolicy L p u) \<and> is_ok (check_uris L p us)"
    by (auto simp: is_ok_def split: sum.split)
  then show ?case using Cons by (simp add: ValidateRedirectURI_ok checkRedirectHostPolicy_ok)
qed simp

end
