(* ===== verification/Binder.thy ===== *)
theory Binder
  imports Secrets
begin

text \<open>
  The browser binding of \<open>mcpoauth.go\<close>: one cookie holds the binders of the flows a browser
  has open, newest first. Values read from a request are untrusted; only tokens of the
  program's own shape are kept, and at most \<open>maxBinders\<close> of them.
\<close>

section \<open>Operations\<close>

definition maxBinders :: nat where "maxBinders = 5"
definition maxBinderLen :: nat where "maxBinderLen = 64"

definition validBinder :: "string \<Rightarrow> bool" where
  "validBinder v =
     (if v = [] \<or> length v > maxBinderLen then False
      else list_all (\<lambda>c. is_alpha c \<or> is_digit c \<or> c = CHR ''-'' \<or> c = CHR ''_'') v)"

definition binderCookieName :: "provider \<Rightarrow> string" where
  "binderCookieName p = (if InsecureDevMode (cfg p) then BinderCookieNameInsecure else BinderCookieName)"

fun collect_binders :: "string list \<Rightarrow> string list \<Rightarrow> string list" where
  \<comment> \<open>the loop of \<open>readBinders\<close>\<close>
  "collect_binders [] out = out"
| "collect_binders (v # vs) out =
     (if \<not> validBinder v then collect_binders vs out
      else (let out' = out @ [v]
            in if length out' = maxBinders then out' else collect_binders vs out'))"

definition readBinders :: "provider \<Rightarrow> request \<Rightarrow> string list" where
  "readBinders p r =
     (case map_of (rq_cookies r) (binderCookieName p) of
        None \<Rightarrow> []
      | Some value \<Rightarrow>
          if value = [] then []
          else collect_binders (SplitN BinderCookieSep (maxBinders + 1) value) [])"

definition writeBinderCookie :: "provider \<Rightarrow> writer \<Rightarrow> string list \<Rightarrow> writer" where
  "writeBinderCookie p w values =
     set_cookie \<lparr>ck_Name = binderCookieName p, ck_Value = Join values BinderCookieSep, ck_Path = ''/'',
       ck_HttpOnly = True, ck_Secure = (\<not> InsecureDevMode (cfg p)), ck_SameSite = SameSiteLaxMode,
       ck_MaxAge = (if values = [] then - 1 else duration_seconds (PendingAuthTTL (cfg p)))\<rparr> w"

definition addBinder :: "provider \<Rightarrow> writer \<Rightarrow> request \<Rightarrow> string \<Rightarrow> writer" where
  "addBinder p w r value =
     (let values = [value] @ readBinders p r;
          values' = (if length values > maxBinders then take maxBinders values else values)
      in writeBinderCookie p w values')"

definition binder_used :: "string \<Rightarrow> string \<Rightarrow> bool" where
  "binder_used usedHash v \<longleftrightarrow> usedHash \<noteq> [] \<and> ConstantTimeCompare (HashSecret v) usedHash"

definition dropBinder :: "provider \<Rightarrow> writer \<Rightarrow> request \<Rightarrow> string \<Rightarrow> writer" where
  "dropBinder p w r usedHash =
     writeBinderCookie p w (filter (\<lambda>v. \<not> binder_used usedHash v) (readBinders p r))"

definition binderMatches :: "provider \<Rightarrow> request \<Rightarrow> string \<Rightarrow> bool" where
  "binderMatches p r wantHash =
     (if wantHash = [] then False
      else fold (\<lambda>v match. if ConstantTimeCompare (HashSecret v) wantHash then True else match)
             (readBinders p r) False)"

section \<open>What is read\<close>

lemma collect_binders_eq:
  "length out < maxBinders \<Longrightarrow> collect_binders vs out = take maxBinders (out @ filter validBinder vs)"
proof (induction vs out rule: collect_binders.induct)
  case (2 v vs out)
  show ?case
  proof (cases "validBinder v \<and> length (out @ [v]) \<noteq> maxBinders")
    case True
    then have "length (out @ [v]) < maxBinders" using "2.prems" by auto
    then show ?thesis using 2 True by (simp add: Let_def)
  next
    case False
    moreover have "take (maxBinders - length out) (v # vs') = [v]" if "Suc (length out) = maxBinders" for vs'
      using that by (simp flip: that)
    ultimately show ?thesis using 2 by (auto simp: Let_def)
  qed
qed simp

lemma readBinders_eq:
  "readBinders p r = (case map_of (rq_cookies r) (binderCookieName p) of None \<Rightarrow> []
     | Some value \<Rightarrow> take maxBinders (filter validBinder (SplitN BinderCookieSep (maxBinders + 1) value)))"
proof -
  have "filter validBinder (SplitN BinderCookieSep (Suc (Suc n)) []) = []" for n
    by (simp add: validBinder_def)
  then have "filter validBinder (SplitN BinderCookieSep (maxBinders + 1) []) = []"
    by (simp add: maxBinders_def eval_nat_numeral)
  then show ?thesis
    by (auto simp: readBinders_def collect_binders_eq [of "[]", simplified maxBinders_def] maxBinders_def
        split: option.split)
qed

lemma readBinders_valid: "v \<in> set (readBinders p r) \<Longrightarrow> validBinder v"
  by (auto simp: readBinders_eq dest: in_set_takeD split: option.splits)

lemma length_readBinders: "length (readBinders p r) \<le> maxBinders"
  by (simp add: readBinders_eq split: option.split)

lemma binderMatches_iff: "binderMatches p r h \<longleftrightarrow> h \<noteq> [] \<and> (\<exists>v \<in> set (readBinders p r). HashSecret v = h)"
proof -
  have "fold (\<lambda>v match. if ConstantTimeCompare (HashSecret v) h then True else match) vs b
      \<longleftrightarrow> b \<or> (\<exists>v \<in> set vs. HashSecret v = h)" for vs b
    by (induction vs arbitrary: b) (auto simp: ConstantTimeCompare_def)
  then show ?thesis by (simp add: binderMatches_def)
qed

lemma validBinder_iff: "validBinder v \<longleftrightarrow> v \<noteq> [] \<and> length v \<le> 64 \<and> list_all b64url_alphabet v"
  by (auto simp: validBinder_def maxBinderLen_def b64url_alphabet_def [abs_def])

text \<open>A token of 32 random bytes has the shape of a binder.\<close>

lemma validBinder_token: "length bs = 32 \<Longrightarrow> validBinder (b64url_encode bs)"
  using b64url_encode_alphabet [of bs] length_b64url_encode [of bs]
  by (auto simp: validBinder_def maxBinderLen_def b64url_alphabet_def [abs_def])

section \<open>The cookie a browser sends back\<close>

text \<open>The cookie a response set, as the next request of the browser carries it.\<close>

definition sends_back :: "cookie \<Rightarrow> request \<Rightarrow> request" where
  "sends_back c r = r\<lparr>rq_cookies :=
     (if ck_MaxAge c < 0 then AList.delete (ck_Name c) (rq_cookies r)
      else AList.update (ck_Name c) (ck_Value c) (rq_cookies r))\<rparr>"

lemma validBinder_no_sep: "validBinder v \<Longrightarrow> BinderCookieSep \<notin> set v"
  by (auto simp: validBinder_def BinderCookieSep_def list_all_iff in_range_def split: if_splits)

lemma validBinder_nonempty: "validBinder v \<Longrightarrow> v \<noteq> []"
  by (auto simp: validBinder_def)

lemma readBinders_written:
  assumes "\<forall>v \<in> set vs. validBinder v" and "length vs \<le> maxBinders"
    and "wr_cookies (writeBinderCookie p w vs) = wr_cookies w @ [c]" and "0 \<le> PendingAuthTTL (cfg p)"
  shows "readBinders p (sends_back c r) = vs"
proof (cases "vs = []")
  case True
  then show ?thesis
    using assms by (auto simp: writeBinderCookie_def set_cookie_def sends_back_def readBinders_def delete_conv')
next
  case False
  have "SplitN BinderCookieSep (maxBinders + 1) (Join vs BinderCookieSep) = vs"
    by (rule SplitN_Join) (use assms False validBinder_no_sep in auto)
  moreover have "filter validBinder vs = vs" using assms(1) by (simp add: filter_id_conv)
  moreover have "\<not> duration_seconds (PendingAuthTTL (cfg p)) < 0"
    using assms(4) by (simp add: duration_seconds_def sgn_if not_less pos_imp_zdiv_nonneg_iff)
  ultimately show ?thesis
    using assms False
    by (auto simp: writeBinderCookie_def set_cookie_def sends_back_def readBinders_eq update_conv')
qed

lemma take_readBinders_valid:
  assumes "validBinder v"
  shows "\<forall>x \<in> set (take maxBinders (v # readBinders p r)). validBinder x"
  using assms readBinders_valid in_set_takeD by fastforce

lemma addBinder_eq: "addBinder p w r v = writeBinderCookie p w (take maxBinders (v # readBinders p r))"
  by (simp add: addBinder_def Let_def)

lemma readBinders_added:
  assumes "validBinder v" and "0 \<le> PendingAuthTTL (cfg p)"
    and "wr_cookies (addBinder p w r v) = wr_cookies w @ [c]"
  shows "readBinders p (sends_back c r) = take maxBinders (v # readBinders p r)"
  by (rule readBinders_written [OF take_readBinders_valid [OF assms(1)] _ assms(3) [unfolded addBinder_eq] assms(2)]) simp

lemma readBinders_dropped:
  assumes "0 \<le> PendingAuthTTL (cfg p)" and "wr_cookies (dropBinder p w r h) = wr_cookies w @ [c]"
  shows "readBinders p (sends_back c r) = filter (\<lambda>v. \<not> binder_used h v) (readBinders p r)"
proof -
  have "length (filter (\<lambda>v. \<not> binder_used h v) (readBinders p r)) \<le> maxBinders"
    using length_filter_le length_readBinders le_trans by blast
  then show ?thesis
    by (intro readBinders_written [OF _ _ assms(2) [unfolded dropBinder_def] assms(1)])
       (auto dest: readBinders_valid)
qed

end
