(* ===== verification/Authorize.thy ===== *)
theory Authorize
  imports Registration Binder
begin

text \<open>
  The authorization endpoint (\<open>handlers.go\<close>, \<open>consent.go\<close>) and the throttled purge it
  runs (\<open>mcpoauth.go\<close>). GET validates the request, stores an unapproved pending record under
  a consent nonce and renders the approval page; POST consumes the nonce and stores the
  approved record under a fresh state before it sends the browser to Google.
\<close>

section \<open>Purging\<close>

definition Provider_PurgeExpired :: "(unit res \<Rightarrow> 'a prog) \<Rightarrow> 'a prog" where
  [handler_defs]: "Provider_PurgeExpired k =
     Now (\<lambda>now. Locked (\<lambda>m. m\<lparr>lastPurge := now\<rparr>) (\<lambda>_. PurgeExpired now (\<lambda>r. case r of
       Inl err \<Rightarrow> k (Inl (''purging expired records: '' @ err))
     | Inr _ \<Rightarrow> k (Inr ()))))"

definition purge_due :: "provider \<Rightarrow> time \<Rightarrow> pmem \<Rightarrow> bool" where
  "purge_due p now m \<longleftrightarrow> time_sub now (lastPurge m) \<ge> PurgeInterval (cfg p)"

definition maybePurge :: "provider \<Rightarrow> 'a prog \<Rightarrow> 'a prog" where
  [handler_defs]: "maybePurge p k =
     Now (\<lambda>now. Locked (\<lambda>m. if purge_due p now m then m\<lparr>lastPurge := now\<rparr> else m) (\<lambda>m.
       if \<not> purge_due p now m then k else Provider_PurgeExpired (\<lambda>_. k)))"

section \<open>The approval page\<close>

definition consentCSP :: "string \<Rightarrow> string" where
  "consentCSP googleAuthURL =
     (let origin = (case Parse googleAuthURL of
                      Inl err \<Rightarrow> []
                    | Inr u \<Rightarrow> if u_Scheme u \<noteq> [] \<and> u_Host u \<noteq> []
                              then '' '' @ u_Scheme u @ ''://'' @ u_Host u else [])
      in ''default-src '' @ [CHR 0x27] @ ''none'' @ [CHR 0x27] @ ''; style-src '' @ [CHR 0x27]
         @ ''unsafe-inline'' @ [CHR 0x27] @ ''; form-action '' @ [CHR 0x27] @ ''self'' @ [CHR 0x27] @ origin
         @ ''; frame-ancestors '' @ [CHR 0x27] @ ''none'' @ [CHR 0x27])"

definition renderConsent :: "provider \<Rightarrow> writer \<Rightarrow> request \<Rightarrow> client \<Rightarrow> consent_request \<Rightarrow> response" where
  "renderConsent p w0 r c req =
     (let w = header_set ''Cache-Control'' ''no-store'' w0
      in case ConsentHandler (cfg p) of
           Some handler \<Rightarrow> handler w r c req
         | None \<Rightarrow>
             (let name = (if cl_ClientName c = [] then ''An unnamed application'' else cl_ClientName c);
                  w' = header_set ''X-Frame-Options'' ''DENY''
                         (header_set ''Content-Security-Policy'' (consentCSP (GoogleAuthURL (cfg p)))
                           (header_set ''Content-Type'' ''text/html; charset=utf-8'' w))
              in finish w' 200 (ConsentBody \<lparr>cp_ClientName = name, cp_RedirectURI = cr_RedirectURI req,
                   cp_Scopes = cr_Scopes req, cp_FormAction = cr_FormAction req,
                   cp_NonceField = cr_NonceField req, cp_Nonce = cr_Nonce req\<rparr>)))"

definition scope_fields :: "string list" where
  \<comment> \<open>\<open>strings.Fields(GrantedScope)\<close>\<close>
  "scope_fields = filter (\<lambda>s. s \<noteq> []) (split_char CHR '' '' GrantedScope)"

section \<open>GET: consent\<close>

definition maxClientStateLen :: nat where "maxClientStateLen = 512"
definition maxConsentFormBytes :: nat where "maxConsentFormBytes = 8192"

definition pending_row ::
  "provider \<Rightarrow> string \<Rightarrow> string \<Rightarrow> string \<Rightarrow> string \<Rightarrow> string \<Rightarrow> string \<Rightarrow> time \<Rightarrow> pending_auth" where
  "pending_row p nonce clientID redirectURI challenge clientState binder now = \<lparr>
     pa_StateHash = HashSecret nonce, pa_ClientID = clientID, pa_RedirectURI = redirectURI,
     pa_CodeChallenge = challenge, pa_ClientState = clientState, pa_BinderHash = HashSecret binder,
     pa_Approved = False, pa_ExpiresAt = now + PendingAuthTTL (cfg p), pa_CreatedAt = now\<rparr>"

text \<open>The checks of the query once the client and the redirect URI are known to be good.\<close>

definition authorize_query_error :: "request \<Rightarrow> (string \<times> string) option" where
  "authorize_query_error r =
     (let q = values_get (rq_query r); challenge = q ''code_challenge''
      in if q ''response_type'' \<noteq> ''code''
           then Some (''unsupported_response_type'', ''only response_type=code is supported'')
         else if challenge = [] then Some (''invalid_request'', ''code_challenge is required (PKCE)'')
         else (case validateCodeChallenge challenge of
                 Inl err \<Rightarrow> Some (''invalid_request'', err)
               | Inr _ \<Rightarrow>
                   if q ''code_challenge_method'' \<noteq> ''S256''
                     then Some (''invalid_request'', ''code_challenge_method must be S256'')
                   else if length (q ''state'') > maxClientStateLen
                     then Some (''invalid_request'', ''state is too long'')
                   else None))"

text \<open>The rest of \<open>authorizeConsent\<close> for a valid request.\<close>

definition start_consent :: "provider \<Rightarrow> writer \<Rightarrow> request \<Rightarrow> client \<Rightarrow> string \<Rightarrow> response prog" where
  [handler_defs]: "start_consent p w r client redirectURI =
     (let challenge = values_get (rq_query r) ''code_challenge''; clientState = values_get (rq_query r) ''state''
      in maybePurge p (
         randomToken 32 (\<lambda>rnd. case rnd of
           Inl err \<Rightarrow> Ret (writeOAuthError w 500 ''server_error'' ''could not generate consent nonce'')
         | Inr nonce \<Rightarrow>
         randomToken 32 (\<lambda>rnd. case rnd of
           Inl err \<Rightarrow> Ret (writeOAuthError w 500 ''server_error'' ''could not generate browser binding'')
         | Inr binder \<Rightarrow>
         Now (\<lambda>now.
         SavePendingAuth (pending_row p nonce (cl_ClientID client) redirectURI challenge clientState binder now) (\<lambda>saved.
           case saved of
             Inl err \<Rightarrow> Ret (writeOAuthError w 500 ''server_error'' ''could not persist authorization request'')
           | Inr _ \<Rightarrow>
               Ret (renderConsent p (addBinder p w r binder) r client
                 \<lparr>cr_RedirectURI = redirectURI, cr_Scopes = scope_fields, cr_FormAction = AuthorizeURL (cfg p),
                  cr_NonceField = ConsentNonceField, cr_Nonce = nonce\<rparr>)))))))"

definition authorizeConsent :: "lib \<Rightarrow> provider \<Rightarrow> writer \<Rightarrow> request \<Rightarrow> response prog" where
  [handler_defs]: "authorizeConsent L p w r =
     (let clientID = values_get (rq_query r) ''client_id'';
          redirectURI = values_get (rq_query r) ''redirect_uri''
      in if clientID = [] \<or> redirectURI = [] then
           Ret (writeOAuthError w 400 ''invalid_request'' ''client_id and redirect_uri are required'')
         else
         GetClient clientID (\<lambda>read. case read of
           Inl err \<Rightarrow> Ret (writeOAuthError w 500 ''server_error'' ''could not load client'')
         | Inr None \<Rightarrow> Ret (writeOAuthError w 400 ''invalid_client'' ''unknown client_id'')
         | Inr (Some client) \<Rightarrow>
             if \<not> HasRedirectURI client redirectURI then
               Ret (writeOAuthError w 400 ''invalid_request'' ''redirect_uri is not registered for this client'')
             else (case checkRedirectHostPolicy L p redirectURI of
               Inl err \<Rightarrow> Ret (writeOAuthError w 400 ''invalid_request'' err)
             | Inr _ \<Rightarrow> (case authorize_query_error r of
                 Some (code, desc) \<Rightarrow> Ret (writeOAuthError w 400 code desc)
               | None \<Rightarrow> start_consent p w r client redirectURI))))"

section \<open>POST: approval\<close>

definition google_login_url :: "provider \<Rightarrow> string \<Rightarrow> string" where
  "google_login_url p state = GoogleAuthURL (cfg p) @ ''?'' @ Encode
     [(''client_id'', [GoogleClientID (cfg p)]), (''redirect_uri'', [GoogleRedirectURL (cfg p)]),
      (''response_type'', [''code'']), (''scope'', [GrantedScope]), (''state'', [state]),
      (''access_type'', [''offline'']), (''prompt'', [''select_account''])]"

definition approved_row :: "provider \<Rightarrow> pending_auth \<Rightarrow> string \<Rightarrow> time \<Rightarrow> pending_auth" where
  "approved_row p pending state now = pending\<lparr>pa_StateHash := HashSecret state, pa_Approved := True,
     pa_ExpiresAt := now + PendingAuthTTL (cfg p)\<rparr>"

definition authorizeApprove :: "provider \<Rightarrow> writer \<Rightarrow> request \<Rightarrow> response prog" where
  [handler_defs]: "authorizeApprove p w r =
     (case ParseForm maxConsentFormBytes r of
        Inl err \<Rightarrow> Ret (writeOAuthError w 400 ''invalid_request'' ''malformed form body'')
      | Inr _ \<Rightarrow>
      (let nonce = PostFormValue r ConsentNonceField
       in if nonce = [] then Ret (writeOAuthError w 400 ''invalid_request'' ''missing consent nonce'')
          else
          ConsumePendingAuth (HashSecret nonce) (\<lambda>read. case read of
            Inl err \<Rightarrow> Ret (writeOAuthError w 500 ''server_error'' ''could not load authorization request'')
          | Inr found \<Rightarrow>
          if (case found of None \<Rightarrow> True | Some pending \<Rightarrow> pa_Approved pending) then
            Ret (writeOAuthError w 400 ''invalid_request'' ''consent nonce is unknown, expired or already used'')
          else (let pending = the found in
          Now (\<lambda>checked.
          if \<not> checked < pa_ExpiresAt pending then
            Ret (writeOAuthError w 400 ''invalid_request'' ''authorization request expired'')
          else if \<not> binderMatches p r (pa_BinderHash pending) then
            Ret (writeOAuthError (dropBinder p w r (pa_BinderHash pending)) 400 ''invalid_request''
              ''this approval did not come from the browser that started the authorization request'')
          else
          randomToken 32 (\<lambda>rnd. case rnd of
            Inl err \<Rightarrow> Ret (writeOAuthError w 500 ''server_error'' ''could not generate state'')
          | Inr state \<Rightarrow>
          Now (\<lambda>now.
          SavePendingAuth (approved_row p pending state now) (\<lambda>saved. case saved of
            Inl err \<Rightarrow> Ret (writeOAuthError w 500 ''server_error'' ''could not persist authorization request'')
          | Inr _ \<Rightarrow>
              Ret (redirect (header_set ''Cache-Control'' ''no-store'' w) r (google_login_url p state))))))))))"

definition Authorize :: "lib \<Rightarrow> provider \<Rightarrow> request \<Rightarrow> response prog" where
  [handler_defs]: "Authorize L p r =
     (if rq_Method r = ''GET'' then authorizeConsent L p new_writer r
      else if rq_Method r = ''POST'' then authorizeApprove p new_writer r
      else Ret (writeOAuthError new_writer 405 ''invalid_request'' ''GET or POST required''))"

end
