(* ===== verification/Google.thy ===== *)
theory Google
  imports Http Go_Url
begin

text \<open>
  The upstream login (\<open>google.go\<close>): the exchange of Google's code, the checks of the ID
  token, and the cache of Google's signing keys. The network's replies and the JWT library are
  parameters; the program's own checks and the cache are modelled in full.
\<close>

section \<open>Decoding a key\<close>

definition b64url_value :: "char \<Rightarrow> nat option" where
  "b64url_value c =
     (if in_range CHR ''A'' CHR ''Z'' c then Some (ord c - 65)
      else if in_range CHR ''a'' CHR ''z'' c then Some (ord c - 71)
      else if is_digit c then Some (ord c + 4)
      else if c = CHR ''-'' then Some 62 else if c = CHR ''_'' then Some 63 else None)"

fun b64url_groups :: "nat list \<Rightarrow> nat list option" where
  \<comment> \<open>four sextets to three bytes; the surplus bits of a short last group are dropped\<close>
  "b64url_groups [] = Some []"
| "b64url_groups [a] = None"
| "b64url_groups [a, b] = Some [(a * 64 + b) div 16]"
| "b64url_groups [a, b, c] = Some [(a * 64 + b) div 16, (a * 4096 + b * 64 + c) div 4 mod 256]"
| "b64url_groups (a # b # c # d # r) =
     map_option (\<lambda>bs. (let n = a * 262144 + b * 4096 + c * 64 + d
        in [n div 65536, n div 256 mod 256, n mod 256]) @ bs) (b64url_groups r)"

definition b64url_decode :: "string \<Rightarrow> nat list option" where
  \<comment> \<open>\<open>RawURLEncoding.DecodeString\<close>, which skips line breaks\<close>
  "b64url_decode s =
     (let vs = map b64url_value (filter (\<lambda>c. c \<noteq> CHR 0x0A \<and> c \<noteq> CHR 0x0D) s)
      in if None \<in> set vs then None else b64url_groups (map the vs))"

definition be_nat :: "nat list \<Rightarrow> nat" where
  "be_nat bs = fold (\<lambda>b acc. acc * 256 + b) bs 0"

definition rsaPublicKeyFromJWK :: "string \<Rightarrow> string \<Rightarrow> rsa_key res" where
  "rsaPublicKeyFromJWK nB64 eB64 =
     (case b64url_decode (TrimRight nB64 CHR ''='') of
        None \<Rightarrow> Inl ''decoding jwk modulus''
      | Some nBytes \<Rightarrow>
      (case b64url_decode (TrimRight eB64 CHR ''='') of
         None \<Rightarrow> Inl ''decoding jwk exponent''
       | Some eBytes \<Rightarrow>
           if nBytes = [] \<or> eBytes = [] \<or> length eBytes > 8 then Inl ''malformed jwk rsa parameters''
           else (let e = sint (of_nat (be_nat eBytes) :: 64 word)
                 in if e \<le> 0 \<or> e > 2 ^ 31 - 1 then Inl ''jwk rsa exponent out of range''
                    else Inr \<lparr>rsa_N = be_nat nBytes, rsa_E = e\<rparr>)))"

section \<open>How long a key document may be cached\<close>

definition dec_value :: "string \<Rightarrow> nat" where
  "dec_value s = fold (\<lambda>c acc. acc * 10 + (ord c - 48)) s 0"

definition Atoi :: "string \<Rightarrow> int option" where
  \<comment> \<open>\<open>strconv.Atoi\<close> on a 64-bit platform\<close>
  "Atoi s =
     (let digits = (if HasPrefix s ''-'' \<or> HasPrefix s ''+'' then drop 1 s else s);
          v = int (dec_value digits);
          n = (if HasPrefix s ''-'' then - v else v)
      in if digits = [] \<or> \<not> list_all is_digit digits then None
         else if n < min_duration \<or> n > max_duration then None
         else Some n)"

definition duration_mult :: "int \<Rightarrow> duration \<Rightarrow> duration" where
  \<comment> \<open>the product of two \<open>int64\<close>, which wraps\<close>
  "duration_mult a b = sint (word_of_int (a * b) :: 64 word)"

definition fallbackTTL :: duration where "fallbackTTL = hour"
definition minTTL :: duration where "minTTL = minute"
definition maxTTL :: duration where "maxTTL = 24 * hour"

fun ttl_of_parts :: "string list \<Rightarrow> duration" where
  "ttl_of_parts [] = fallbackTTL"
| "ttl_of_parts (part # parts) =
     (case CutPrefix (TrimSpace part) ''max-age='' of
        None \<Rightarrow> ttl_of_parts parts
      | Some v \<Rightarrow>
          (case Atoi (TrimSpace v) of
             None \<Rightarrow> fallbackTTL
           | Some secs \<Rightarrow>
               if secs \<le> 0 then fallbackTTL
               else min (max (duration_mult secs second) minTTL) maxTTL))"

definition cacheTTL :: "string \<Rightarrow> duration" where
  "cacheTTL cacheControl = ttl_of_parts (split_char CHR '','' cacheControl)"

lemma cacheTTL_bounds: "minTTL \<le> cacheTTL s \<and> cacheTTL s \<le> maxTTL"
proof -
  have "minTTL \<le> ttl_of_parts ps \<and> ttl_of_parts ps \<le> maxTTL" for ps
    by (induction ps) (auto simp: fallbackTTL_def minTTL_def maxTTL_def split: option.split)
  then show ?thesis by (simp add: cacheTTL_def)
qed

section \<open>The key cache\<close>

definition maxStaleJWKS :: duration where "maxStaleJWKS = 24 * hour"

definition usable_jwk :: "jwk \<Rightarrow> bool" where
  "usable_jwk k \<longleftrightarrow> \<not> (jwk_Kty k \<noteq> ''RSA'' \<or> jwk_Kid k = [] \<or> (jwk_Use k \<noteq> [] \<and> jwk_Use k \<noteq> ''sig''))"

definition add_jwk :: "jwk \<Rightarrow> (string \<times> rsa_key) list \<Rightarrow> (string \<times> rsa_key) list" where
  "add_jwk k keys =
     (if \<not> usable_jwk k then keys
      else (case rsaPublicKeyFromJWK (jwk_N k) (jwk_E k) of
              Inl err \<Rightarrow> keys
            | Inr pub \<Rightarrow> AList.update (jwk_Kid k) pub keys))"

definition jwks_fetch :: "provider \<Rightarrow> (((string \<times> rsa_key) list \<times> duration) res \<Rightarrow> 'a prog) \<Rightarrow> 'a prog" where
  [handler_defs]: "jwks_fetch p k =
     (case Parse (GoogleJWKSURL (cfg p)) of
        Inl err \<Rightarrow> k (Inl ''building jwks request'')
      | Inr _ \<Rightarrow>
      HttpDo (GetURL (GoogleJWKSURL (cfg p))) (\<lambda>resp. case resp of
        Inl err \<Rightarrow> k (Inl ''fetching jwks'')
      | Inr reply \<Rightarrow>
          if hr_StatusCode reply \<noteq> 200 then k (Inl ''jwks endpoint returned status'')
          else (case hr_read reply of
            Inl err \<Rightarrow> k (Inl ''reading jwks'')
          | Inr _ \<Rightarrow> (case hr_jwks reply of
              Inl err \<Rightarrow> k (Inl ''decoding jwks'')
            | Inr doc \<Rightarrow>
                (let keys = fold add_jwk doc []
                 in if keys = [] then k (Inl ''jwks contained no usable RSA signing keys'')
                    else k (Inr (keys, cacheTTL (hr_CacheControl reply))))))))"

definition jwks_store :: "(string \<times> rsa_key) list \<Rightarrow> time \<Rightarrow> pmem \<Rightarrow> pmem" where
  "jwks_store keys expires m = m\<lparr>jwks_keys := keys, jwks_expiresAt := expires\<rparr>"

text \<open>The lookup after an expired or missing entry.\<close>

definition jwks_refresh :: "provider \<Rightarrow> string \<Rightarrow> rsa_key option \<Rightarrow> time \<Rightarrow> (rsa_key res \<Rightarrow> 'a prog) \<Rightarrow> 'a prog" where
  [handler_defs]: "jwks_refresh p kid known expiresAt k =
     jwks_fetch p (\<lambda>fetched. case fetched of
       Inl err \<Rightarrow>
         (case known of
            None \<Rightarrow> k (Inl err)
          | Some key \<Rightarrow>
              Now (\<lambda>now. if now < expiresAt + maxStaleJWKS then k (Inr key)
                else k (Inl ''google signing keys are unreachable and the cached copy is too stale'')))
     | Inr (keys, ttl) \<Rightarrow>
         Now (\<lambda>now. Locked (jwks_store keys (now + ttl)) (\<lambda>_.
           case map_of keys kid of
             None \<Rightarrow> k (Inl ''no google signing key for kid'')
           | Some key \<Rightarrow> k (Inr key))))"

definition jwks_key :: "provider \<Rightarrow> string \<Rightarrow> (rsa_key res \<Rightarrow> 'a prog) \<Rightarrow> 'a prog" where
  [handler_defs]: "jwks_key p kid k =
     (if kid = [] then k (Inl ''id_token header has no kid'')
      else Locked (\<lambda>m. m) (\<lambda>m.
        let known = map_of (jwks_keys m) kid; expiresAt = jwks_expiresAt m
        in case known of
             None \<Rightarrow> jwks_refresh p kid known expiresAt k
           | Some key \<Rightarrow> Now (\<lambda>now. if now < expiresAt then k (Inr key)
                             else jwks_refresh p kid known expiresAt k)))"

section \<open>The ID token\<close>

definition googleIssuers :: "string list" where
  "googleIssuers = [''accounts.google.com'', ''https://accounts.google.com'']"

definition google_parse_options :: "provider \<Rightarrow> parse_options" where
  "google_parse_options p = \<lparr>po_ValidMethods = [''RS256''], po_Issuer = None,
     po_Audience = GoogleClientID (cfg p), po_ExpirationRequired = True\<rparr>"

definition check_google_claims :: "lib \<Rightarrow> google_claims \<Rightarrow> string res" where
  "check_google_claims L claims =
     (if gc_Issuer claims \<notin> set googleIssuers then Inl ''unexpected google id_token issuer''
      else if \<not> gc_EmailVerified claims then Inl ''google account email is not verified''
      else (let email = TrimSpace (ToLower (unicode_lower L) (gc_Email claims))
            in if email = [] then Inl ''google id_token contained no email'' else Inr email))"

definition verifyGoogleIDToken :: "lib \<Rightarrow> provider \<Rightarrow> string \<Rightarrow> (string res \<Rightarrow> 'a prog) \<Rightarrow> 'a prog" where
  [handler_defs]: "verifyGoogleIDToken L p idToken k =
     (case jwt_kid L idToken (google_parse_options p) of
        Inl err \<Rightarrow> k (Inl ''verifying google id_token'')
      | Inr kid \<Rightarrow>
      jwks_key p kid (\<lambda>found. case found of
        Inl err \<Rightarrow> k (Inl ''verifying google id_token'')
      | Inr key \<Rightarrow>
      Now (\<lambda>now. case jwt_parse_google L idToken (google_parse_options p) now key of
        Inl err \<Rightarrow> k (Inl ''verifying google id_token'')
      | Inr claims \<Rightarrow> k (check_google_claims L claims))))"

definition exchangeGoogleCode :: "lib \<Rightarrow> provider \<Rightarrow> string \<Rightarrow> (string res \<Rightarrow> 'a prog) \<Rightarrow> 'a prog" where
  [handler_defs]: "exchangeGoogleCode L p code k =
     (case Parse (GoogleTokenURL (cfg p)) of
        Inl err \<Rightarrow> k (Inl ''building google token request'')
      | Inr _ \<Rightarrow>
      HttpDo (PostForm (GoogleTokenURL (cfg p))
          [(''code'', code), (''client_id'', GoogleClientID (cfg p)),
           (''client_secret'', GoogleClientSecret (cfg p)), (''redirect_uri'', GoogleRedirectURL (cfg p)),
           (''grant_type'', ''authorization_code'')]) (\<lambda>resp. case resp of
        Inl err \<Rightarrow> k (Inl ''calling google token endpoint'')
      | Inr reply \<Rightarrow> (case hr_read reply of
          Inl err \<Rightarrow> k (Inl ''reading google token response'')
        | Inr _ \<Rightarrow>
            if hr_StatusCode reply \<noteq> 200 then k (Inl ''google token endpoint returned status'')
            else (case hr_id_token reply of
              Inl err \<Rightarrow> k (Inl ''decoding google token response'')
            | Inr idToken \<Rightarrow>
                if idToken = [] then k (Inl ''google token response contained no id_token'')
                else verifyGoogleIDToken L p idToken k))))"

end
