(* ===== verification/Callback.thy ===== *)
theory Callback
  imports Authorize Google
begin

text \<open>
  The end of the login (\<open>handlers.go\<close>): the callback consumes the approved record, checks
  the browser, exchanges Google's code, and sends an authorization code to the client's
  redirect URI.
\<close>

section \<open>Answers on the client's redirect URI\<close>

definition appendQuery :: "string \<Rightarrow> url_values \<Rightarrow> string" where
  "appendQuery raw params =
     (case Parse raw of
        Inl err \<Rightarrow> raw
      | Inr u \<Rightarrow>
          (let q = fold (\<lambda>(k, vs) q. fold (\<lambda>v. values_set k v) vs q) params (ParseQuery (u_RawQuery u))
           in url_String (u\<lparr>u_RawQuery := Encode q\<rparr>)))"

definition with_state :: "pending_auth \<Rightarrow> url_values \<Rightarrow> url_values" where
  "with_state pending params =
     (if pa_ClientState pending \<noteq> [] then values_set ''state'' (pa_ClientState pending) params else params)"

definition redirectClientError :: "writer \<Rightarrow> request \<Rightarrow> pending_auth \<Rightarrow> string \<Rightarrow> string \<Rightarrow> response" where
  "redirectClientError w r pending code desc =
     (let params = with_state pending [(''error'', [code]), (''error_description'', [desc])]
      in redirect (header_set ''Cache-Control'' ''no-store'' w) r (appendQuery (pa_RedirectURI pending) params))"

definition extendClient :: "provider \<Rightarrow> string \<Rightarrow> time \<Rightarrow> 'a prog \<Rightarrow> 'a prog" where
  [handler_defs]: "extendClient p clientID now k =
     GetClient clientID (\<lambda>read. case read of
       Inl err \<Rightarrow> k
     | Inr None \<Rightarrow> k
     | Inr (Some c) \<Rightarrow>
         (let want = now + ClientTTL (cfg p)
          in if \<not> cl_ExpiresAt c < want then k
             else SaveClient (c\<lparr>cl_ExpiresAt := want\<rparr>) (\<lambda>_. k)))"

section \<open>The callback\<close>

definition code_row :: "provider \<Rightarrow> pending_auth \<Rightarrow> string \<Rightarrow> string \<Rightarrow> time \<Rightarrow> auth_code" where
  "code_row p pending rawCode userID now = \<lparr>
     ac_CodeHash = HashSecret rawCode, ac_ClientID = pa_ClientID pending, ac_UserID = userID,
     ac_RedirectURI = pa_RedirectURI pending, ac_CodeChallenge = pa_CodeChallenge pending,
     ac_ExpiresAt = now + AuthCodeTTL (cfg p), ac_CreatedAt = now\<rparr>"

definition issue_code :: "provider \<Rightarrow> writer \<Rightarrow> request \<Rightarrow> pending_auth \<Rightarrow> string \<Rightarrow> response prog" where
  \<comment> \<open>the rest of \<open>GoogleCallback\<close> once the user is known\<close>
  [handler_defs]: "issue_code p w r pending userID =
     randomToken 32 (\<lambda>rnd. case rnd of
       Inl err \<Rightarrow> Ret (redirectClientError w r pending ''server_error'' ''could not generate authorization code'')
     | Inr rawCode \<Rightarrow>
     Now (\<lambda>now.
     SaveAuthCode (code_row p pending rawCode userID now) (\<lambda>saved. case saved of
       Inl err \<Rightarrow> Ret (redirectClientError w r pending ''server_error'' ''could not persist authorization code'')
     | Inr _ \<Rightarrow>
         extendClient p (pa_ClientID pending) now (
           Ret (redirect (header_set ''Cache-Control'' ''no-store'' w) r
             (appendQuery (pa_RedirectURI pending) (with_state pending [(''code'', [rawCode])])))))))"

definition finish_login :: "lib \<Rightarrow> provider \<Rightarrow> writer \<Rightarrow> request \<Rightarrow> pending_auth \<Rightarrow> response prog" where
  \<comment> \<open>the rest of \<open>GoogleCallback\<close> once the pending record passed its checks\<close>
  [handler_defs]: "finish_login L p w r pending =
     (if values_get (rq_query r) ''error'' \<noteq> [] then
        Ret (redirectClientError w r pending ''access_denied'' ''the upstream login was not completed'')
      else (let code = values_get (rq_query r) ''code'' in
      if code = [] then
        Ret (redirectClientError w r pending ''invalid_request'' ''google returned no authorization code'')
      else
      exchangeGoogleCode L p code (\<lambda>identity. case identity of
        Inl err \<Rightarrow> Ret (redirectClientError w r pending ''access_denied'' ''could not verify the google login'')
      | Inr email \<Rightarrow>
      FindUserIDByEmail email (\<lambda>user. case user of
        Inl err \<Rightarrow> Ret (writeOAuthError w 500 ''server_error'' ''could not look up user'')
      | Inr None \<Rightarrow>
          Ret (finish (header_set ''Cache-Control'' ''no-store''
                        (header_set ''Content-Type'' ''text/html; charset=utf-8'' w)) 403 UnlinkedAccountPage)
      | Inr (Some userID) \<Rightarrow> issue_code p w r pending userID))))"

definition GoogleCallback :: "lib \<Rightarrow> provider \<Rightarrow> request \<Rightarrow> response prog" where
  [handler_defs]: "GoogleCallback L p r =
     (if rq_Method r \<noteq> ''GET'' then
        Ret (writeOAuthError new_writer 405 ''invalid_request'' ''GET required'')
      else (let state = values_get (rq_query r) ''state'' in
      if state = [] then Ret (writeOAuthError new_writer 400 ''invalid_request'' ''missing state'')
      else
      ConsumePendingAuth (HashSecret state) (\<lambda>read. case read of
        Inl err \<Rightarrow> Ret (writeOAuthError new_writer 500 ''server_error'' ''could not load authorization request'')
      | Inr None \<Rightarrow> Ret (writeOAuthError new_writer 400 ''invalid_request'' ''unknown, expired or already used state'')
      | Inr (Some pending) \<Rightarrow>
          (let w = dropBinder p new_writer r (pa_BinderHash pending) in
           if \<not> pa_Approved pending then
             Ret (writeOAuthError w 400 ''invalid_request'' ''this authorization request was never approved'')
           else if \<not> binderMatches p r (pa_BinderHash pending) then
             Ret (writeOAuthError w 400 ''invalid_request''
               ''this login was completed in a different browser than the one that started the authorization request; start the connection again'')
           else
           Now (\<lambda>checked.
           if \<not> checked < pa_ExpiresAt pending then
             Ret (writeOAuthError w 400 ''invalid_request'' ''authorization request expired'')
           else finish_login L p w r pending)))))"

end
