(* ===== verification/Query_Strings.thy ===== *)
theory Query_Strings
  imports Callback
begin

text \<open>
  Query strings read back: decoding what \<open>Encode\<close> wrote gives the values again. The
  redirects to Google and to the client rest on it.
\<close>

section \<open>Escaping\<close>

lemma ord_less: "ord c < 256"
  using nat_of_char_less_256 [of c] by simp

lemma nibbles: "ord c div 16 < 16" "ord c mod 16 < 16"
  using ord_less [of c] by (simp_all add: less_mult_imp_div_less)

lemma unhex_upper_hex: "n < 16 \<Longrightarrow> unhex (upper_hex n) = Some n"
  by (auto simp: unhex_def upper_hex_def in_range_def of_char_of)

abbreviation qenc :: "string \<Rightarrow> string" where "qenc s \<equiv> escape s encodeQueryComponent"

lemma unescape_char:
  "unescape (escape_char encodeQueryComponent c @ rest) encodeQueryComponent =
     (case unescape rest encodeQueryComponent of Inl e \<Rightarrow> Inl e | Inr s \<Rightarrow> Inr (c # s))"
proof (cases "shouldEscape c encodeQueryComponent \<and> c \<noteq> CHR '' ''")
  case True
  have "unhex (upper_hex (ord c div 16)) = Some (ord c div 16)" "unhex (upper_hex (ord c mod 16)) = Some (ord c mod 16)"
    by (simp_all add: unhex_upper_hex nibbles)
  then show ?thesis
    using True by (simp add: escape_char_def pct_def pct_ok_def div_mult_mod_eq split: sum.split)
next
  case False
  have "shouldEscape CHR ''%'' encodeQueryComponent" "shouldEscape CHR ''+'' encodeQueryComponent"
    by code_simp+
  with False show ?thesis by (auto simp: escape_char_def)
qed

lemma unescape_escape: "unescape (qenc s) encodeQueryComponent = Inr s"
  by (induction s) (simp_all add: escape_def unescape_char)

lemma upper_hex_plain: "n < 16 \<Longrightarrow> upper_hex n \<notin> set ''&=;''"
proof -
  have "\<forall>n \<in> set [0..<16]. upper_hex n \<notin> set ''&=;''" by code_simp
  then show "n < 16 \<Longrightarrow> ?thesis" by simp
qed

lemma escape_char_plain: "c' \<in> set (escape_char encodeQueryComponent c) \<Longrightarrow> c' \<notin> set ''&=;''"
proof -
  have "shouldEscape CHR ''&'' encodeQueryComponent" "shouldEscape CHR ''='' encodeQueryComponent"
    "shouldEscape CHR '';'' encodeQueryComponent" by code_simp+
  then show "c' \<in> set (escape_char encodeQueryComponent c) \<Longrightarrow> ?thesis"
    using upper_hex_plain [OF nibbles(1)] upper_hex_plain [OF nibbles(2)]
    by (auto simp: escape_char_def pct_def split: if_splits)
qed

lemma qenc_plain: "CHR ''&'' \<notin> set (qenc s)" "CHR ''='' \<notin> set (qenc s)" "CHR '';'' \<notin> set (qenc s)"
  using escape_char_plain by (force simp: escape_def)+

section \<open>Splitting\<close>

lemma split_char_append:
  "d \<notin> set a \<Longrightarrow> split_char d (a @ d # b) = a # split_char d b"
  by (induction a) auto

lemma split_char_single: "d \<notin> set a \<Longrightarrow> split_char d a = [a]"
  by (induction a) auto

lemma split_join:
  assumes "ss \<noteq> []" and "\<forall>s \<in> set ss. d \<notin> set s"
  shows "split_char d (join_with [d] ss) = ss"
  using assms
  by (induction "[d]" ss rule: join_with.induct) (auto simp: split_char_single split_char_append)

section \<open>The round trip\<close>

definition pair_text :: "string \<times> string \<Rightarrow> string" where
  "pair_text kv = qenc (fst kv) @ ''='' @ qenc (snd kv)"

lemma query_pair_text: "query_pair (pair_text kv) q = values_add (fst kv) (snd kv) q"
  using qenc_plain [of "fst kv"] qenc_plain [of "snd kv"]
  by (simp add: query_pair_def pair_text_def Cut_append unescape_escape)

definition flat :: "url_values \<Rightarrow> (string \<times> string) list" where
  "flat q = concat (map (\<lambda>k. map (Pair k) (the (map_of q k))) (sort (remdups (map fst q))))"

lemma Encode_flat: "Encode q = join_with ''&'' (map pair_text (flat q))"
  by (simp add: Encode_def flat_def map_concat pair_text_def comp_def)

lemma ParseQuery_pairs: "ParseQuery (join_with ''&'' (map pair_text kvs)) = fold (\<lambda>(k, v). values_add k v) kvs []"
proof (cases "kvs = []")
  case True
  then show ?thesis by (simp add: ParseQuery_def query_pair_def)
next
  case False
  have "CHR ''&'' \<notin> set (pair_text kv)" for kv
    using qenc_plain by (simp add: pair_text_def)
  then have "split_char CHR ''&'' (join_with ''&'' (map pair_text kvs)) = map pair_text kvs"
    using False by (intro split_join) auto
  moreover have "query_pair \<circ> pair_text = (\<lambda>(k, v). values_add k v)"
    by (auto simp: query_pair_text fun_eq_iff)
  ultimately show ?thesis by (simp add: ParseQuery_def fold_map)
qed

lemma map_of_values_add: "map_of (values_add k v q) k' =
    (if k' = k then Some ((case map_of q k of None \<Rightarrow> [] | Some vs \<Rightarrow> vs) @ [v]) else map_of q k')"
  by (simp add: values_add_def update_conv')

definition value_list :: "(string \<times> string list) list \<Rightarrow> string \<Rightarrow> string list" where
  "value_list q k = (case map_of q k of None \<Rightarrow> [] | Some vs \<Rightarrow> vs)"

lemma value_list_fold:
  "value_list (fold (\<lambda>(k, v). values_add k v) kvs q) k = value_list q k @ map snd (filter (\<lambda>kv. fst kv = k) kvs)"
  by (induction kvs arbitrary: q) (auto simp: value_list_def map_of_values_add)

lemma flat_values: "map snd (filter (\<lambda>kv. fst kv = k) (flat q)) = value_list q k"
proof -
  have "map snd (filter (\<lambda>kv. fst kv = k) (concat (map (\<lambda>k. map (Pair k) (f k)) ks))) = (if k \<in> set ks then f k else [])"
    if "distinct ks" for ks and f :: "string \<Rightarrow> string list"
    using that by (induction ks) (auto simp: filter_empty_conv comp_def filter_map)
  from this [of "sort (remdups (map fst q))" "\<lambda>k. the (map_of q k)"] show ?thesis
    using map_of_eq_None_iff [of q k] by (cases "map_of q k") (auto simp: flat_def value_list_def)
qed

lemma ParseQuery_Encode: "value_list (ParseQuery (Encode q)) k = value_list q k"
  by (simp add: Encode_flat ParseQuery_pairs value_list_fold flat_values) (simp add: value_list_def)

section \<open>The answer on the client's redirect URI\<close>

lemma value_list_set: "value_list (values_set k v q) k' = (if k' = k then [v] else value_list q k')"
  by (simp add: value_list_def values_set_def update_conv')

text \<open>The parameters the handlers add: single values under distinct keys, none of them the state.\<close>

definition plain_params :: "url_values \<Rightarrow> bool" where
  "plain_params ps \<longleftrightarrow> ps \<noteq> [] \<and> distinct (map fst ps) \<and> ''state'' \<notin> fst ` set ps \<and> (\<forall>kvs \<in> set ps. \<exists>v. snd kvs = [v])"

lemma plain_params_code_error [simp]:
  "plain_params [(''code'', [c])]" "plain_params [(''error'', [e]), (''error_description'', [d])]"
  by (simp_all add: plain_params_def)

definition set_params :: "url_values \<Rightarrow> url_values \<Rightarrow> url_values" where
  "set_params ps q = fold (\<lambda>(k, vs) q. fold (\<lambda>v. values_set k v) vs q) ps q"

lemma value_list_set_params:
  assumes "distinct (map fst ps)" and "\<forall>kvs \<in> set ps. \<exists>v. snd kvs = [v]"
  shows "value_list (set_params ps q) k = (case map_of ps k of Some vs \<Rightarrow> vs | None \<Rightarrow> value_list q k)"
  using assms
proof (induction ps arbitrary: q)
  case (Cons kvs ps)
  obtain k' v where kvs: "kvs = (k', [v])" using Cons.prems(2) by (cases kvs) auto
  have "set_params (kvs # ps) q = set_params ps (values_set k' v q)" by (simp add: set_params_def kvs)
  moreover have "map_of ps k' = None" using Cons.prems(1) kvs by (simp add: map_of_eq_None_iff)
  ultimately show ?case
    using Cons kvs by (auto simp: value_list_set split: option.split)
qed (simp add: set_params_def)

lemma set_params_with_state:
  assumes "''state'' \<notin> fst ` set ps"
  shows "set_params (with_state pending ps) q = (if pa_ClientState pending = [] then set_params ps q
    else values_set ''state'' (pa_ClientState pending) (set_params ps q))"
proof -
  have "AList.update k v ps = ps @ [(k, v)]" if "k \<notin> fst ` set ps" for k :: string and v :: "string list"
    using that by (induction ps) auto
  then show ?thesis using assms by (simp add: with_state_def set_params_def values_set_def)
qed

text \<open>What the client finds in the query: the parameters, its state, and what its URI already had.\<close>

definition query_answer :: "pending_auth \<Rightarrow> url_values \<Rightarrow> url \<Rightarrow> string \<Rightarrow> string list" where
  "query_answer pending ps u k = (case map_of ps k of Some vs \<Rightarrow> vs | None \<Rightarrow>
     if k = ''state'' \<and> pa_ClientState pending \<noteq> [] then [pa_ClientState pending]
     else value_list (ParseQuery (u_RawQuery u)) k)"

definition url_fragment :: "url \<Rightarrow> string" where
  "url_fragment u = (if u_Fragment u = [] then [] else ''#'' @ escape (u_Fragment u) encodeFragment)"

lemma appendQuery_read:
  assumes u: "Parse (pa_RedirectURI pending) = Inr u" and "plain_params ps"
  shows "\<exists>query. appendQuery (pa_RedirectURI pending) (with_state pending ps) = url_prefix u @ ''?'' @ query @ url_fragment u \<and>
    (\<forall>k. value_list (ParseQuery query) k = query_answer pending ps u k)"
proof -
  let ?q = "set_params (with_state pending ps) (ParseQuery (u_RawQuery u))"
  have ps: "distinct (map fst ps)" "\<forall>kvs \<in> set ps. \<exists>v. snd kvs = [v]" "''state'' \<notin> fst ` set ps"
    using assms(2) by (simp_all add: plain_params_def)
  then have "map_of ps ''state'' = None" by (simp add: map_of_eq_None_iff)
  then have q: "value_list ?q k = query_answer pending ps u k" for k
    by (auto simp: set_params_with_state [OF ps(3)] value_list_set value_list_set_params [OF ps(1,2)] query_answer_def
        split: option.split)
  obtain k v ps' where "ps = (k, [v]) # ps'" using assms(2) by (cases ps) (force simp: plain_params_def)+
  then have "query_answer pending ps u k = [v]" by (simp add: query_answer_def)
  then have "Encode ?q \<noteq> []"
    using ParseQuery_Encode [of ?q k] q [of k] by (auto simp: ParseQuery_def query_pair_def value_list_def)
  moreover have "url_prefix (u\<lparr>u_RawQuery := x\<rparr>) = url_prefix u" for x
    by (simp add: url_prefix_def EscapedPath_def)
  ultimately have "appendQuery (pa_RedirectURI pending) (with_state pending ps) = url_prefix u @ ''?'' @ Encode ?q @ url_fragment u"
    by (simp add: appendQuery_def u url_String_def url_fragment_def Let_def set_params_def)
  then show ?thesis
    by (intro exI [of _ "Encode ?q"]) (simp add: ParseQuery_Encode q)
qed

text \<open>
  An answer on the redirect URI of a record: a redirect, not to be cached, to that URI with a
  query in which the client reads these parameters (to the text as it is when it is no URL).
\<close>

definition sent_back :: "pending_auth \<Rightarrow> url_values \<Rightarrow> response \<Rightarrow> bool" where
  "sent_back pending ps resp \<longleftrightarrow> rs_status resp = 302 \<and>
     map_of (rs_headers resp) ''Cache-Control'' = Some ''no-store'' \<and>
     (case Parse (pa_RedirectURI pending) of
        Inl err \<Rightarrow> Location resp = Some (hexEscapeNonASCII (pa_RedirectURI pending))
      | Inr u \<Rightarrow> \<exists>query. Location resp = Some (hexEscapeNonASCII (url_prefix u @ ''?'' @ query @ url_fragment u)) \<and>
          (\<forall>k. value_list (ParseQuery query) k = query_answer pending ps u k))"

lemma redirect_header:
  "k \<noteq> ''Location'' \<Longrightarrow> k \<noteq> ''Content-Type'' \<Longrightarrow> map_of (rs_headers (redirect w r u)) k = map_of (wr_headers w) k"
  by (simp add: redirect_def finish_def Let_def header_set_def update_conv')

lemma sent_back_redirect:
  assumes "plain_params ps"
  shows "sent_back pending ps (redirect (header_set ''Cache-Control'' ''no-store'' w) r
    (appendQuery (pa_RedirectURI pending) (with_state pending ps)))"
proof -
  have "map_of (wr_headers (header_set ''Cache-Control'' ''no-store'' w)) ''Cache-Control'' = Some ''no-store''"
    by (simp add: header_set_def update_conv')
  then show ?thesis
    using appendQuery_read [OF _ assms, of pending]
    by (cases "Parse (pa_RedirectURI pending)") (force simp: sent_back_def redirect_header appendQuery_def)+
qed

lemma sent_back_error: "sent_back pending [(''error'', [e]), (''error_description'', [d])] (redirectClientError w r pending e d)"
  by (simp add: redirectClientError_def sent_back_redirect)

text \<open>What Google finds in the query of the login redirect.\<close>

lemma google_login_read:
  "\<exists>query. google_login_url p state = GoogleAuthURL (cfg p) @ ''?'' @ query \<and>
     value_list (ParseQuery query) ''state'' = [state] \<and>
     value_list (ParseQuery query) ''client_id'' = [GoogleClientID (cfg p)] \<and>
     value_list (ParseQuery query) ''redirect_uri'' = [GoogleRedirectURL (cfg p)] \<and>
     value_list (ParseQuery query) ''response_type'' = [''code''] \<and>
     value_list (ParseQuery query) ''scope'' = [''openid email profile'']"
  unfolding google_login_url_def
  by (intro exI conjI, rule refl) (simp_all add: ParseQuery_Encode, simp_all add: value_list_def GrantedScope_def)

end
