(* ===== verification/Flow_Spec.thy ===== *)
theory Flow_Spec
  imports Query_Strings Wp
begin

text \<open>
  What the login handlers guarantee, as postconditions over the abstract store: the consent
  page (\<open>authorizeConsent\<close>), the approval (\<open>authorizeApprove\<close>) and the callback
  (\<open>GoogleCallback\<close>), for stores whose calls may fail.
\<close>

section \<open>The upstream identity\<close>

text \<open>A signing key Google published in a reply of this run, or one cached and not too stale.\<close>

definition published_key :: "provider \<Rightarrow> env \<Rightarrow> string \<Rightarrow> rsa_key \<Rightarrow> bool" where
  "published_key p E kid key \<longleftrightarrow> (\<exists>n reply doc. e_http E n (GetURL (GoogleJWKSURL (cfg p))) = Inr reply \<and>
     hr_StatusCode reply = 200 \<and> hr_jwks reply = Inr doc \<and> map_of (fold add_jwk doc []) kid = Some key)"

lemma published_keyI:
  "e_http E n (GetURL (GoogleJWKSURL (cfg p))) = Inr reply \<Longrightarrow> hr_StatusCode reply = 200 \<Longrightarrow>
     hr_jwks reply = Inr doc \<Longrightarrow> map_of (fold add_jwk doc []) kid = Some key \<Longrightarrow> published_key p E kid key"
  by (auto simp: published_key_def)

definition cached_key :: "env \<Rightarrow> pmem \<Rightarrow> string \<Rightarrow> rsa_key \<Rightarrow> bool" where
  "cached_key E m kid key \<longleftrightarrow> map_of (jwks_keys m) kid = Some key \<and>
     (\<exists>n. e_now E n < jwks_expiresAt m + maxStaleJWKS)"

text \<open>
  The email of a Google account whose ID token, signed with RS256 for this deployment's client ID
  and not expired, answered the exchange of \<open>code\<close>.
\<close>

definition identified :: "lib \<Rightarrow> provider \<Rightarrow> env \<Rightarrow> pmem \<Rightarrow> string \<Rightarrow> string \<Rightarrow> bool" where
  "identified L p E m code email \<longleftrightarrow> (\<exists>n reply idToken opts kid key k claims.
     opts = \<lparr>po_ValidMethods = [''RS256''], po_Issuer = None, po_Audience = GoogleClientID (cfg p),
       po_ExpirationRequired = True\<rparr> \<and>
     e_http E n (PostForm (GoogleTokenURL (cfg p))
       [(''code'', code), (''client_id'', GoogleClientID (cfg p)),
        (''client_secret'', GoogleClientSecret (cfg p)), (''redirect_uri'', GoogleRedirectURL (cfg p)),
        (''grant_type'', ''authorization_code'')]) = Inr reply \<and>
     hr_StatusCode reply = 200 \<and> hr_id_token reply = Inr idToken \<and>
     jwt_kid L idToken opts = Inr kid \<and> kid \<noteq> [] \<and>
     (published_key p E kid key \<or> cached_key E m kid key) \<and>
     jwt_parse_google L idToken opts (e_now E k) key = Inr claims \<and>
     gc_Issuer claims \<in> {''accounts.google.com'', ''https://accounts.google.com''} \<and> gc_EmailVerified claims \<and>
     email = TrimSpace (ToLower (unicode_lower L) (gc_Email claims)) \<and> email \<noteq> [])"

text \<open>What the login leaves alone: the store, the random source, the purge slot and the grace cache.\<close>

definition upstream_only :: "'s world \<Rightarrow> 's world \<Rightarrow> bool" where
  "upstream_only w w' \<longleftrightarrow> w_store w' = w_store w \<and> w_rand w' = w_rand w \<and>
     grace (w_mem w') = grace (w_mem w) \<and> lastPurge (w_mem w') = lastPurge (w_mem w)"

lemma upstream_only_refl [simp]: "upstream_only w w"
  by (simp add: upstream_only_def)

lemma upstream_only_tick [simp]:
  "upstream_only w (w'\<lparr>w_tick := n\<rparr>) = upstream_only w w'"
  "upstream_only (w\<lparr>w_tick := n\<rparr>) w' = upstream_only w w'"
  by (simp_all add: upstream_only_def)

lemma upstream_only_jwks [simp]:
  "upstream_only w (w'\<lparr>w_mem := jwks_store ks t (w_mem w')\<rparr>) = upstream_only w w'"
  by (simp add: upstream_only_def jwks_store_def)

lemma awp_jwks_fetch:
  assumes "\<And>e n. awp rel N E (k (Inl e)) (w\<lparr>w_tick := n\<rparr>) Q"
    and "\<And>n reply doc. e_http E n (GetURL (GoogleJWKSURL (cfg p))) = Inr reply \<Longrightarrow> hr_StatusCode reply = 200 \<Longrightarrow>
      hr_jwks reply = Inr doc \<Longrightarrow>
      awp rel N E (k (Inr (fold add_jwk doc [], cacheTTL (hr_CacheControl reply)))) (w\<lparr>w_tick := Suc n\<rparr>) Q"
  shows "awp rel N E (jwks_fetch p k) w Q"
  using assms(1) [of _ "w_tick w"] assms
  by (auto simp: jwks_fetch_def Let_def split: sum.split)

lemma awp_jwks_refresh:
  assumes "\<And>e n. awp rel N E (k (Inl e)) (w\<lparr>w_tick := n\<rparr>) Q"
    and "\<And>e n ks t. awp rel N E (k (Inl e)) (w\<lparr>w_tick := n, w_mem := jwks_store ks t (w_mem w)\<rparr>) Q"
    and "\<And>key n j. known = Some key \<Longrightarrow> e_now E j < expires + maxStaleJWKS \<Longrightarrow>
      awp rel N E (k (Inr key)) (w\<lparr>w_tick := n\<rparr>) Q"
    and "\<And>key n ks t. published_key p E kid key \<Longrightarrow>
      awp rel N E (k (Inr key)) (w\<lparr>w_tick := n, w_mem := jwks_store ks t (w_mem w)\<rparr>) Q"
  shows "awp rel N E (jwks_refresh p kid known expires k) w Q"
  unfolding jwks_refresh_def
  by (rule awp_jwks_fetch)
     (use assms(1,2,4) published_keyI assms(3) in \<open>auto split: option.split\<close>)

lemma awp_jwks_key:
  assumes "\<And>e w'. upstream_only w w' \<Longrightarrow> awp rel N E (k (Inl e)) w' Q"
    and "\<And>key w'. upstream_only w w' \<Longrightarrow> kid \<noteq> [] \<Longrightarrow>
      published_key p E kid key \<or> cached_key E (w_mem w) kid key \<Longrightarrow> awp rel N E (k (Inr key)) w' Q"
  shows "awp rel N E (jwks_key p kid k) w Q"
proof -
  have stale: "e_now E j < jwks_expiresAt (w_mem w) \<Longrightarrow> e_now E j < jwks_expiresAt (w_mem w) + maxStaleJWKS" for j
    by (simp add: maxStaleJWKS_def)
  have "awp rel N E (jwks_refresh p kid (map_of (jwks_keys (w_mem w)) kid) (jwks_expiresAt (w_mem w)) k) w' Q"
    if "kid \<noteq> []" and "w' = w \<or> w' = w\<lparr>w_tick := Suc (w_tick w)\<rparr>" for w'
    by (rule awp_jwks_refresh) (use that in \<open>auto intro!: assms simp: cached_key_def upstream_only_def jwks_store_def\<close>)
  from this [of w] this [of "w\<lparr>w_tick := Suc (w_tick w)\<rparr>"] show ?thesis
    by (auto simp: jwks_key_def Let_def cached_key_def split: option.split intro!: assms dest: stale)
qed

lemma awp_exchange:
  assumes "\<And>e w'. upstream_only w w' \<Longrightarrow> awp rel N E (k (Inl e)) w' Q"
    and "\<And>email w'. upstream_only w w' \<Longrightarrow> identified L p E (w_mem w) code email \<Longrightarrow>
      awp rel N E (k (Inr email)) w' Q"
  shows "awp rel N E (exchangeGoogleCode L p code k) w Q"
proof -
  have verify: "awp rel N E (verifyGoogleIDToken L p idToken k) (w\<lparr>w_tick := m\<rparr>) Q"
    if "e_http E n (PostForm (GoogleTokenURL (cfg p))
       [(''code'', code), (''client_id'', GoogleClientID (cfg p)),
        (''client_secret'', GoogleClientSecret (cfg p)), (''redirect_uri'', GoogleRedirectURL (cfg p)),
        (''grant_type'', ''authorization_code'')]) = Inr reply"
      and "hr_StatusCode reply = 200" and "hr_id_token reply = Inr idToken" for n m reply idToken
  proof -
    have claims: "awp rel N E (k (check_google_claims L claims)) w' Q"
      if "upstream_only w w'" and "jwt_kid L idToken (google_parse_options p) = Inr kid" and "kid \<noteq> []"
        and "published_key p E kid key \<or> cached_key E (w_mem w) kid key"
        and "jwt_parse_google L idToken (google_parse_options p) (e_now E j) key = Inr claims" for w' kid key j claims
    proof (cases "check_google_claims L claims")
      case (Inr email)
      then have "identified L p E (w_mem w) code email"
        unfolding identified_def using that \<open>e_http E n _ = Inr reply\<close> \<open>hr_StatusCode reply = 200\<close> \<open>hr_id_token reply = Inr idToken\<close>
        by (fastforce simp: check_google_claims_def google_parse_options_def googleIssuers_def Let_def split: if_splits)
      with Inr that show ?thesis by (simp add: assms(2))
    qed (use that in \<open>simp add: assms(1)\<close>)
    show ?thesis
    proof (cases "jwt_kid L idToken (google_parse_options p)")
      case (Inr kid)
      have "awp rel N E (case jwt_parse_google L idToken (google_parse_options p) (e_now E j) key of
          Inl err \<Rightarrow> k (Inl ''verifying google id_token'') | Inr claims \<Rightarrow> k (check_google_claims L claims))
          (w'\<lparr>w_tick := i\<rparr>) Q"
        if "upstream_only w w'" and "kid \<noteq> []" and "published_key p E kid key \<or> cached_key E (w_mem w) kid key" for w' key j i
        using that Inr by (auto split: sum.split simp: assms(1) claims)
      then show ?thesis
        unfolding verifyGoogleIDToken_def by (auto simp: Inr assms(1) intro!: awp_jwks_key)
    qed (simp add: verifyGoogleIDToken_def assms(1))
  qed
  show ?thesis
    by (auto simp: exchangeGoogleCode_def Let_def assms split: sum.split intro!: verify)
qed

section \<open>The callback\<close>

definition bound_browser :: "provider \<Rightarrow> request \<Rightarrow> pending_auth \<Rightarrow> bool" where
  "bound_browser p r pending \<longleftrightarrow> (\<exists>v \<in> set (readBinders p r). HashSecret v = pa_BinderHash pending)"

text \<open>
  An answer that carries no code: an error page or an OAuth error that redirects nowhere, or an
  error on the redirect URI of the record that was found.
\<close>

definition plain_error :: "response \<Rightarrow> bool" where
  "plain_error resp \<longleftrightarrow> 400 \<le> rs_status resp \<and> Location resp = None \<and>
     (rs_body resp = UnlinkedAccountPage \<or> (\<exists>code desc. rs_body resp = ErrorBody code desc))"

definition no_code :: "pending_auth option \<Rightarrow> response \<Rightarrow> bool" where
  "no_code found resp \<longleftrightarrow> plain_error resp \<or>
     (\<exists>pending e d. found = Some pending \<and> sent_back pending [(''error'', [e]), (''error_description'', [d])] resp)"

lemma Location_finish: "Location (finish w st b) = map_of (wr_headers w) ''Location''"
  by (simp add: Location_def finish_def)

lemma header_set_other [simp]: "k \<noteq> k' \<Longrightarrow> map_of (wr_headers (header_set k v w)) k' = map_of (wr_headers w) k'"
  by (simp add: header_set_def update_conv')

lemma headers_new_writer [simp]: "wr_headers new_writer = []"
  by (simp add: new_writer_def)

lemma headers_dropBinder [simp]: "wr_headers (dropBinder p w r h) = wr_headers w"
  by (simp add: dropBinder_def writeBinderCookie_def set_cookie_def)

lemma headers_addBinder [simp]: "wr_headers (addBinder p w r v) = wr_headers w"
  by (simp add: addBinder_eq writeBinderCookie_def set_cookie_def)

lemma Location_writeOAuthError [simp]:
  "map_of (wr_headers w) ''Location'' = None \<Longrightarrow> Location (writeOAuthError w st e d) = None"
  by (simp add: writeOAuthError_def writeJSON_def Location_finish)

lemma no_code_simps [simp]:
  "map_of (wr_headers w) ''Location'' = None \<Longrightarrow> 400 \<le> st \<Longrightarrow> no_code found (writeOAuthError w st e d)"
  "map_of (wr_headers w) ''Location'' = None \<Longrightarrow> 400 \<le> st \<Longrightarrow> no_code found (finish w st UnlinkedAccountPage)"
  "no_code (Some pending) (redirectClientError w r pending e d)"
proof -
  show "no_code (Some pending) (redirectClientError w r pending e d)"
    using sent_back_error unfolding no_code_def by blast
qed (auto simp: no_code_def plain_error_def Location_finish, simp_all add: finish_def)

text \<open>Everything that must hold before a code of \<open>pending\<close> for \<open>userID\<close> is stored.\<close>

definition may_issue :: "lib \<Rightarrow> provider \<Rightarrow> env \<Rightarrow> request \<Rightarrow> astore world \<Rightarrow> pending_auth \<Rightarrow> string \<Rightarrow> bool" where
  "may_issue L p E r w pending userID \<longleftrightarrow>
     a_pending (w_store w) (HashSecret (values_get (rq_query r) ''state'')) = Some pending \<and>
     pa_Approved pending \<and> bound_browser p r pending \<and> e_now E (w_tick w) < pa_ExpiresAt pending \<and>
     (\<exists>email. identified L p E (w_mem w) (values_get (rq_query r) ''code'') email \<and>
        a_users (w_store w) email = Some userID)"

text \<open>
  The row of a code, field by field, for a secret \<open>raw\<close> and a reading of the clock, as the
  backend keeps it.
\<close>

definition code_of_pending :: "provider \<Rightarrow> rounding \<Rightarrow> env \<Rightarrow> pending_auth \<Rightarrow> string \<Rightarrow> string \<Rightarrow> auth_code \<Rightarrow> bool" where
  "code_of_pending p n E pending userID raw row \<longleftrightarrow>
     ac_CodeHash row = HashSecret raw \<and> ac_ClientID row = pa_ClientID pending \<and> ac_UserID row = userID \<and>
     ac_RedirectURI row = pa_RedirectURI pending \<and> ac_CodeChallenge row = pa_CodeChallenge pending \<and>
     (\<exists>k. ac_ExpiresAt row = r_row n (e_now E k + AuthCodeTTL (cfg p)) \<and> ac_CreatedAt row = r_row n (e_now E k))"

text \<open>
  The tables after a code was stored, or nothing was; \<open>rnd\<close> are the bytes the random
  source has left.
\<close>

definition issue_post ::
  "provider \<Rightarrow> rounding \<Rightarrow> env \<Rightarrow> pending_auth \<Rightarrow> string \<Rightarrow> byte list \<Rightarrow> astore \<Rightarrow> response \<Rightarrow> astore \<Rightarrow> bool" where
  "issue_post p n E pending userID rnd a resp a' \<longleftrightarrow>
     a_pending a' = a_pending a \<and> a_refresh a' = a_refresh a \<and> a_users a' = a_users a \<and>
     (no_code (Some pending) resp \<and> a_codes a' = a_codes a \<or>
      (\<exists>row. code_of_pending p n E pending userID (b64url_encode (take 32 rnd)) row \<and>
         a_codes a' = (a_codes a)(HashSecret (b64url_encode (take 32 rnd)) \<mapsto> row) \<and>
         (no_code (Some pending) resp \<or> sent_back pending [(''code'', [b64url_encode (take 32 rnd)])] resp)))"

lemma code_of_pending_row [simp]:
  "code_of_pending p n E pending userID raw (nrm_code n (code_row p pending raw userID (e_now E k)))"
  by (auto simp: code_of_pending_def nrm_code_def code_row_def)

lemma issue_post_code:
  fixes a :: astore and p n E pending userID
  defines "a' raw k \<equiv> put_code (nrm_code n (code_row p pending raw userID (e_now E k))) a"
  assumes "raw = b64url_encode (take 32 rnd)"
  shows "no_code (Some pending) resp \<Longrightarrow> issue_post p n E pending userID rnd a resp (a' raw k)"
    and "no_code (Some pending) resp \<Longrightarrow> issue_post p n E pending userID rnd a resp a"
    and "issue_post p n E pending userID rnd a (redirect (header_set ''Cache-Control'' ''no-store'' W) r
      (appendQuery (pa_RedirectURI pending) (with_state pending [(''code'', [raw])]))) (a' raw k)"
    and "issue_post p n E pending userID rnd a (redirect (header_set ''Cache-Control'' ''no-store'' W) r
      (appendQuery (pa_RedirectURI pending) (with_state pending [(''code'', [raw])]))) (put_client c (a' raw k))"
proof -
  have row: "ac_CodeHash (nrm_code n (code_row p pending raw userID t)) = HashSecret raw" for t
    by (simp add: nrm_code_def code_row_def)
  have stored: "issue_post p n E pending userID rnd a resp b"
    if "a_pending b = a_pending a" "a_refresh b = a_refresh a" "a_users b = a_users a"
      "a_codes b = (a_codes a)(HashSecret raw \<mapsto> nrm_code n (code_row p pending raw userID (e_now E k)))"
      "no_code (Some pending) resp \<or> sent_back pending [(''code'', [raw])] resp" for b resp
    using that code_of_pending_row [of p n E pending userID raw k] unfolding issue_post_def assms(2) by blast
  show "no_code (Some pending) resp \<Longrightarrow> issue_post p n E pending userID rnd a resp (a' raw k)"
    "issue_post p n E pending userID rnd a (redirect (header_set ''Cache-Control'' ''no-store'' W) r
      (appendQuery (pa_RedirectURI pending) (with_state pending [(''code'', [raw])]))) (a' raw k)"
    "issue_post p n E pending userID rnd a (redirect (header_set ''Cache-Control'' ''no-store'' W) r
      (appendQuery (pa_RedirectURI pending) (with_state pending [(''code'', [raw])]))) (put_client c (a' raw k))"
    by (rule stored; simp add: a'_def put_code_def put_client_def row sent_back_redirect)+
  show "no_code (Some pending) resp \<Longrightarrow> issue_post p n E pending userID rnd a resp a"
    by (simp add: issue_post_def)
qed

lemma rand_token: "fst (rand_read n bs) = Some b \<Longrightarrow> b = take n bs \<and> n \<le> length bs \<and> snd (rand_read n bs) = drop n bs"
  by (auto simp: rand_read_def split: if_splits)

lemma awp_extendClient:
  assumes "awp False N E k w Q" and "\<And>c. awp False N E k (w\<lparr>w_store := put_client c (w_store w)\<rparr>) Q"
  shows "awp False N E (extendClient p i now k) w Q"
  using assms by (auto simp: extendClient_def Let_def split: option.split)

lemma awp_issue_code:
  "awp False N E (issue_code p W r pending userID) w
     (\<lambda>resp w'. issue_post p N E pending userID (w_rand w) (w_store w) resp (w_store w'))"
  unfolding issue_code_def randomToken_def
  by (auto split: option.split intro!: awp_extendClient intro: issue_post_code dest!: rand_token)

lemma awp_finish_login:
  assumes "map_of (wr_headers W) ''Location'' = None"
  shows "awp False N E (finish_login L p W r pending) w (\<lambda>resp w'. no_code (Some pending) resp \<and> w_store w' = w_store w \<or>
     (\<exists>email userID. identified L p E (w_mem w) (values_get (rq_query r) ''code'') email \<and>
        a_users (w_store w) email = Some userID \<and>
        issue_post p N E pending userID (w_rand w) (w_store w) resp (w_store w')))"
    (is "awp _ _ _ _ _ ?Q")
proof -
  have "awp False N E (issue_code p W r pending userID) w' ?Q"
    if "upstream_only w w'" and "identified L p E (w_mem w) (values_get (rq_query r) ''code'') email"
      and "a_users (w_store w) email = Some userID" for w' email userID
    by (rule awp_mono [OF awp_issue_code]) (use that in \<open>auto simp: upstream_only_def\<close>)
  then show ?thesis
    unfolding finish_login_def Let_def
    by (auto simp: upstream_only_def assms intro!: awp_exchange split: option.split)
qed

text \<open>The state is used up by any answer but the error of the load itself.\<close>

definition state_burned :: "request \<Rightarrow> response \<Rightarrow> astore \<Rightarrow> astore \<Rightarrow> bool" where
  "state_burned r resp a a' \<longleftrightarrow>
     a_pending a' = (a_pending a)(HashSecret (values_get (rq_query r) ''state'') := None) \<or>
     (a' = a \<and> (rq_Method r \<noteq> ''GET'' \<or> values_get (rq_query r) ''state'' = [] \<or> rs_status resp = 500))"

definition callback_post ::
  "lib \<Rightarrow> provider \<Rightarrow> rounding \<Rightarrow> env \<Rightarrow> request \<Rightarrow> astore world \<Rightarrow> response \<Rightarrow> astore world \<Rightarrow> bool" where
  "callback_post L p n E r w resp w' \<longleftrightarrow>
     (let found = a_pending (w_store w) (HashSecret (values_get (rq_query r) ''state''));
          raw = b64url_encode (take 32 (w_rand w))
      in state_burned r resp (w_store w) (w_store w') \<and>
     a_refresh (w_store w') = a_refresh (w_store w) \<and> a_users (w_store w') = a_users (w_store w) \<and>
     (no_code found resp \<and> a_codes (w_store w') = a_codes (w_store w) \<or>
      (\<exists>pending userID row. may_issue L p E r w pending userID \<and> code_of_pending p n E pending userID raw row \<and>
         a_codes (w_store w') = (a_codes (w_store w))(HashSecret raw \<mapsto> row) \<and>
         (no_code found resp \<or> sent_back pending [(''code'', [raw])] resp))))"

lemma awp_GoogleCallback:
  "awp False N E (GoogleCallback L p r) w (callback_post L p N E r w)"
proof -
  have "awp False N E (finish_login L p (dropBinder p new_writer r (pa_BinderHash pending)) r pending)
      (w\<lparr>w_store := del_pending (HashSecret (values_get (rq_query r) ''state'')) (w_store w), w_tick := m\<rparr>)
      (callback_post L p N E r w)"
    if "a_pending (w_store w) (HashSecret (values_get (rq_query r) ''state'')) = Some pending"
      and "pa_Approved pending" and "binderMatches p r (pa_BinderHash pending)"
      and "e_now E (w_tick w) < pa_ExpiresAt pending" for pending m
    by (rule awp_mono [OF awp_finish_login])
       (use that in \<open>auto simp: callback_post_def Let_def state_burned_def del_pending_def issue_post_def may_issue_def
          bound_browser_def binderMatches_iff\<close>)
  then show ?thesis
    by (auto simp: GoogleCallback_def Let_def callback_post_def state_burned_def del_pending_def
        split: option.split)
qed

text \<open>What follows the load of the record adds no record.\<close>

lemma awp_finish_login_keeps:
  assumes "map_of (wr_headers W) ''Location'' = None" and "a_pending (w_store w) = m"
  shows "awp False N E (finish_login L p W r pending) w (\<lambda>resp w'. a_pending (w_store w') = m)"
  by (rule awp_mono [OF awp_finish_login [OF assms(1)]]) (use assms(2) in \<open>auto simp: issue_post_def\<close>)

section \<open>The consent page\<close>

text \<open>An OAuth error in JSON, which redirects nowhere.\<close>

definition oauth_error :: "response \<Rightarrow> bool" where
  "oauth_error resp \<longleftrightarrow> 400 \<le> rs_status resp \<and> Location resp = None \<and> (\<exists>code desc. rs_body resp = ErrorBody code desc)"

lemma oauth_errorI [simp]:
  "400 \<le> st \<Longrightarrow> map_of (wr_headers w) ''Location'' = None \<Longrightarrow> oauth_error (writeOAuthError w st e d)"
  by (simp add: oauth_error_def)

definition valid_authorize :: "lib \<Rightarrow> provider \<Rightarrow> request \<Rightarrow> astore \<Rightarrow> client \<Rightarrow> bool" where
  "valid_authorize L p r a client \<longleftrightarrow>
     (let q = values_get (rq_query r)
      in a_clients a (q ''client_id'') = Some client \<and> q ''redirect_uri'' \<in> set (cl_RedirectURIs client) \<and>
         allowed_host L p (q ''redirect_uri'') \<and> q ''response_type'' = ''code'' \<and>
         43 \<le> length (q ''code_challenge'') \<and> length (q ''code_challenge'') \<le> 128 \<and>
         list_all (\<lambda>c. b64url_alphabet c \<or> c = CHR ''.'' \<or> c = CHR ''~'') (q ''code_challenge'') \<and>
         q ''code_challenge_method'' = ''S256'' \<and> length (q ''state'') \<le> 512)"

text \<open>
  The record a valid request leaves, field by field, for the secrets of the page and of the
  browser; and the page it is answered with.
\<close>

definition asked_row ::
  "provider \<Rightarrow> rounding \<Rightarrow> env \<Rightarrow> request \<Rightarrow> client \<Rightarrow> string \<Rightarrow> string \<Rightarrow> pending_auth \<Rightarrow> bool" where
  "asked_row p n E r client nonce bnd row \<longleftrightarrow>
     pa_StateHash row = HashSecret nonce \<and> pa_ClientID row = cl_ClientID client \<and>
     pa_RedirectURI row = values_get (rq_query r) ''redirect_uri'' \<and>
     pa_CodeChallenge row = values_get (rq_query r) ''code_challenge'' \<and>
     pa_ClientState row = values_get (rq_query r) ''state'' \<and>
     pa_BinderHash row = HashSecret bnd \<and> \<not> pa_Approved row \<and>
     (\<exists>k. pa_ExpiresAt row = r_row n (e_now E k + PendingAuthTTL (cfg p)) \<and> pa_CreatedAt row = r_row n (e_now E k))"

lemma asked_row_pending [simp]:
  "asked_row p n E r client nonce bnd (nrm_pending n (pending_row p nonce (cl_ClientID client)
     (values_get (rq_query r) ''redirect_uri'') (values_get (rq_query r) ''code_challenge'')
     (values_get (rq_query r) ''state'') bnd (e_now E k)))"
  by (auto simp: asked_row_def nrm_pending_def pending_row_def)

definition consent_page :: "provider \<Rightarrow> request \<Rightarrow> client \<Rightarrow> string \<Rightarrow> string \<Rightarrow> response" where
  "consent_page p r client nonce bnd = renderConsent p (addBinder p new_writer r bnd) r client
     \<lparr>cr_RedirectURI = values_get (rq_query r) ''redirect_uri'', cr_Scopes = scope_fields,
      cr_FormAction = AuthorizeURL (cfg p), cr_NonceField = ConsentNonceField, cr_Nonce = nonce\<rparr>"

definition consent_post ::
  "lib \<Rightarrow> provider \<Rightarrow> rounding \<Rightarrow> env \<Rightarrow> request \<Rightarrow> byte list \<Rightarrow> astore \<Rightarrow> response \<Rightarrow> astore \<Rightarrow> bool" where
  "consent_post L p n E r rnd a resp a' \<longleftrightarrow> oauth_error resp \<and> a' = a \<or>
     (\<exists>client t b. valid_authorize L p r a client \<and> purge_partly t a b \<and>
        (oauth_error resp \<and> a' = b \<or>
         64 \<le> length rnd \<and>
         (let nonce = b64url_encode (take 32 rnd); bnd = b64url_encode (take 32 (drop 32 rnd))
          in \<exists>row. asked_row p n E r client nonce bnd row \<and> a' = put_pending row b \<and>
           (oauth_error resp \<or> resp = consent_page p r client nonce bnd))))"

lemma purge_partly_refl [simp]: "purge_partly t a a"
  by (simp add: purge_partly_def)

lemma purge_partly_purge [simp]: "purge_partly t a (purge t a)"
  by (simp add: purge_partly_def purge_def)

lemma awp_maybePurge:
  assumes "sane_clock E"
    and "\<And>w' t. purge_partly t (w_store w) (w_store w') \<Longrightarrow> w_rand w' = w_rand w \<Longrightarrow> awp False N E k w' Q"
  shows "awp False N E (maybePurge p k) w Q"
proof -
  have "awp False N E k w' Q" if "w_store w' = w_store w" "w_rand w' = w_rand w" for w'
    by (rule assms(2) [of t]) (simp_all add: that)
  moreover have "awp False N E k w' Q"
    if "w_store w' = purge (r_row N (e_now E (Suc (w_tick w)))) (w_store w)" "w_rand w' = w_rand w" for w'
    by (rule assms(2) [OF _ that(2)]) (subst that(1), rule purge_partly_purge)
  ultimately show ?thesis
    using assms(1)
    by (auto simp: maybePurge_def Provider_PurgeExpired_def awp.simps(16) all_res_split intro: assms(2))
qed

lemma query_error_None:
  "authorize_query_error r = None \<longleftrightarrow> (let q = values_get (rq_query r) in
     q ''response_type'' = ''code'' \<and> is_ok (validateCodeChallenge (q ''code_challenge'')) \<and>
     q ''code_challenge_method'' = ''S256'' \<and> length (q ''state'') \<le> 512)"
proof -
  have "\<not> is_ok (validateCodeChallenge [])"
    by (simp add: validateCodeChallenge_def minCodeChallengeLen_def)
  then show ?thesis
    by (auto simp: authorize_query_error_def maxClientStateLen_def Let_def is_ok_def split: sum.splits)
qed

lemma awp_start_consent:
  assumes "sane_clock E" and "valid_authorize L p r (w_store w) client"
  shows "awp False N E (start_consent p new_writer r client (values_get (rq_query r) ''redirect_uri'')) w
    (\<lambda>resp w'. consent_post L p N E r (w_rand w) (w_store w) resp (w_store w'))"
proof -
  let ?nonce = "b64url_encode (take 32 (w_rand w))" and ?bnd = "b64url_encode (take 32 (drop 32 (w_rand w)))"
  let ?row = "\<lambda>k. nrm_pending N (pending_row p ?nonce (cl_ClientID client) (values_get (rq_query r) ''redirect_uri'')
    (values_get (rq_query r) ''code_challenge'') (values_get (rq_query r) ''state'') ?bnd (e_now E k))"
  have error: "consent_post L p N E r (w_rand w) (w_store w) resp b"
    if "purge_partly t (w_store w) b" "oauth_error resp" for t b resp
    using that assms(2) by (auto simp: consent_post_def)
  have stored: "consent_post L p N E r (w_rand w) (w_store w) resp (put_pending (?row k) b)"
    if "purge_partly t (w_store w) b" "32 \<le> length (w_rand w) - 32"
      "oauth_error resp \<or> resp = consent_page p r client ?nonce ?bnd" for t b resp k
  proof -
    from that(2) have "64 \<le> length (w_rand w)" by simp
    then show ?thesis
      using that assms(2) asked_row_pending [of p N E r client ?nonce ?bnd k] unfolding consent_post_def Let_def by blast
  qed
  show ?thesis
    unfolding start_consent_def randomToken_def Let_def
    by (rule awp_maybePurge [OF assms(1)])
       (auto split: option.split dest!: rand_token intro: error simp: stored consent_page_def [symmetric])
qed

lemma awp_authorizeConsent:
  assumes "sane_clock E"
  shows "awp False N E (authorizeConsent L p new_writer r) w
    (\<lambda>resp w'. consent_post L p N E r (w_rand w) (w_store w) resp (w_store w'))"
proof -
  have error: "consent_post L p N E r rnd a (writeOAuthError new_writer st e d) a" if "400 \<le> st" for rnd a st e d
    using that by (simp add: consent_post_def)
  have "awp False N E (start_consent p new_writer r client (values_get (rq_query r) ''redirect_uri'')) w
      (\<lambda>resp w'. consent_post L p N E r (w_rand w) (w_store w) resp (w_store w'))"
    if "a_clients (w_store w) (values_get (rq_query r) ''client_id'') = Some client"
      and "HasRedirectURI client (values_get (rq_query r) ''redirect_uri'')"
      and "is_ok (checkRedirectHostPolicy L p (values_get (rq_query r) ''redirect_uri''))"
      and "authorize_query_error r = None" for client
    by (rule awp_start_consent [OF assms])
       (use that in \<open>simp add: valid_authorize_def Let_def HasRedirectURI_iff checkRedirectHostPolicy_ok query_error_None validateCodeChallenge_ok\<close>)
  then show ?thesis
    unfolding authorizeConsent_def Let_def
    by (auto simp: error split: option.split sum.split)
qed

section \<open>The approval\<close>

text \<open>
  The redirect to Google, as the browser and Google read it: not to be cached, and a query that
  carries the state and the parameters of the login.
\<close>

definition login_redirect :: "provider \<Rightarrow> string \<Rightarrow> response \<Rightarrow> bool" where
  "login_redirect p state resp \<longleftrightarrow> rs_status resp = 302 \<and>
     map_of (rs_headers resp) ''Cache-Control'' = Some ''no-store'' \<and>
     (\<exists>query. Location resp = Some (hexEscapeNonASCII (GoogleAuthURL (cfg p) @ ''?'' @ query)) \<and>
        value_list (ParseQuery query) ''state'' = [state] \<and>
        value_list (ParseQuery query) ''client_id'' = [GoogleClientID (cfg p)] \<and>
        value_list (ParseQuery query) ''redirect_uri'' = [GoogleRedirectURL (cfg p)] \<and>
        value_list (ParseQuery query) ''response_type'' = [''code''] \<and>
        value_list (ParseQuery query) ''scope'' = [''openid email profile''])"

lemma login_redirectI [simp]:
  "login_redirect p state (redirect (header_set ''Cache-Control'' ''no-store'' new_writer) r (google_login_url p state))"
proof -
  have "map_of (wr_headers (header_set ''Cache-Control'' ''no-store'' new_writer)) ''Cache-Control'' = Some ''no-store''"
    by (simp add: header_set_def)
  then show ?thesis
    using google_login_read [of p state] by (auto simp: login_redirect_def redirect_header)
qed

lemma login_redirect_302: "login_redirect p state resp \<Longrightarrow> rs_status resp = 302"
  by (simp add: login_redirect_def)

definition nonce_hash :: "request \<Rightarrow> string" where
  "nonce_hash r = HashSecret (PostFormValue r ConsentNonceField)"

definition may_approve :: "provider \<Rightarrow> env \<Rightarrow> request \<Rightarrow> astore world \<Rightarrow> pending_auth \<Rightarrow> bool" where
  "may_approve p E r w pending \<longleftrightarrow> a_pending (w_store w) (nonce_hash r) = Some pending \<and>
     \<not> pa_Approved pending \<and> e_now E (w_tick w) < pa_ExpiresAt pending \<and> bound_browser p r pending"

text \<open>The approved record of a pending one, field by field, under a new state.\<close>

definition approved_copy ::
  "provider \<Rightarrow> rounding \<Rightarrow> env \<Rightarrow> pending_auth \<Rightarrow> string \<Rightarrow> pending_auth \<Rightarrow> bool" where
  "approved_copy p n E pending state row \<longleftrightarrow>
     pa_StateHash row = HashSecret state \<and> pa_ClientID row = pa_ClientID pending \<and>
     pa_RedirectURI row = pa_RedirectURI pending \<and> pa_CodeChallenge row = pa_CodeChallenge pending \<and>
     pa_ClientState row = pa_ClientState pending \<and> pa_BinderHash row = pa_BinderHash pending \<and> pa_Approved row \<and>
     (\<exists>k. pa_ExpiresAt row = r_row n (e_now E k + PendingAuthTTL (cfg p))) \<and>
     pa_CreatedAt row = r_row n (pa_CreatedAt pending)"

lemma approved_copy_row [simp]:
  "approved_copy p n E pending state (nrm_pending n (approved_row p pending state (e_now E k)))"
  by (auto simp: approved_copy_def nrm_pending_def approved_row_def)

definition approve_post ::
  "provider \<Rightarrow> rounding \<Rightarrow> env \<Rightarrow> request \<Rightarrow> astore world \<Rightarrow> response \<Rightarrow> astore world \<Rightarrow> bool" where
  "approve_post p n E r w resp w' \<longleftrightarrow>
     oauth_error resp \<and> w_store w' = w_store w \<and>
       (rs_status resp = 500 \<or> \<not> is_ok (ParseForm maxConsentFormBytes r) \<or> PostFormValue r ConsentNonceField = []) \<or>
     oauth_error resp \<and> w_store w' = del_pending (nonce_hash r) (w_store w) \<or>
     (\<exists>pending row. may_approve p E r w pending \<and>
        approved_copy p n E pending (b64url_encode (take 32 (w_rand w))) row \<and>
        w_store w' = put_pending row (del_pending (nonce_hash r) (w_store w)) \<and>
        (oauth_error resp \<and> rs_status resp = 500 \<or> login_redirect p (b64url_encode (take 32 (w_rand w))) resp))"

lemma awp_authorizeApprove:
  "awp False N E (authorizeApprove p new_writer r) w (approve_post p N E r w)"
proof -
  let ?state = "b64url_encode (take 32 (w_rand w))"
  have stored: "approve_post p N E r w resp w'"
    if "a_pending (w_store w) (nonce_hash r) = Some pending" "\<not> pa_Approved pending"
      "binderMatches p r (pa_BinderHash pending)" "e_now E (w_tick w) < pa_ExpiresAt pending"
      "w_store w' = put_pending (nrm_pending N (approved_row p pending ?state (e_now E k)))
         (del_pending (nonce_hash r) (w_store w))"
      "oauth_error resp \<and> rs_status resp = 500 \<or> login_redirect p ?state resp" for pending k resp w'
  proof -
    have "may_approve p E r w pending"
      using that(1-4) by (simp add: may_approve_def bound_browser_def binderMatches_iff)
    then show ?thesis
      using that(5,6) approved_copy_row [of p N E pending ?state k] unfolding approve_post_def by blast
  qed
  have spent: "approve_post p N E r w resp w'"
    if "oauth_error resp" "w_store w' = del_pending (nonce_hash r) (w_store w)" for resp w'
    using that by (simp add: approve_post_def)
  have unread: "approve_post p N E r w resp w'"
    if "oauth_error resp" "w_store w' = w_store w"
      "rs_status resp = 500 \<or> \<not> is_ok (ParseForm maxConsentFormBytes r) \<or> PostFormValue r ConsentNonceField = []" for resp w'
    using that by (simp add: approve_post_def)
  show ?thesis
    unfolding authorizeApprove_def randomToken_def Let_def
    by (auto split: option.split sum.split simp: nonce_hash_def [symmetric] dest!: rand_token
          intro: unread spent stored)
qed

end
