(* ===== verification/Flow_Properties.thy ===== *)
theory Flow_Properties
  imports Flow_Spec Samples
begin

text \<open>
  The properties of the login flow: the consent page, the approval and the callback, each run
  alone against any store that keeps the contract, whose calls may fail.
\<close>

section \<open>From the specifications to runs\<close>

lemma run_post:
  assumes "store_contract S absf I nrm" and "I (w_store w)" and "run S E P w = (resp, w')"
    and "awp False nrm E P (aworld absf w) Q"
  shows "Q resp (aworld absf w')"
  using store_contract.run_awp [OF assms(1) _ assms(2,4)] assms(3)
  by (simp add: store_contract.reliable_if_def [OF assms(1)])

lemma run_consent:
  assumes "store_contract S absf I nrm" and "I (w_store w)" and "rq_Method r = ''GET''"
    and "run S E (Authorize L p r) w = (resp, w')" and "sane_clock E"
  shows "consent_post L p nrm E r (w_rand w) (absf (w_store w)) resp (absf (w_store w'))"
  using run_post [OF assms(1,2) _ awp_authorizeConsent [OF assms(5)]] assms(3,4)
  by (simp add: Authorize_def)

lemma run_approve:
  assumes "store_contract S absf I nrm" and "I (w_store w)" and "rq_Method r = ''POST''"
    and "run S E (Authorize L p r) w = (resp, w')"
  shows "approve_post p nrm E r (aworld absf w) resp (aworld absf w')"
  using run_post [OF assms(1,2) _ awp_authorizeApprove] assms(3,4) by (simp add: Authorize_def)

lemma run_callback:
  assumes "store_contract S absf I nrm" and "I (w_store w)"
    and "run S E (GoogleCallback L p r) w = (resp, w')"
  shows "callback_post L p nrm E r (aworld absf w) resp (aworld absf w')"
  by (rule run_post [OF assms awp_GoogleCallback])

text \<open>
  A run whose load of the pending record succeeds goes on without the record, whatever it answers
  in the end.
\<close>

lemma run_after_consume_pending:
  assumes "store_contract S absf I nrm" and "I (w_store w)"
    and "run S E (ConsumePendingAuth h k) w = (resp, w')" and "is_ok (fst (op_ConsumePendingAuth S h (w_store w)))"
    and "awp False nrm E (k (Inr (a_pending (absf (w_store w)) h)))
      (aworld absf (w\<lparr>w_store := s\<rparr>)\<lparr>w_store := del_pending h (absf (w_store w))\<rparr>) Q"
  shows "Q resp (aworld absf w')"
proof -
  obtain x s' where op: "op_ConsumePendingAuth S h (w_store w) = (Inr x, s')"
    using assms(4) by (cases "op_ConsumePendingAuth S h (w_store w)") (auto simp: is_ok_iff)
  from store_contract.consume_pending [OF assms(1,2) op]
  have s': "I s'" "absf s' = del_pending h (absf (w_store w))" "x = a_pending (absf (w_store w)) h" by auto
  have "run S E (k (Inr x)) (w\<lparr>w_store := s'\<rparr>) = (resp, w')" using assms(3) op by simp
  then show ?thesis
    using run_post [OF assms(1), of "w\<lparr>w_store := s'\<rparr>" E "k (Inr x)" resp w' Q] assms(5) s' by simp
qed

lemma run_callback_loaded:
  assumes "store_contract S absf I nrm" and "I (w_store w)" and "rq_Method r = ''GET''"
    and "values_get (rq_query r) ''state'' \<noteq> []" and "h = HashSecret (values_get (rq_query r) ''state'')"
    and "run S E (GoogleCallback L p r) w = (resp, w')" and "is_ok (fst (op_ConsumePendingAuth S h (w_store w)))"
  shows "a_pending (absf (w_store w')) = (a_pending (absf (w_store w)))(h := None)"
proof -
  obtain k where k: "GoogleCallback L p r = ConsumePendingAuth h k"
    and rest: "\<And>found u. awp False nrm E (k (Inr found)) u (\<lambda>resp u'. a_pending (w_store u') = a_pending (w_store u))"
    using assms(3-5)
    by (auto simp: GoogleCallback_def Let_def awp_finish_login_keeps split: option.split)
  from run_after_consume_pending [OF assms(1,2) assms(6) [unfolded k] assms(7) rest] show ?thesis
    by (simp add: del_pending_def)
qed

text \<open>What a purge cannot do: add or change a row.\<close>

lemma purge_partly_sub:
  assumes "purge_partly t a b"
  shows "a_codes b \<subseteq>\<^sub>m a_codes a" and "a_refresh b \<subseteq>\<^sub>m a_refresh a" and "a_clients b \<subseteq>\<^sub>m a_clients a"
    and "a_pending b \<subseteq>\<^sub>m a_pending a" and "a_users b = a_users a"
  using assms by (auto simp: purge_partly_def purge_def map_le_def keep_rows_def split: option.splits if_splits)

lemma put_pending_other [simp]:
  "a_clients (put_pending row a) = a_clients a" "a_codes (put_pending row a) = a_codes a"
  "a_refresh (put_pending row a) = a_refresh a" "a_users (put_pending row a) = a_users a"
  by (simp_all add: put_pending_def)

lemma consent_page_answer:
  assumes "ConsentHandler (cfg p) = None"
  shows "Location (consent_page p r client nonce v) = None" and "rs_status (consent_page p r client nonce v) = 200"
    and "rs_cookies (consent_page p r client nonce v) = wr_cookies (addBinder p new_writer r v)"
    and "map_of (rs_headers (consent_page p r client nonce v)) ''X-Frame-Options'' = Some ''DENY''"
    and "\<exists>d. rs_body (consent_page p r client nonce v) = ConsentBody d \<and>
      cp_RedirectURI d = values_get (rq_query r) ''redirect_uri'' \<and> cp_FormAction d = AuthorizeURL (cfg p) \<and>
      cp_NonceField d = ''mcpoauth_consent'' \<and> cp_Nonce d = nonce \<and>
      cp_ClientName d = (if cl_ClientName client = [] then ''An unnamed application'' else cl_ClientName client)"
  using assms
  by (simp_all add: consent_page_def renderConsent_def Location_finish Let_def)
     (simp_all add: finish_def header_set_def update_conv' ConsentNonceField_def)

text \<open>The browser that takes the page's cookie holds the binder of the record.\<close>

lemma addBinder_binds:
  assumes "0 \<le> PendingAuthTTL (cfg p)" and "length bs = 32" and "wr_cookies (addBinder p new_writer r (b64url_encode bs)) = [c]"
  shows "readBinders p (sends_back c r) = take 5 (b64url_encode bs # readBinders p r)"
proof -
  have "wr_cookies (addBinder p new_writer r (b64url_encode bs)) = wr_cookies new_writer @ [c]"
    using assms(3) by (simp add: new_writer_def)
  from readBinders_added [OF validBinder_token [OF assms(2)] assms(1) this] show ?thesis
    by (simp add: maxBinders_def)
qed

lemma addBinder_cookie: "\<exists>c. wr_cookies (addBinder p new_writer r v) = [c]"
  by (simp add: addBinder_eq writeBinderCookie_def set_cookie_def new_writer_def)

lemma oauth_error_status: "oauth_error resp \<Longrightarrow> rs_status resp \<noteq> 200 \<and> rs_status resp \<noteq> 302"
  by (auto simp: oauth_error_def)

lemma oauth_error_Location: "oauth_error resp \<Longrightarrow> Location resp = None"
  by (auto simp: oauth_error_def)

lemma consent_post_cases:
  assumes "consent_post L p n E r rnd a resp a'"
  obtains (error) t b where "oauth_error resp" and "purge_partly t a b"
      and "a' = b \<or> (\<exists>row. a' = put_pending row b)"
    | (page) client t b row where "valid_authorize L p r a client" and "purge_partly t a b" and "64 \<le> length rnd"
      and "asked_row p n E r client (b64url_encode (take 32 rnd)) (b64url_encode (take 32 (drop 32 rnd))) row"
      and "a' = put_pending row b"
      and "resp = consent_page p r client (b64url_encode (take 32 rnd)) (b64url_encode (take 32 (drop 32 rnd)))"
  using assms unfolding consent_post_def Let_def by (metis purge_partly_refl)

section \<open>The sample deployment\<close>

definition sample_client :: client where
  "sample_client = \<lparr>cl_ClientID = ''app'', cl_RedirectURIs = [''http://127.0.0.1/cb''], cl_ClientName = ''App'',
     cl_CreatedAt = sample_now - hour, cl_ExpiresAt = sample_now + hour\<rparr>"

definition sample_pending :: "string \<Rightarrow> bool \<Rightarrow> pending_auth" where
  "sample_pending handle approved = \<lparr>pa_StateHash = HashSecret handle, pa_ClientID = ''app'',
     pa_RedirectURI = ''http://127.0.0.1/cb'', pa_CodeChallenge = replicate 43 CHR ''a'', pa_ClientState = ''xyz'',
     pa_BinderHash = HashSecret ''binder'', pa_Approved = approved, pa_ExpiresAt = sample_now + minute,
     pa_CreatedAt = sample_now\<rparr>"

definition flow_store :: "string \<Rightarrow> bool \<Rightarrow> memory_store" where
  "flow_store handle approved = NewMemoryStore\<lparr>ms_clients := [(''app'', sample_client)],
     ms_pending := [(HashSecret handle, sample_pending handle approved)],
     ms_usersByE := [(''alice@example.com'', ''alice'')]\<rparr>"

definition flow_world :: "string \<Rightarrow> bool \<Rightarrow> memory_store world" where
  "flow_world handle approved = \<lparr>w_store = flow_store handle approved,
     w_mem = new_pmem\<lparr>jwks_keys := [(''kid'', \<lparr>rsa_N = 77, rsa_E = 3\<rparr>)], jwks_expiresAt := sample_now + hour\<rparr>,
     w_rand = replicate 64 1, w_tick = 0\<rparr>"

text \<open>Google answers the exchange with an ID token of the kid above.\<close>

definition flow_env :: env where
  "flow_env = \<lparr>e_now = (\<lambda>_. sample_now), e_http = (\<lambda>_ _. Inr \<lparr>hr_StatusCode = 200, hr_CacheControl = [],
     hr_read = Inr (), hr_id_token = Inr ''idtoken'', hr_jwks = Inl ''not keys''\<rparr>)\<rparr>"

definition flow_lib :: lib where
  "flow_lib = sample_lib\<lparr>jwt_kid := (\<lambda>_ _. Inr ''kid''), jwt_parse_google := (\<lambda>_ _ _ _. Inr
     \<lparr>gc_Email = ''alice@example.com'', gc_EmailVerified = True, gc_Issuer = ''accounts.google.com''\<rparr>)\<rparr>"

definition flow_get :: "(string \<times> string) list \<Rightarrow> request" where
  "flow_get q = \<lparr>rq_Method = ''GET'', rq_query = q, rq_body_len = 0, rq_form = Inr [],
     rq_json = (\<lambda>_. Inl ''not JSON''), rq_cookies = [(''__Host-mcpoauth_binder'', ''binder'')], rq_authorization = []\<rparr>"

definition flow_consent :: request where
  "flow_consent = flow_get [(''client_id'', ''app''), (''redirect_uri'', ''http://127.0.0.1/cb''),
     (''response_type'', ''code''), (''code_challenge'', replicate 43 CHR ''a''),
     (''code_challenge_method'', ''S256''), (''state'', ''xyz'')]"

definition flow_approval :: request where
  "flow_approval = (form_post [(''mcpoauth_consent'', ''nonce'')])\<lparr>
     rq_cookies := [(''__Host-mcpoauth_binder'', ''binder'')]\<rparr>"

definition flow_callback :: request where
  "flow_callback = flow_get [(''state'', ''state''), (''code'', ''google-code'')]"

lemmas flow_defs = flow_store_def flow_world_def flow_env_def flow_lib_def flow_get_def sample_client_def
  sample_pending_def NewMemoryStore_def

abbreviation flow_run :: "response prog \<Rightarrow> memory_store world \<Rightarrow> response \<times> memory_store world" where
  "flow_run P w \<equiv> run sample_ops flow_env P w"

lemma flow_inv [simp]: "mem_inv (flow_store h b)"
  by (simp add: flow_defs mem_inv_def)

lemma flow_sane [simp]: "sane_clock flow_env"
  by (simp add: flow_env_def sane_clock_def)

lemma flow_store_simps [simp]:
  "w_store (flow_world h b) = flow_store h b" "a_codes (mem_abs ul (flow_store h b)) = Map.empty"
  by (simp_all add: flow_world_def flow_store_def mem_abs_def NewMemoryStore_def)

lemma flow_binder: "readBinders sample_provider r = [''binder'']"
  if "rq_cookies r = [(''__Host-mcpoauth_binder'', ''binder'')]"
proof -
  have "SplitN BinderCookieSep (maxBinders + 1) ''binder'' = [''binder'']" by code_simp
  moreover have "validBinder ''binder''" by code_simp
  ultimately show ?thesis
    using that by (simp add: readBinders_eq binderCookieName_def sample_provider_def sample_config_def
        BinderCookieName_def maxBinders_def)
qed

lemma sample_more_cfg [simp]:
  "AllowedRedirectHosts (cfg sample_provider) = []" "ConsentHandler (cfg sample_provider) = None"
  "PurgeInterval (cfg sample_provider) = 10 * minute"
  by (simp_all add: sample_provider_def sample_config_def)

lemma flow_query [simp]: "authorize_query_error flow_consent = None"
  by code_simp

lemma flow_now [simp]: "e_now flow_env n = sample_now"
  by (simp add: flow_env_def)

lemma flow_consent_200:
  "rs_status (fst (flow_run (Authorize flow_lib sample_provider flow_consent) (flow_world ''nonce'' False))) = 200"
proof -
  have q: "rq_Method flow_consent = ''GET''" "values_get (rq_query flow_consent) ''client_id'' = ''app''"
    "values_get (rq_query flow_consent) ''redirect_uri'' = ''http://127.0.0.1/cb''"
    by (simp_all add: flow_consent_def flow_get_def values_get_def)
  have "HasRedirectURI sample_client ''http://127.0.0.1/cb''"
    by (simp add: HasRedirectURI_iff sample_client_def)
  moreover have "purge_due sample_provider sample_now (w_mem (flow_world ''nonce'' False))"
    by (simp add: purge_due_def time_sub_def flow_world_def new_pmem_def sample_now_def)
  ultimately show ?thesis
    using consent_page_answer(2) [of sample_provider flow_consent]
    by (simp add: handler_defs q Let_def checkRedirectHostPolicy_def mem_ops_def store_defs
        flow_world_def flow_store_def rand_read_def consent_page_def)
qed

lemma flow_approval_302:
  "rs_status (fst (flow_run (Authorize flow_lib sample_provider flow_approval) (flow_world ''nonce'' False))) = 302"
proof -
  have q: "rq_Method flow_approval = ''POST''" "PostFormValue flow_approval ConsentNonceField = ''nonce''"
    "ParseForm maxConsentFormBytes flow_approval = Inr ()"
    by (simp_all add: flow_approval_def form_post_def PostFormValue_def values_get_def ConsentNonceField_def
        ParseForm_def maxConsentFormBytes_def)
  have "binderMatches sample_provider flow_approval (HashSecret ''binder'')"
    by (simp add: binderMatches_iff flow_binder flow_approval_def)
  then show ?thesis
    by (simp add: handler_defs q Let_def mem_ops_def store_defs flow_world_def flow_store_def
        rand_read_def sample_pending_def)
qed

lemma flow_google_url: "is_ok (Parse (GoogleTokenURL (cfg sample_provider)))"
  by code_simp

lemma flow_email: "check_google_claims flow_lib
    \<lparr>gc_Email = ''alice@example.com'', gc_EmailVerified = True, gc_Issuer = ''accounts.google.com''\<rparr> = Inr ''alice@example.com''"
  "normalizeEmail (\<lambda>s. s) ''alice@example.com'' = ''alice@example.com''"
  by code_simp+

lemma flow_callback_redirects:
  "rs_status (fst (flow_run (GoogleCallback flow_lib sample_provider flow_callback) (flow_world ''state'' True))) = 302 \<and>
   a_codes (sample_abs (w_store (snd (flow_run (GoogleCallback flow_lib sample_provider flow_callback)
     (flow_world ''state'' True))))) (HashSecret (b64url_encode (replicate 32 1))) \<noteq> None"
proof -
  have q: "rq_Method flow_callback = ''GET''" "values_get (rq_query flow_callback) ''state'' = ''state''"
    "values_get (rq_query flow_callback) ''code'' = ''google-code''" "values_get (rq_query flow_callback) ''error'' = []"
    by (simp_all add: flow_callback_def flow_get_def values_get_def)
  have "binderMatches sample_provider flow_callback (HashSecret ''binder'')"
    by (simp add: binderMatches_iff flow_binder flow_callback_def flow_get_def)
  moreover obtain u where "Parse (GoogleTokenURL (cfg sample_provider)) = Inr u"
    using flow_google_url by (auto simp: is_ok_iff)
  ultimately show ?thesis
    using flow_email
    by (simp add: handler_defs q Let_def mem_ops_def mem_abs_def store_defs flow_defs code_row_def
        rand_read_def sample_pending_def new_pmem_def)
qed

text \<open>What the witnesses read off the samples.\<close>

lemma sample_flow_rows [simp]:
  "a_pending (mem_abs ul (flow_store handle b)) = [HashSecret handle \<mapsto> sample_pending handle b]"
  "a_clients (mem_abs ul (flow_store handle b)) = [''app'' \<mapsto> sample_client]"
  "w_rand (flow_world handle b) = replicate 64 1"
  "a_users (mem_abs ul (flow_store handle b)) e = Some u \<longleftrightarrow> normalizeEmail ul e = ''alice@example.com'' \<and> u = ''alice''"
  by (auto simp: flow_store_def flow_world_def mem_abs_def NewMemoryStore_def)

lemma sample_pending_simps [simp]:
  "pa_ClientID (sample_pending handle b) = ''app''" "pa_RedirectURI (sample_pending handle b) = ''http://127.0.0.1/cb''"
  "pa_CodeChallenge (sample_pending handle b) = replicate 43 CHR ''a''" "pa_ClientState (sample_pending handle b) = ''xyz''"
  "pa_BinderHash (sample_pending handle b) = HashSecret ''binder''" "pa_Approved (sample_pending handle b) = b"
  by (simp_all add: sample_pending_def)

lemma flow_requests [simp]:
  "rq_Method flow_consent = ''GET''" "rq_Method flow_approval = ''POST''" "rq_Method flow_callback = ''GET''"
  "PostFormValue flow_approval ''mcpoauth_consent'' = ''nonce''"
  "values_get (rq_query flow_callback) ''state'' = ''state''"
  "values_get (rq_query flow_consent) ''redirect_uri'' = ''http://127.0.0.1/cb''"
  "values_get (rq_query flow_consent) ''code_challenge'' = replicate 43 CHR ''a''"
  "values_get (rq_query flow_consent) ''state'' = ''xyz''" "values_get (rq_query flow_consent) ''client_id'' = ''app''"
  "rq_cookies flow_consent = [(''__Host-mcpoauth_binder'', ''binder'')]"
  "cl_ClientID sample_client = ''app''" "PendingAuthTTL (cfg sample_provider) = 10 * minute"
  by (simp_all add: flow_consent_def flow_approval_def flow_callback_def flow_get_def form_post_def values_get_def
      PostFormValue_def sample_client_def sample_provider_def sample_config_def)

section \<open>Properties\<close>

text \<open>
  C25. The approval page: in a deployment without a page of its own (\<open>ConsentHandler\<close> nil), a
  GET of the authorization endpoint never redirects and adds no client, code or token. If it
  answers 200, then the request named a registered client with one of its redirect URIs, which
  the deployment admits, and carried a valid S256 challenge. The one row that was added is an
  unapproved record of this request (client, redirect URI, challenge, client state) under the
  hash of the nonce in the page, with the hash of the new browser secret; the answer sets one
  cookie, and the browser that takes it is bound to the record (it presents that secret, before
  the four it had). The page shows the client's name and the redirect URI, posts the nonce to the
  authorization endpoint, and must not be framed.
\<close>

theorem consent_page_sound:
  assumes "store_contract S absf I nrm" and "I (w_store w)" and "rq_Method r = ''GET''"
    and "run S E (Authorize L p r) w = (resp, w')" and "sane_clock E" and "ConsentHandler (cfg p) = None"
    and "nonce = b64url_encode (take 32 (w_rand w))" and "bnd = b64url_encode (take 32 (drop 32 (w_rand w)))"
  shows "rs_status resp \<noteq> 302 \<and> Location resp = None \<and>
    a_clients (absf (w_store w')) \<subseteq>\<^sub>m a_clients (absf (w_store w)) \<and>
    a_codes (absf (w_store w')) \<subseteq>\<^sub>m a_codes (absf (w_store w)) \<and>
    a_refresh (absf (w_store w')) \<subseteq>\<^sub>m a_refresh (absf (w_store w)) \<and>
    (rs_status resp = 200 \<longrightarrow> (\<exists>client b row k c d. valid_authorize L p r (absf (w_store w)) client \<and>
       b \<subseteq>\<^sub>m a_pending (absf (w_store w)) \<and> a_pending (absf (w_store w')) = b(HashSecret nonce \<mapsto> row) \<and>
       pa_StateHash row = HashSecret nonce \<and> pa_ClientID row = cl_ClientID client \<and>
       pa_RedirectURI row = values_get (rq_query r) ''redirect_uri'' \<and>
       pa_CodeChallenge row = values_get (rq_query r) ''code_challenge'' \<and>
       pa_ClientState row = values_get (rq_query r) ''state'' \<and>
       pa_BinderHash row = HashSecret bnd \<and> \<not> pa_Approved row \<and>
       pa_ExpiresAt row = r_row nrm (e_now E k + PendingAuthTTL (cfg p)) \<and>
       rs_cookies resp = [c] \<and>
       (0 \<le> PendingAuthTTL (cfg p) \<longrightarrow> bound_browser p (sends_back c r) row \<and>
          readBinders p (sends_back c r) = take 5 (bnd # readBinders p r)) \<and>
       map_of (rs_headers resp) ''X-Frame-Options'' = Some ''DENY'' \<and>
       rs_body resp = ConsentBody d \<and> cp_RedirectURI d = values_get (rq_query r) ''redirect_uri'' \<and>
       cp_FormAction d = AuthorizeURL (cfg p) \<and> cp_NonceField d = ''mcpoauth_consent'' \<and> cp_Nonce d = nonce \<and>
       cp_ClientName d = (if cl_ClientName client = [] then ''An unnamed application'' else cl_ClientName client)))"
proof -
  from run_consent [OF assms(1-5)] show ?thesis
  proof (cases rule: consent_post_cases)
    case error
    then show ?thesis
      using oauth_error_status [OF error(1)] oauth_error_Location [OF error(1)] purge_partly_sub(1-3) [OF error(2)] by auto
  next
    case (page client t b row)
    note page = page [folded assms(7,8)] and answer = consent_page_answer [OF assms(6), of r client nonce bnd]
    obtain c where c: "wr_cookies (addBinder p new_writer r bnd) = [c]" using addBinder_cookie by blast
    have "length (take 32 (drop 32 (w_rand w))) = 32" using page(3) by simp
    then have binders: "readBinders p (sends_back c r) = take 5 (bnd # readBinders p r)" if "0 \<le> PendingAuthTTL (cfg p)"
      using addBinder_binds [OF that] c unfolding assms(8) by blast
    have row: "pa_BinderHash row = HashSecret bnd" "pa_StateHash row = HashSecret nonce"
      using page(4) by (simp_all add: asked_row_def)
    obtain k where "pa_ExpiresAt row = r_row nrm (e_now E k + PendingAuthTTL (cfg p))"
      using page(4) by (auto simp: asked_row_def)
    moreover obtain d where "rs_body (consent_page p r client nonce bnd) = ConsentBody d" and
      "cp_RedirectURI d = values_get (rq_query r) ''redirect_uri'' \<and> cp_FormAction d = AuthorizeURL (cfg p) \<and>
       cp_NonceField d = ''mcpoauth_consent'' \<and> cp_Nonce d = nonce \<and>
       cp_ClientName d = (if cl_ClientName client = [] then ''An unnamed application'' else cl_ClientName client)"
      using answer(5) by blast
    moreover have "bound_browser p (sends_back c r) row" if "0 \<le> PendingAuthTTL (cfg p)"
      by (simp add: bound_browser_def binders [OF that] row)
    moreover have "a_pending (absf (w_store w')) = (a_pending b)(HashSecret nonce \<mapsto> row)"
      by (simp add: page(5) put_pending_def row)
    ultimately show ?thesis
      using page purge_partly_sub [OF page(2)] answer(1-4) c binders
      by (intro conjI impI exI [of _ client] exI [of _ "a_pending b"] exI [of _ row] exI [of _ k] exI [of _ c] exI [of _ d])
         (simp_all add: asked_row_def)
  qed
qed

theorem consent_page_sound_witness:
  "\<exists>row c. a_pending (sample_abs (w_store (snd (flow_run (Authorize flow_lib sample_provider flow_consent)
       (flow_world ''nonce'' False))))) (HashSecret (b64url_encode (replicate 32 1))) = Some row \<and>
     pa_ClientID row = ''app'' \<and> pa_RedirectURI row = ''http://127.0.0.1/cb'' \<and>
     pa_CodeChallenge row = replicate 43 CHR ''a'' \<and> pa_ClientState row = ''xyz'' \<and> \<not> pa_Approved row \<and>
     rs_cookies (fst (flow_run (Authorize flow_lib sample_provider flow_consent) (flow_world ''nonce'' False))) = [c] \<and>
     readBinders sample_provider (sends_back c flow_consent) = [b64url_encode (replicate 32 1), ''binder'']"
  using consent_page_sound [OF sample_contract _ _ surjective_pairing flow_sane _ refl refl,
      where w = "flow_world ''nonce'' False" and r = flow_consent and L = flow_lib and p = sample_provider]
    flow_consent_200 flow_binder [of flow_consent]
  by (auto simp: valid_authorize_def Let_def)

text \<open>
  C11. The approval: a POST that is answered with a redirect consumed an unapproved, unexpired
  pending record whose binder the browser holds, and stored in its place an approved record with
  the same client, redirect URI, challenge, client state and binder, under the hash of a fresh
  state of 32 random bytes and with a new lifetime; the other tables are as they were. The
  redirect goes to Google with that state and the deployment's client ID and callback. And the
  consent nonce is spent by every answer but an error of the server or a form without it.
\<close>

theorem approval_sound:
  assumes "store_contract S absf I nrm" and "I (w_store w)" and "rq_Method r = ''POST''"
    and "run S E (Authorize L p r) w = (resp, w')"
    and "a = absf (w_store w)" and "a' = absf (w_store w')"
    and "h = HashSecret (PostFormValue r ''mcpoauth_consent'')" and "state = b64url_encode (take 32 (w_rand w))"
  shows "(rs_status resp = 302 \<longrightarrow> (\<exists>pending row k query.
       a_pending a h = Some pending \<and> \<not> pa_Approved pending \<and> e_now E (w_tick w) < pa_ExpiresAt pending \<and>
       bound_browser p r pending \<and>
       a_pending a' = (a_pending a)(h := None, HashSecret state \<mapsto> row) \<and>
       a_clients a' = a_clients a \<and> a_codes a' = a_codes a \<and> a_refresh a' = a_refresh a \<and> a_users a' = a_users a \<and>
       pa_StateHash row = HashSecret state \<and> pa_ClientID row = pa_ClientID pending \<and>
       pa_RedirectURI row = pa_RedirectURI pending \<and> pa_CodeChallenge row = pa_CodeChallenge pending \<and>
       pa_ClientState row = pa_ClientState pending \<and> pa_BinderHash row = pa_BinderHash pending \<and> pa_Approved row \<and>
       pa_ExpiresAt row = r_row nrm (e_now E k + PendingAuthTTL (cfg p)) \<and>
       Location resp = Some (hexEscapeNonASCII (GoogleAuthURL (cfg p) @ ''?'' @ query)) \<and>
       value_list (ParseQuery query) ''state'' = [state] \<and>
       value_list (ParseQuery query) ''client_id'' = [GoogleClientID (cfg p)] \<and>
       value_list (ParseQuery query) ''redirect_uri'' = [GoogleRedirectURL (cfg p)] \<and>
       value_list (ParseQuery query) ''response_type'' = [''code''])) \<and>
    (rs_status resp \<noteq> 302 \<longrightarrow> Location resp = None) \<and>
    (rs_status resp \<noteq> 500 \<and> is_ok (ParseForm maxConsentFormBytes r) \<and> PostFormValue r ''mcpoauth_consent'' \<noteq> [] \<longrightarrow>
       a_pending a' h = None \<or> (rs_status resp = 302 \<and> h = HashSecret state))"
proof -
  have h: "nonce_hash r = h" "ConsentNonceField = ''mcpoauth_consent''"
    by (simp_all add: nonce_hash_def ConsentNonceField_def assms(7))
  from run_approve [OF assms(1-4)]
  consider (unread) "oauth_error resp" "a' = a"
      "rs_status resp = 500 \<or> \<not> is_ok (ParseForm maxConsentFormBytes r) \<or> PostFormValue r ''mcpoauth_consent'' = []"
    | (spent) "oauth_error resp" "a' = del_pending h a"
    | (failed) pending row where "oauth_error resp" "rs_status resp = 500"
    | (approved) pending row where "may_approve p E r (aworld absf w) pending" "approved_copy p nrm E pending state row"
      "a' = put_pending row (del_pending h a)" "login_redirect p state resp"
    unfolding approve_post_def by (auto simp: h assms(5,6,8))
  then show ?thesis
  proof cases
    case approved
    have row: "pa_StateHash row = HashSecret state" using approved(2) by (simp add: approved_copy_def)
    obtain k where k: "pa_ExpiresAt row = r_row nrm (e_now E k + PendingAuthTTL (cfg p))"
      using approved(2) by (auto simp: approved_copy_def)
    obtain query where query: "Location resp = Some (hexEscapeNonASCII (GoogleAuthURL (cfg p) @ ''?'' @ query))"
       "value_list (ParseQuery query) ''state'' = [state]"
       "value_list (ParseQuery query) ''client_id'' = [GoogleClientID (cfg p)]"
       "value_list (ParseQuery query) ''redirect_uri'' = [GoogleRedirectURL (cfg p)]"
       "value_list (ParseQuery query) ''response_type'' = [''code'']"
      using approved(4) by (auto simp: login_redirect_def)
    show ?thesis
      using approved(1,2,3) login_redirect_302 [OF approved(4)] row
      by (intro conjI impI exI [of _ pending] exI [of _ row] exI [of _ k] exI [of _ query] query k)
         (auto simp: may_approve_def approved_copy_def put_pending_def del_pending_def h assms(5))
  qed (auto dest: oauth_error_status oauth_error_Location simp: del_pending_def)
qed

theorem approval_sound_witness:
  "\<exists>row. a_pending (sample_abs (w_store (snd (flow_run (Authorize flow_lib sample_provider flow_approval)
       (flow_world ''nonce'' False))))) (HashSecret (b64url_encode (replicate 32 1))) = Some row \<and>
     pa_ClientID row = ''app'' \<and> pa_RedirectURI row = ''http://127.0.0.1/cb'' \<and>
     pa_CodeChallenge row = replicate 43 CHR ''a'' \<and> pa_BinderHash row = HashSecret ''binder'' \<and> pa_Approved row"
  using approval_sound [OF sample_contract _ _ surjective_pairing refl refl refl refl,
      where w = "flow_world ''nonce'' False" and r = flow_approval and L = flow_lib and p = sample_provider and E = flow_env]
    flow_approval_302
  by (auto split: if_splits)

text \<open>
  C10. The callback: a code is stored only for a pending record of the presented state that was
  approved, has not expired, and is bound to this browser, after a Google login whose verified
  account is a user of the application. The one row added is keyed by the hash of a fresh secret
  of 32 random bytes and carries that user and the record's client, redirect URI and challenge,
  with the lifetime of a code. The answer then is an error, or a redirect to the record's
  redirect URI in whose query the client reads that secret as the code and its own state. In
  every other case the code table is as it was and the answer carries no code: it is an error
  page without a \<open>Location\<close>, or a redirect to the record's redirect URI with an OAuth error.
\<close>

theorem callback_sound:
  assumes "store_contract S absf I nrm" and "I (w_store w)"
    and "run S E (GoogleCallback L p r) w = (resp, w')"
    and "a = absf (w_store w)" and "a' = absf (w_store w')"
    and "found = a_pending a (HashSecret (values_get (rq_query r) ''state''))"
    and "raw = b64url_encode (take 32 (w_rand w))"
  shows "no_code found resp \<and> a_codes a' = a_codes a \<or>
    (\<exists>pending email userID row k. found = Some pending \<and> pa_Approved pending \<and> bound_browser p r pending \<and>
       e_now E (w_tick w) < pa_ExpiresAt pending \<and>
       identified L p E (w_mem w) (values_get (rq_query r) ''code'') email \<and> a_users a email = Some userID \<and>
       a_codes a' = (a_codes a)(HashSecret raw \<mapsto> row) \<and>
       ac_CodeHash row = HashSecret raw \<and> ac_ClientID row = pa_ClientID pending \<and> ac_UserID row = userID \<and>
       ac_RedirectURI row = pa_RedirectURI pending \<and> ac_CodeChallenge row = pa_CodeChallenge pending \<and>
       ac_ExpiresAt row = r_row nrm (e_now E k + AuthCodeTTL (cfg p)) \<and> ac_CreatedAt row = r_row nrm (e_now E k) \<and>
       (no_code found resp \<or> sent_back pending [(''code'', [raw])] resp))"
  using run_callback [OF assms(1-3)]
  unfolding callback_post_def Let_def may_issue_def code_of_pending_def assms(4-7)
  by (simp del: aworld_simps(4,5) add: aworld_def) blast

theorem callback_sound_witness:
  "\<exists>row. a_codes (sample_abs (w_store (snd (flow_run (GoogleCallback flow_lib sample_provider flow_callback)
       (flow_world ''state'' True))))) (HashSecret (b64url_encode (replicate 32 1))) = Some row \<and>
     ac_ClientID row = ''app'' \<and> ac_UserID row = ''alice'' \<and> ac_RedirectURI row = ''http://127.0.0.1/cb'' \<and>
     ac_CodeChallenge row = replicate 43 CHR ''a''"
  using callback_sound [OF sample_contract _ surjective_pairing refl refl refl refl,
      where w = "flow_world ''state'' True" and r = flow_callback and L = flow_lib and p = sample_provider and E = flow_env]
    flow_callback_redirects
  by (auto split: if_splits simp del: aworld_simps)

text \<open>
  C26. The state of a login is single-use: a callback that presents one, and whose load of the
  record did not fail, leaves no pending record under it and every other record as it was,
  whatever it answers (the errors of the server after the load included); if the load failed, the
  answer is 500, and the table is as it was or lacks that record. And no callback, of whatever
  method and with whatever answer, touches a refresh token.
\<close>

theorem callback_burns_state:
  assumes "store_contract S absf I nrm" and "I (w_store w)"
    and "run S E (GoogleCallback L p r) w = (resp, w')"
    and "h = HashSecret (values_get (rq_query r) ''state'')"
  shows "(rq_Method r = ''GET'' \<and> values_get (rq_query r) ''state'' \<noteq> [] \<and>
      is_ok (fst (op_ConsumePendingAuth S h (w_store w))) \<longrightarrow>
        a_pending (absf (w_store w')) = (a_pending (absf (w_store w)))(h := None)) \<and>
    (a_pending (absf (w_store w')) = (a_pending (absf (w_store w)))(h := None) \<or>
     a_pending (absf (w_store w')) = a_pending (absf (w_store w)) \<and>
       (rq_Method r \<noteq> ''GET'' \<or> values_get (rq_query r) ''state'' = [] \<or> rs_status resp = 500)) \<and>
    a_refresh (absf (w_store w')) = a_refresh (absf (w_store w))"
  using run_callback [OF assms(1-3)] run_callback_loaded [OF assms(1,2) _ _ assms(4,3)]
  by (auto simp: callback_post_def Let_def state_burned_def assms(4))

theorem callback_burns_state_witness:
  "a_pending (sample_abs (flow_store ''state'' True)) (HashSecret ''state'') \<noteq> None \<and>
   a_pending (sample_abs (w_store (snd (flow_run (GoogleCallback flow_lib sample_provider flow_callback)
     (flow_world ''state'' True))))) (HashSecret ''state'') = None"
  using callback_burns_state [OF sample_contract _ surjective_pairing refl,
      where w = "flow_world ''state'' True" and r = flow_callback and L = flow_lib and p = sample_provider and E = flow_env]
    flow_callback_redirects
  by (auto simp: mem_ops_def store_defs split: if_splits)

end
