(* ===== verification/Provider_Config.thy ===== *)
theory Provider_Config
  imports Registration
begin

text \<open>
  \<open>New\<close> (\<open>mcpoauth.go\<close>): the validation of a configuration and its defaults. The
  store and the HTTP client are given, so the result is the provider's configuration and key.
\<close>

section \<open>Checks of single values\<close>

definition minJWTSecretLen :: nat where "minJWTSecretLen = 32"
definition minJWTSecretDistinct :: nat where "minJWTSecretDistinct = 8"
definition defaultVerifyStoreUserID :: string where "defaultVerifyStoreUserID = ''mcpoauth-verify-user''"

definition DefaultGoogleAuthURL :: string where
  "DefaultGoogleAuthURL = ''https://accounts.google.com/o/oauth2/v2/auth''"
definition DefaultGoogleTokenURL :: string where
  "DefaultGoogleTokenURL = ''https://oauth2.googleapis.com/token''"
definition DefaultGoogleJWKSURL :: string where
  "DefaultGoogleJWKSURL = ''https://www.googleapis.com/oauth2/v3/certs''"

fun distinct_loop :: "byte list \<Rightarrow> byte list \<Rightarrow> nat \<Rightarrow> nat" where
  "distinct_loop [] seen n = n"
| "distinct_loop (c # cs) seen n =
     (if c \<in> set seen then distinct_loop cs seen n else distinct_loop cs (c # seen) (n + 1))"

definition distinctBytes :: "byte list \<Rightarrow> nat" where
  "distinctBytes b = distinct_loop b [] 0"

lemma distinctBytes_eq: "distinctBytes b = card (set b)"
proof -
  have "distinct_loop cs seen n = n + card (set cs - set seen)" for cs seen n
  proof (induction cs seen n rule: distinct_loop.induct)
    case (2 c cs seen n)
    have "set (c # cs) - set seen = insert c (set cs - set (c # seen))" if "c \<notin> set seen"
      using that by auto
    then show ?case using 2 by (auto simp: insert_Diff_if)
  qed simp
  then show ?thesis by (simp add: distinctBytes_def)
qed

definition requireAbsoluteURL :: "lib \<Rightarrow> string \<Rightarrow> string \<Rightarrow> unit res" where
  "requireAbsoluteURL L nm raw =
     (case Parse raw of
        Inl err \<Rightarrow> Inl (''mcpoauth: '' @ nm @ '' is not a valid URL: '' @ err)
      | Inr u \<Rightarrow>
          if \<not> IsAbs u \<or> u_Host u = []
          then Inl (''mcpoauth: '' @ nm @ '' must be an absolute URL, got '' @ Quote (unicode_quote L) raw)
          else Inr ())"

definition requireLoopbackHTTP :: "lib \<Rightarrow> string \<Rightarrow> string \<Rightarrow> unit res" where
  "requireLoopbackHTTP L nm raw =
     (case Parse raw of
        Inl err \<Rightarrow> Inl (''mcpoauth: InsecureDevMode requires a loopback http:// '' @ nm @ '', got '' @ Quote (unicode_quote L) raw)
      | Inr u \<Rightarrow>
          if \<not> IsAbs u \<or> u_Host u = []
          then Inl (''mcpoauth: InsecureDevMode requires a loopback http:// '' @ nm @ '', got '' @ Quote (unicode_quote L) raw)
          else if \<not> EqualFold (u_Scheme u) ''http'' \<or> \<not> isLoopbackHost (Hostname u)
          then Inl (''mcpoauth: InsecureDevMode is for plain-http local development only, but '' @ nm @ '' is ''
                 @ Quote (unicode_quote L) raw @ ''; it must be http:// on 127.0.0.1, [::1] or localhost'')
          else Inr ())"

section \<open>The constructor\<close>

fun check_all :: "('a \<Rightarrow> unit res) \<Rightarrow> 'a list \<Rightarrow> unit res" where
  "check_all f [] = Inr ()"
| "check_all f (x # xs) = (case f x of Inl err \<Rightarrow> Inl err | Inr _ \<Rightarrow> check_all f xs)"

lemma check_all_ok: "is_ok (check_all f xs) \<longleftrightarrow> (\<forall>x \<in> set xs. is_ok (f x))"
  by (induction xs) (auto split: sum.split)

definition required_fields :: "config \<Rightarrow> (string \<times> string) list" where
  "required_fields c =
     [(''Issuer'', Issuer c), (''ResourceURL'', ResourceURL c), (''GoogleClientID'', GoogleClientID c),
      (''GoogleClientSecret'', GoogleClientSecret c), (''GoogleRedirectURL'', GoogleRedirectURL c),
      (''AuthorizeURL'', AuthorizeURL c), (''TokenURL'', TokenURL c), (''RegisterURL'', RegisterURL c)]"

definition dev_urls :: "config \<Rightarrow> (string \<times> string) list" where
  "dev_urls c =
     [(''Issuer'', Issuer c), (''ResourceURL'', ResourceURL c), (''MetadataBaseURL'', MetadataBaseURL c),
      (''AuthorizeURL'', AuthorizeURL c), (''TokenURL'', TokenURL c), (''RegisterURL'', RegisterURL c),
      (''GoogleRedirectURL'', GoogleRedirectURL c)]"

definition missing_fields :: "config \<Rightarrow> string list" where
  "missing_fields c =
     map fst (filter (\<lambda>(nm, v). TrimSpace v = []) (required_fields c))
       @ (if JWTSecret c = [] then [''JWTSecret''] else [])"

definition default_if :: "bool \<Rightarrow> 'a \<Rightarrow> 'a \<Rightarrow> 'a" where
  "default_if b d v = (if b then d else v)"

definition with_lifetimes :: "config \<Rightarrow> config" where
  "with_lifetimes c = c\<lparr>
     AccessTokenTTL := default_if (AccessTokenTTL c \<le> 0) hour (AccessTokenTTL c),
     RefreshTokenTTL := default_if (RefreshTokenTTL c \<le> 0) (30 * 24 * hour) (RefreshTokenTTL c),
     AuthCodeTTL := default_if (AuthCodeTTL c \<le> 0) (5 * minute) (AuthCodeTTL c),
     PendingAuthTTL := default_if (PendingAuthTTL c \<le> 0) (10 * minute) (PendingAuthTTL c),
     RefreshTokenAbsoluteTTL := default_if (RefreshTokenAbsoluteTTL c \<le> 0) (90 * 24 * hour) (RefreshTokenAbsoluteTTL c),
     RefreshGracePeriod := (let g = default_if (RefreshGracePeriod c = 0) (30 * second) (RefreshGracePeriod c)
                            in default_if (g < 0) 0 g),
     UnusedClientTTL := default_if (UnusedClientTTL c \<le> 0) (24 * hour) (UnusedClientTTL c),
     ClientTTL := default_if (ClientTTL c \<le> 0) (90 * 24 * hour) (ClientTTL c),
     PurgeInterval := default_if (PurgeInterval c \<le> 0) (5 * minute) (PurgeInterval c)\<rparr>"

definition clean_hosts :: "lib \<Rightarrow> string list \<Rightarrow> string list" where
  "clean_hosts L hs = filter (\<lambda>h. h \<noteq> []) (map (\<lambda>h. ToLower (unicode_lower L) (TrimSpace h)) hs)"

definition with_endpoints :: "config \<Rightarrow> config" where
  "with_endpoints c = c\<lparr>
     GoogleAuthURL := default_if (GoogleAuthURL c = []) DefaultGoogleAuthURL (GoogleAuthURL c),
     GoogleTokenURL := default_if (GoogleTokenURL c = []) DefaultGoogleTokenURL (GoogleTokenURL c),
     GoogleJWKSURL := default_if (GoogleJWKSURL c = []) DefaultGoogleJWKSURL (GoogleJWKSURL c)\<rparr>"

definition absolute_fields :: "config \<Rightarrow> (string \<times> string) list" where
  "absolute_fields c = filter (\<lambda>(nm, v). \<not> (nm \<noteq> ''Issuer'' \<and> \<not> HasSuffix nm ''URL'')) (required_fields c)"

definition New :: "lib \<Rightarrow> config \<Rightarrow> provider res" where
  "New L c =
     (if missing_fields c \<noteq> [] then 
        Inl (''mcpoauth: missing required config: '' @ join_with '', '' (missing_fields c))
      else if length (JWTSecret c) < minJWTSecretLen then 
        Inl (''mcpoauth: JWTSecret must be at least '' @ decimal minJWTSecretLen @ '' bytes, got '' @ decimal (length (JWTSecret c)))
      else if distinctBytes (JWTSecret c) < minJWTSecretDistinct then 
        Inl (''mcpoauth: JWTSecret uses only '' @ decimal (distinctBytes (JWTSecret c)) @ '' distinct byte values (need at least ''
          @ decimal minJWTSecretDistinct @ ''); it must be random, not a repeated or hand-typed string'')
      else (case check_all (\<lambda>(nm, v). requireAbsoluteURL L nm v) (absolute_fields c) of
        Inl err \<Rightarrow> Inl err
      | Inr _ \<Rightarrow>
      (case (if MetadataBaseURL c = [] then Inr (Issuer c)
             else (case requireAbsoluteURL L ''MetadataBaseURL'' (MetadataBaseURL c) of
                     Inl err \<Rightarrow> Inl err | Inr _ \<Rightarrow> Inr (MetadataBaseURL c))) of
         Inl err \<Rightarrow> Inl err
       | Inr base \<Rightarrow>
      (let c1 = c\<lparr>MetadataBaseURL := base\<rparr>
       in case (if InsecureDevMode c1 then check_all (\<lambda>(nm, v). requireLoopbackHTTP L nm v) (dev_urls c1)
                else Inr ()) of
            Inl err \<Rightarrow> Inl err
          | Inr _ \<Rightarrow>
      (let c2 = with_lifetimes c1;
           c3 = c2\<lparr>VerifyStoreUserID := default_if (TrimSpace (VerifyStoreUserID c2) = [])
                    defaultVerifyStoreUserID (VerifyStoreUserID c2)\<rparr>;
           hosts = clean_hosts L (AllowedRedirectHosts c3)
       in if AllowedRedirectHosts c3 \<noteq> [] \<and> hosts = []
            then Inl ''mcpoauth: AllowedRedirectHosts contains only empty entries''
          else (let c4 = with_endpoints (c3\<lparr>AllowedRedirectHosts := hosts\<rparr>)
                in Inr \<lparr>cfg = c4, signKey = deriveSigningKey (JWTSecret c4)\<rparr>))))))"

section \<open>What a provider may rely on\<close>

definition absolute_url :: "string \<Rightarrow> bool" where
  "absolute_url raw \<longleftrightarrow> (\<exists>u. Parse raw = Inr u \<and> u_Scheme u \<noteq> [] \<and> u_Host u \<noteq> [])"

definition loopback_http :: "string \<Rightarrow> bool" where
  "loopback_http raw \<longleftrightarrow> (\<exists>u. Parse raw = Inr u \<and> u_Scheme u = ''http'' \<and> u_Host u \<noteq> [] \<and> isLoopbackHost (Hostname u))"

lemma requireAbsoluteURL_ok: "is_ok (requireAbsoluteURL L nm raw) \<longleftrightarrow> absolute_url raw"
  by (auto simp: requireAbsoluteURL_def absolute_url_def IsAbs_def split: sum.split)

lemma requireLoopbackHTTP_ok: "is_ok (requireLoopbackHTTP L nm raw) \<longleftrightarrow> loopback_http raw"
proof (cases "Parse raw")
  case (Inr u)
  then have "EqualFold (u_Scheme u) ''http'' \<longleftrightarrow> u_Scheme u = ''http''"
    by (intro plain_EqualFold Parse_scheme)
  then show ?thesis using Inr by (auto simp: requireLoopbackHTTP_def loopback_http_def IsAbs_def)
qed (simp add: requireLoopbackHTTP_def loopback_http_def)

definition sound_config :: "config \<Rightarrow> bool" where
  "sound_config c \<longleftrightarrow>
     32 \<le> length (JWTSecret c) \<and> 8 \<le> card (set (JWTSecret c)) \<and>
     list_all absolute_url [Issuer c, ResourceURL c, GoogleRedirectURL c, AuthorizeURL c, TokenURL c,
       RegisterURL c, MetadataBaseURL c] \<and>
     (InsecureDevMode c \<longrightarrow> list_all (\<lambda>f. loopback_http (snd f)) (dev_urls c)) \<and>
     0 < AccessTokenTTL c \<and> 0 < RefreshTokenTTL c \<and> 0 < AuthCodeTTL c \<and> 0 < PendingAuthTTL c \<and>
     0 < RefreshTokenAbsoluteTTL c \<and> 0 \<le> RefreshGracePeriod c \<and> 0 < UnusedClientTTL c \<and>
     0 < ClientTTL c \<and> 0 < PurgeInterval c \<and>
     [] \<notin> set (AllowedRedirectHosts c) \<and>
     GoogleClientID c \<noteq> [] \<and> GoogleClientSecret c \<noteq> [] \<and>
     GoogleAuthURL c \<noteq> [] \<and> GoogleTokenURL c \<noteq> [] \<and> GoogleJWKSURL c \<noteq> []"

lemma TrimSpace_nonempty: "TrimSpace v \<noteq> [] \<Longrightarrow> v \<noteq> []"
proof (rule notI)
  have "trim_left rs [] = []" for rs
    by (subst trim_left.simps) (auto simp: find_Some_iff split: option.split)
  then have "TrimSpace [] = []" by (simp add: TrimSpace_def)
  then show "TrimSpace v \<noteq> [] \<Longrightarrow> v = [] \<Longrightarrow> False" by simp
qed

lemma check_absolute:
  assumes "is_ok (check_all (\<lambda>(nm, v). requireAbsoluteURL L nm v) (absolute_fields c))"
  shows "list_all absolute_url [Issuer c, ResourceURL c, GoogleRedirectURL c, AuthorizeURL c, TokenURL c, RegisterURL c]"
  using assms unfolding check_all_ok
  by (simp add: absolute_fields_def required_fields_def HasSuffix_def HasPrefix_def requireAbsoluteURL_ok)

lemma check_loopback:
  "is_ok (check_all (\<lambda>(nm, v). requireLoopbackHTTP L nm v) (dev_urls c)) \<longleftrightarrow>
     list_all (\<lambda>f. loopback_http (snd f)) (dev_urls c)"
  by (auto simp: check_all_ok list_all_iff requireLoopbackHTTP_ok split: prod.split)

lemma New_parts:
  assumes "New L c = Inr p"
  obtains base where "missing_fields c = []" and "32 \<le> length (JWTSecret c)" and "8 \<le> card (set (JWTSecret c))"
    and "is_ok (check_all (\<lambda>(nm, v). requireAbsoluteURL L nm v) (absolute_fields c))"
    and "base = Issuer c \<or> is_ok (requireAbsoluteURL L ''MetadataBaseURL'' base)"
    and "InsecureDevMode c \<Longrightarrow>
      is_ok (check_all (\<lambda>(nm, v). requireLoopbackHTTP L nm v) (dev_urls (c\<lparr>MetadataBaseURL := base\<rparr>)))"
    and "p = \<lparr>cfg = with_endpoints (with_lifetimes (c\<lparr>MetadataBaseURL := base\<rparr>)\<lparr>
        VerifyStoreUserID := default_if (TrimSpace (VerifyStoreUserID c) = []) defaultVerifyStoreUserID (VerifyStoreUserID c),
        AllowedRedirectHosts := clean_hosts L (AllowedRedirectHosts c)\<rparr>),
        signKey = deriveSigningKey (JWTSecret c)\<rparr>"
proof -
  have keep: "VerifyStoreUserID (with_lifetimes d) = VerifyStoreUserID d"
    "AllowedRedirectHosts (with_lifetimes d) = AllowedRedirectHosts d" "JWTSecret (with_lifetimes d) = JWTSecret d"
    "JWTSecret (with_endpoints d) = JWTSecret d" for d :: config
    by (simp_all add: with_lifetimes_def with_endpoints_def)
  have base: "b = Issuer c \<or> is_ok (requireAbsoluteURL L ''MetadataBaseURL'' b)"
    if "(if MetadataBaseURL c = [] then Inr (Issuer c)
        else case requireAbsoluteURL L ''MetadataBaseURL'' (MetadataBaseURL c) of
          Inl err \<Rightarrow> Inl err | Inr _ \<Rightarrow> Inr (MetadataBaseURL c)) = Inr b" for b
    using that by (auto simp: res_Inr split: if_splits)
  have dev: "InsecureDevMode c \<Longrightarrow> is_ok r" if "(if InsecureDevMode c then r else Inr ()) = Inr u" for r :: "unit res" and u
    using that by auto
  from assms show thesis
    unfolding New_def res_Inr Let_def keep distinctBytes_eq minJWTSecretLen_def minJWTSecretDistinct_def
    apply (elim conjE exE)
    subgoal for u b v
      by (rule that [of b]) (auto simp: keep dest: base [of b] dev)
    done
qed

lemma New_sound_lemma:
  assumes "New L c = Inr p"
  shows "sound_config (cfg p) \<and> signKey p = hmac_sha256 (JWTSecret c) (bytes accessTokenKeyInfo @ [1])"
  using assms
proof (rule New_parts)
  fix base
  assume "missing_fields c = []" and len: "32 \<le> length (JWTSecret c)" "8 \<le> card (set (JWTSecret c))"
    and abs: "is_ok (check_all (\<lambda>(nm, v). requireAbsoluteURL L nm v) (absolute_fields c))"
    and base: "base = Issuer c \<or> is_ok (requireAbsoluteURL L ''MetadataBaseURL'' base)"
    and dev: "InsecureDevMode c \<Longrightarrow>
      is_ok (check_all (\<lambda>(nm, v). requireLoopbackHTTP L nm v) (dev_urls (c\<lparr>MetadataBaseURL := base\<rparr>)))"
    and p: "p = \<lparr>cfg = with_endpoints (with_lifetimes (c\<lparr>MetadataBaseURL := base\<rparr>)\<lparr>
        VerifyStoreUserID := default_if (TrimSpace (VerifyStoreUserID c) = []) defaultVerifyStoreUserID (VerifyStoreUserID c),
        AllowedRedirectHosts := clean_hosts L (AllowedRedirectHosts c)\<rparr>),
        signKey = deriveSigningKey (JWTSecret c)\<rparr>"
  then have ids: "GoogleClientID c \<noteq> []" "GoogleClientSecret c \<noteq> []"
    by (auto simp: missing_fields_def required_fields_def split: if_splits dest: TrimSpace_nonempty)
  have urls: "list_all absolute_url [Issuer c, ResourceURL c, GoogleRedirectURL c, AuthorizeURL c, TokenURL c, RegisterURL c]"
    by (rule check_absolute [OF abs])
  with base have "absolute_url base" by (auto simp: requireAbsoluteURL_ok)
  moreover have "InsecureDevMode c \<Longrightarrow> list_all (\<lambda>f. loopback_http (snd f)) (dev_urls (c\<lparr>MetadataBaseURL := base\<rparr>))"
    using dev by (simp add: check_loopback)
  ultimately show ?thesis
    using urls ids len unfolding p
    by (auto simp: sound_config_def with_endpoints_def with_lifetimes_def default_if_def clean_hosts_def Let_def
        deriveSigningKey_eq dev_urls_def
        DefaultGoogleAuthURL_def DefaultGoogleTokenURL_def DefaultGoogleJWKSURL_def)
qed

end
