(* ===== verification/Routes.thy ===== *)
theory Routes
  imports Callback Token_Endpoint
begin

text \<open>
  The discovery documents (\<open>handlers.go\<close>), the table of routes (\<open>routes.go\<close>) and the
  dispatch of a request by path (\<open>mux.go\<close>). A handler value is the constructor of the
  endpoint it serves; \<open>serve\<close> gives the handler itself.
\<close>

section \<open>Discovery documents\<close>

definition isReadMethod :: "string \<Rightarrow> bool" where
  "isReadMethod m \<longleftrightarrow> m = ''GET'' \<or> m = ''HEAD''"

definition read_document :: "request \<Rightarrow> (string \<times> meta_value) list \<Rightarrow> response prog" where
  \<comment> \<open>the guards both documents share\<close>
  "read_document r doc =
     (case allowCORS new_writer r ''GET'' of
        (w, Some resp) \<Rightarrow> Ret resp
      | (w, None) \<Rightarrow>
          if \<not> isReadMethod (rq_Method r) then
            Ret (writeOAuthError w 405 ''invalid_request'' ''GET required'')
          else Ret (writeJSON w 200 (MetadataBody doc)))"

definition ProtectedResourceMetadata :: "provider \<Rightarrow> request \<Rightarrow> response prog" where
  "ProtectedResourceMetadata p r = read_document r
     [(''resource'', MStr (ResourceURL (cfg p))),
      (''authorization_servers'', MList [Issuer (cfg p)]),
      (''scopes_supported'', MList [''openid'', ''email'', ''profile'']),
      (''bearer_methods_supported'', MList [''header''])]"

definition AuthorizationServerMetadata :: "provider \<Rightarrow> request \<Rightarrow> response prog" where
  "AuthorizationServerMetadata p r = read_document r
     [(''issuer'', MStr (Issuer (cfg p))),
      (''authorization_endpoint'', MStr (AuthorizeURL (cfg p))),
      (''token_endpoint'', MStr (TokenURL (cfg p))),
      (''registration_endpoint'', MStr (RegisterURL (cfg p))),
      (''response_types_supported'', MList [''code'']),
      (''grant_types_supported'', MList [''authorization_code'', ''refresh_token'']),
      (''code_challenge_methods_supported'', MList [''S256'']),
      (''token_endpoint_auth_methods_supported'', MList [''none'']),
      (''scopes_supported'', MList [''openid'', ''email'', ''profile''])]"

section \<open>Routes\<close>

datatype endpoint =
    AuthorizeEndpoint
  | TokenEndpoint
  | RegisterEndpoint
  | CallbackEndpoint
  | ServerMetadataEndpoint
  | ResourceMetadataEndpoint

definition serve :: "lib \<Rightarrow> provider \<Rightarrow> endpoint \<Rightarrow> request \<Rightarrow> response prog" where
  "serve L p e r =
     (case e of
        AuthorizeEndpoint \<Rightarrow> Authorize L p r
      | TokenEndpoint \<Rightarrow> Token L p r
      | RegisterEndpoint \<Rightarrow> Register L p r
      | CallbackEndpoint \<Rightarrow> GoogleCallback L p r
      | ServerMetadataEndpoint \<Rightarrow> AuthorizationServerMetadata p r
      | ResourceMetadataEndpoint \<Rightarrow> ProtectedResourceMetadata p r)"

record route =
  Path :: string
  Methods :: "string list"
  Handler :: endpoint

definition urlPath :: "string \<Rightarrow> string" where
  "urlPath raw = (case Parse raw of Inl err \<Rightarrow> raw | Inr u \<Rightarrow> u_Path u)"

definition protectedResourceMetadataSuffix :: "string \<Rightarrow> string" where
  "protectedResourceMetadataSuffix resourceURL =
     (case Parse resourceURL of
        Inl err \<Rightarrow> []
      | Inr u \<Rightarrow> if u_Path u = [] \<or> u_Path u = ''/'' then [] else u_Path u)"

fun dedupe_loop :: "route list \<Rightarrow> string list \<Rightarrow> route list \<Rightarrow> route list" where
  "dedupe_loop [] seen out = out"
| "dedupe_loop (r # rs) seen out =
     (if Path r \<in> set seen then dedupe_loop rs seen out
      else dedupe_loop rs (Path r # seen) (out @ [r]))"

definition dedupeRoutes :: "route list \<Rightarrow> route list" where
  "dedupeRoutes routes = dedupe_loop routes [] []"

definition metadataMethods :: "string list" where
  "metadataMethods = [''GET'', ''HEAD'', ''OPTIONS'']"

definition configured_routes :: "provider \<Rightarrow> route list" where
  "configured_routes p =
     [\<lparr>Path = urlPath (AuthorizeURL (cfg p)), Methods = [''GET'', ''POST''], Handler = AuthorizeEndpoint\<rparr>,
      \<lparr>Path = urlPath (TokenURL (cfg p)), Methods = [''POST'', ''OPTIONS''], Handler = TokenEndpoint\<rparr>,
      \<lparr>Path = urlPath (RegisterURL (cfg p)), Methods = [''POST'', ''OPTIONS''], Handler = RegisterEndpoint\<rparr>,
      \<lparr>Path = urlPath (GoogleRedirectURL (cfg p)), Methods = [''GET''], Handler = CallbackEndpoint\<rparr>,
      \<lparr>Path = AuthorizationServerMetadataPath, Methods = metadataMethods, Handler = ServerMetadataEndpoint\<rparr>,
      \<lparr>Path = OpenIDConfigurationPath, Methods = metadataMethods, Handler = ServerMetadataEndpoint\<rparr>,
      \<lparr>Path = ProtectedResourceMetadataPath, Methods = metadataMethods, Handler = ResourceMetadataEndpoint\<rparr>]"

definition Routes :: "provider \<Rightarrow> route list" where
  "Routes p =
     (let suffix = protectedResourceMetadataSuffix (ResourceURL (cfg p));
          derived = ProtectedResourceMetadataPath @ suffix;
          routes = (if suffix \<noteq> [] \<and> derived \<noteq> ProtectedResourceMetadataPath
                    then configured_routes p
                      @ [\<lparr>Path = derived, Methods = metadataMethods, Handler = ResourceMetadataEndpoint\<rparr>]
                    else configured_routes p)
      in dedupeRoutes routes)"

section \<open>Mounting\<close>

text \<open>
  \<open>ServeMux.Handle\<close> panics (\<open>None\<close> here) on an empty path and on a path that is
  registered already. The model covers plain paths: those that start with a slash and hold
  neither blanks nor braces, which \<open>net/http\<close> reads as a method or a wildcard; two plain
  paths conflict only if they are equal. (A path that is not clean, with an empty or a dot
  segment, is registered as any other; that the mux redirects a request for it to the clean path
  first is not modelled.)
\<close>

definition plain_path :: "string \<Rightarrow> bool" where
  "plain_path path \<longleftrightarrow> HasPrefix path ''/'' \<and> list_all (\<lambda>c. c \<notin> set ([CHR '' '', CHR 0x09] @ ''{}'')) path"

definition mux_handle :: "string \<Rightarrow> endpoint \<Rightarrow> (string \<times> endpoint) list \<Rightarrow> (string \<times> endpoint) list option" where
  "mux_handle path h m = (if \<not> plain_path path \<or> path \<in> fst ` set m then None else Some (m @ [(path, h)]))"

fun mount_routes :: "route list \<Rightarrow> (string \<times> endpoint) list \<Rightarrow> (string \<times> endpoint) list option" where
  "mount_routes [] m = Some m"
| "mount_routes (r # rs) m =
     (case mux_handle (Path r) (Handler r) m of None \<Rightarrow> None | Some m' \<Rightarrow> mount_routes rs m')"

definition Mount :: "provider \<Rightarrow> (string \<times> endpoint) list \<Rightarrow> (string \<times> endpoint) list option" where
  "Mount p m = mount_routes (Routes p) m"

section \<open>Facts\<close>

lemma dedupe_loop_spec:
  assumes "distinct (map Path out)" and "set seen = set (map Path out)"
  shows "distinct (map Path (dedupe_loop rs seen out)) \<and>
    set (map Path (dedupe_loop rs seen out)) = set (map Path out) \<union> set (map Path rs) \<and>
    set (dedupe_loop rs seen out) \<subseteq> set out \<union> set rs"
  using assms
proof (induction rs seen out rule: dedupe_loop.induct)
  case (2 r rs seen out)
  show ?case
  proof (cases "Path r \<in> set seen")
    case True
    then have "Path r \<in> set (map Path out)" using "2.prems" by simp
    with 2 True show ?thesis by auto
  next
    case False
    then have "Path r \<notin> set (map Path out)" using "2.prems" by simp
    then have "distinct (map Path (out @ [r]))" "set (Path r # seen) = set (map Path (out @ [r]))"
      using "2.prems" by auto
    from "2.IH" (2) [OF False this] False show ?thesis by auto
  qed
qed simp

lemma distinct_dedupe: "distinct (map Path (dedupeRoutes rs))"
  using dedupe_loop_spec [of "[]" "[]" rs] by (simp add: dedupeRoutes_def)

lemma paths_dedupe: "Path ` set (dedupeRoutes rs) = Path ` set rs"
  using dedupe_loop_spec [of "[]" "[]" rs] by (simp add: dedupeRoutes_def)

lemma dedupe_first: "distinct (map Path rs) \<Longrightarrow> dedupeRoutes rs = rs"
proof -
  have "dedupe_loop rs seen out = out @ rs" if "distinct (map Path rs)" "set seen \<inter> set (map Path rs) = {}" for rs seen out
    using that by (induction rs seen out rule: dedupe_loop.induct) auto
  then show "distinct (map Path rs) \<Longrightarrow> dedupeRoutes rs = rs" by (simp add: dedupeRoutes_def)
qed

abbreviation table :: "route list \<Rightarrow> (string \<times> endpoint) list" where
  "table rs \<equiv> map (\<lambda>r. (Path r, Handler r)) rs"

text \<open>Deduplication keeps the first handler of every path.\<close>

lemma map_of_dedupe: "map_of (table (dedupeRoutes rs)) = map_of (table rs)"
proof -
  have "map_of (table (dedupe_loop rs seen out)) k =
      (case map_of (table out) k of Some h \<Rightarrow> Some h | None \<Rightarrow> map_of (table rs) k)"
    if "set seen = set (map Path out)" for rs seen out k
    using that
  proof (induction rs seen out rule: dedupe_loop.induct)
    case (2 r rs seen out)
    show ?case
    proof (cases "Path r \<in> set seen")
      case True
      then have "map_of (table out) (Path r) \<noteq> None" using "2.prems" by (auto simp: map_of_eq_None_iff image_image)
      with 2 True show ?thesis by (auto split: option.split)
    next
      case False
      then have "map_of (table out) (Path r) = None" using "2.prems" by (auto simp: map_of_eq_None_iff image_image)
      with 2 False show ?thesis by (auto simp: map_add_def split: option.split)
    qed
  qed (auto split: option.split)
  then show ?thesis by (simp add: dedupeRoutes_def fun_eq_iff)
qed

lemma mount_routes_distinct:
  assumes "distinct (map Path rs)" and "set (map Path rs) \<inter> fst ` set m = {}" and "list_all plain_path (map Path rs)"
  shows "mount_routes rs m = Some (m @ table rs)"
  using assms
  by (induction rs m rule: mount_routes.induct) (auto simp: mux_handle_def)

end
