(* ===== verification/Component_Properties.thy ===== *)
theory Component_Properties
  imports Flow_Properties Query_Strings Provider_Config Routes
begin

text \<open>
  Properties of single components: the constructor, registration, the binder cookie, keys and
  tokens, the grace cache, the key cache, redirects, routes, and the in-memory store.
\<close>

section \<open>Auxiliary facts\<close>

text \<open>HKDF-Expand of RFC 5869: the blocks, and their concatenation.\<close>

primrec hkdf_block :: "byte list \<Rightarrow> byte list \<Rightarrow> nat \<Rightarrow> byte list" where
  "hkdf_block prk info 0 = []"
| "hkdf_block prk info (Suc i) = hmac_sha256 prk (hkdf_block prk info i @ info @ [of_nat (Suc i)])"

definition hkdf_blocks :: "byte list \<Rightarrow> byte list \<Rightarrow> nat \<Rightarrow> byte list" where
  "hkdf_blocks prk info k = concat (map (hkdf_block prk info) [1..<Suc k])"

lemma hkdf_blocks_Suc: "hkdf_blocks prk info (Suc k) = hkdf_blocks prk info k @ hkdf_block prk info (Suc k)"
  by (simp add: hkdf_blocks_def)

lemma length_hkdf_blocks: "length (hkdf_blocks prk info k) = 32 * k"
  by (induction k) (simp_all add: hkdf_blocks_Suc, simp add: hkdf_blocks_def)

lemma hkdf_loop_blocks:
  "hkdf_loop prk info n (of_nat (Suc k)) (hkdf_block prk info k) (hkdf_blocks prk info k)
     = hkdf_blocks prk info (max k ((n + 31) div 32))"
proof (induction "n - 32 * k" arbitrary: k rule: less_induct)
  case less
  show ?case
  proof (cases "32 * k < n")
    case True
    then have "hkdf_loop prk info n (of_nat (Suc k)) (hkdf_block prk info k) (hkdf_blocks prk info k)
        = hkdf_loop prk info n (of_nat (Suc (Suc k))) (hkdf_block prk info (Suc k)) (hkdf_blocks prk info (Suc k))"
      by (subst hkdf_loop.simps) (simp add: length_hkdf_blocks hkdf_blocks_Suc Let_def add.commute)
    also have "\<dots> = hkdf_blocks prk info (max (Suc k) ((n + 31) div 32))"
      by (rule less.hyps) (use True in simp)
    also have "max (Suc k) ((n + 31) div 32) = max k ((n + 31) div 32)"
      using True by (simp add: max_def) linarith
    finally show ?thesis .
  next
    case False
    then have "max k ((n + 31) div 32) = k" by (simp add: max_def) linarith
    with False show ?thesis by (subst hkdf_loop.simps) (simp add: length_hkdf_blocks)
  qed
qed

lemma hkdfExpand_blocks: "hkdfExpand prk info n = take n (hkdf_blocks prk info ((n + 31) div 32))"
  using hkdf_loop_blocks [of prk info n 0] by (simp add: hkdfExpand_def hkdf_blocks_def)

text \<open>
  The row of a registration, field by field, as the backend keeps it: \<open>rnd\<close> are the bytes
  the random source has left.
\<close>

definition registered ::
  "lib \<Rightarrow> provider \<Rightarrow> rounding \<Rightarrow> env \<Rightarrow> byte list \<Rightarrow> registration_request \<Rightarrow> client \<Rightarrow> bool" where
  "registered L p n E rnd req c \<longleftrightarrow>
     cl_ClientID c = b64url_encode (take 24 rnd) \<and> cl_RedirectURIs c = rg_RedirectURIs req \<and>
     cl_ClientName c = rg_ClientName req \<and>
     (\<exists>k. cl_ExpiresAt c = r_row n (e_now E k + UnusedClientTTL (cfg p))) \<and>
     rg_RedirectURIs req \<noteq> [] \<and> length (rg_RedirectURIs req) \<le> 10 \<and> length (rg_ClientName req) \<le> 200 \<and>
     (\<forall>u \<in> set (rg_RedirectURIs req). length u \<le> 2048 \<and> safe_redirect u \<and> allowed_host L p u)"

definition reported :: "client \<Rightarrow> response \<Rightarrow> bool" where
  "reported c resp \<longleftrightarrow> rs_status resp = 201 \<and> (\<exists>b. rs_body resp = RegistrationBody b \<and>
     rr_ClientID b = cl_ClientID c \<and> rr_RedirectURIs b = cl_RedirectURIs c \<and> rr_ClientName b = cl_ClientName c \<and>
     rr_TokenEndpointAuthMethod b = ''none'' \<and>
     rr_GrantTypes b = [''authorization_code'', ''refresh_token''] \<and> rr_ResponseTypes b = [''code''])"

definition registration_post ::
  "lib \<Rightarrow> provider \<Rightarrow> rounding \<Rightarrow> env \<Rightarrow> request \<Rightarrow> byte list \<Rightarrow> astore \<Rightarrow> response \<Rightarrow> astore \<Rightarrow> bool" where
  "registration_post L p n E r rnd a resp a' \<longleftrightarrow> rs_status resp \<noteq> 201 \<and> a' = a \<or>
     (\<exists>req c. rq_Method r = ''POST'' \<and> rq_json r 16384 = Inr req \<and> registered L p n E rnd req c \<and> a' = put_client c a \<and>
        (rs_status resp = 500 \<or> reported c resp))"

lemma awp_Register:
  "awp False N E (Register L p r) w (\<lambda>resp w'. registration_post L p N E r (w_rand w) (w_store w) resp (w_store w'))"
proof -
  have quiet: "registration_post L p N E r rnd a resp a" if "rs_status resp \<noteq> 201" for rnd a resp
    using that by (simp add: registration_post_def)
  have row: "registered L p N E rnd req c'"
    if "rg_RedirectURIs req \<noteq> []" "length (rg_RedirectURIs req) \<le> maxRedirectURIs"
      "check_uris L p (rg_RedirectURIs req) = Inr ()" "length (rg_ClientName req) \<le> maxClientNameLen"
      "client_row N \<lparr>cl_ClientID = b64url_encode (take 24 rnd), cl_RedirectURIs = rg_RedirectURIs req,
         cl_ClientName = rg_ClientName req, cl_CreatedAt = e_now E k,
         cl_ExpiresAt = e_now E k + UnusedClientTTL (cfg p)\<rparr> c'" for rnd req k c'
  proof -
    have "is_ok (check_uris L p (rg_RedirectURIs req))" using that(3) by simp
    moreover have "cl_ClientID c' = b64url_encode (take 24 rnd)" "cl_RedirectURIs c' = rg_RedirectURIs req"
      "cl_ClientName c' = rg_ClientName req" "cl_ExpiresAt c' = r_row N (e_now E k + UnusedClientTTL (cfg p))"
      using that(5) by (cases c'; simp add: client_row_def nrm_client_def)+
    ultimately show ?thesis
      using that(1,2,4) by (auto simp: registered_def check_uris_ok maxRedirectURIs_def maxClientNameLen_def maxRedirectURILen_def)
  qed
  have stored: "registration_post L p N E r rnd a resp (put_client c' a)"
    if "rq_Method r = ''POST''" "rq_json r maxRegistrationBytes = Inr req" "rg_RedirectURIs req \<noteq> []"
      "length (rg_RedirectURIs req) \<le> maxRedirectURIs" "check_uris L p (rg_RedirectURIs req) = Inr ()"
      "length (rg_ClientName req) \<le> maxClientNameLen"
      "client_row N \<lparr>cl_ClientID = b64url_encode (take 24 rnd), cl_RedirectURIs = rg_RedirectURIs req,
         cl_ClientName = rg_ClientName req, cl_CreatedAt = e_now E k,
         cl_ExpiresAt = e_now E k + UnusedClientTTL (cfg p)\<rparr> c'"
      "rs_status resp = 500 \<or> reported c' resp" for rnd a resp c' req k
    using row [OF that(3-7)] that(1,2,8) unfolding registration_post_def maxRegistrationBytes_def by auto
  have told: "reported c' (writeJSON W 201 (RegistrationBody \<lparr>rr_ClientID = i, rr_RedirectURIs = us, rr_ClientName = m,
      rr_TokenEndpointAuthMethod = ''none'', rr_GrantTypes = [''authorization_code'', ''refresh_token''],
      rr_ResponseTypes = [''code'']\<rparr>))"
    if "client_row N \<lparr>cl_ClientID = i, cl_RedirectURIs = us, cl_ClientName = m, cl_CreatedAt = t, cl_ExpiresAt = u\<rparr> c'"
    for W i us m t u c'
    using that by (cases c') (simp add: reported_def client_row_def nrm_client_def)
  show ?thesis
    unfolding Register_def randomToken_def allowCORS_def Let_def
    by (auto split: option.split sum.split simp: finish_def quiet told dest!: rand_token intro: stored)
qed

text \<open>
  The 64-bit product of \<open>cacheTTL\<close>: at the last value that fits, at the first that does
  not, and at one that wraps all the way round to a positive number again.
\<close>

lemma duration_mult_wrap:
  "duration_mult 9223372036 second = 9223372036000000000" "duration_mult 9223372037 second = - 9223372036709551616"
  "duration_mult 18446844074 second = 100000290448384"
  by (simp_all add: duration_mult_def signed_of_int signed_take_bit_eq_take_bit_shift take_bit_eq_mod)

lemma max_age_parts:
  "split_char CHR '','' ''max-age=9223372036'' = [''max-age=9223372036'']"
  "split_char CHR '','' ''max-age=9223372037'' = [''max-age=9223372037'']"
  "split_char CHR '','' ''max-age=18446844074'' = [''max-age=18446844074'']"
  "TrimSpace ''max-age=9223372036'' = ''max-age=9223372036''" "TrimSpace ''max-age=9223372037'' = ''max-age=9223372037''"
  "TrimSpace ''max-age=18446844074'' = ''max-age=18446844074''"
  "CutPrefix ''max-age=9223372036'' ''max-age='' = Some ''9223372036''"
  "CutPrefix ''max-age=9223372037'' ''max-age='' = Some ''9223372037''"
  "CutPrefix ''max-age=18446844074'' ''max-age='' = Some ''18446844074''"
  "TrimSpace ''9223372036'' = ''9223372036''" "TrimSpace ''9223372037'' = ''9223372037''"
  "TrimSpace ''18446844074'' = ''18446844074''"
  by code_simp+

lemma Atoi_max_age:
  "Atoi ''9223372036'' = Some 9223372036" "Atoi ''9223372037'' = Some 9223372037" "Atoi ''18446844074'' = Some 18446844074"
  by (simp_all add: Atoi_def dec_value_def HasPrefix_def in_range_def)

lemma cacheTTL_wrap:
  "cacheTTL ''max-age=9223372036'' = maxTTL" "cacheTTL ''max-age=9223372037'' = minTTL" "cacheTTL ''max-age=18446844074'' = maxTTL"
  by (simp_all add: cacheTTL_def max_age_parts Atoi_max_age duration_mult_wrap minTTL_def maxTTL_def)

section \<open>Samples\<close>

lemma loopback_uri_safe [simp]: "safe_redirect ''http://127.0.0.1/cb''"
proof -
  have "is_ok (ValidateRedirectURI sample_lib ''http://127.0.0.1/cb'')" by code_simp
  then show ?thesis by (simp add: ValidateRedirectURI_ok)
qed

definition sample_registration :: request where
  "sample_registration = (form_post [])\<lparr>rq_json := (\<lambda>_. Inr \<lparr>rg_RedirectURIs = [''http://127.0.0.1/cb''],
     rg_ClientName = ''App''\<rparr>)\<rparr>"

lemma sample_registration_201: "rs_status (fst (sample_run (Register sample_lib sample_provider sample_registration) (sample_world 0))) = 201"
proof -
  have "is_ok (check_uris sample_lib sample_provider [''http://127.0.0.1/cb''])"
    by (simp add: check_uris_ok maxRedirectURILen_def allowed_host_def del: check_uris.simps)
  then obtain u where "check_uris sample_lib sample_provider [''http://127.0.0.1/cb''] = Inr u"
    unfolding is_ok_iff by blast
  then show ?thesis
    by (simp add: Register_def randomToken_def allowCORS_def Let_def sample_registration_def form_post_def
        maxRedirectURIs_def maxClientNameLen_def rand_read_def mem_ops_def store_defs del: check_uris.simps)
qed

definition strong_config :: config where
  "strong_config = sample_config\<lparr>JWTSecret := map of_nat [0..<32]\<rparr>"

lemma strong_config_accepted: "is_ok (New sample_lib strong_config)"
proof -
  have "missing_fields strong_config = []"
    by (simp add: missing_fields_def required_fields_def strong_config_def sample_config_def TrimSpace_graphic)
  moreover have "distinctBytes (JWTSecret strong_config) = 32"
    by (simp add: strong_config_def distinctBytes_eq upt_rec)
  moreover have "is_ok (check_all (\<lambda>(nm, v). requireAbsoluteURL sample_lib nm v) (absolute_fields strong_config))" by code_simp
  moreover have "is_ok (requireAbsoluteURL sample_lib ''MetadataBaseURL'' (MetadataBaseURL strong_config))" by code_simp
  moreover have "length (JWTSecret strong_config) = 32" "MetadataBaseURL strong_config \<noteq> []"
    "\<not> InsecureDevMode strong_config" "AllowedRedirectHosts strong_config = []"
    by (simp_all add: strong_config_def sample_config_def)
  ultimately show ?thesis
    by (auto simp: New_def is_ok_iff Let_def minJWTSecretLen_def minJWTSecretDistinct_def with_lifetimes_def)
qed

section \<open>Properties\<close>

text \<open>
  C32. The constructor: whatever configuration \<open>New\<close> accepts, the provider it builds has a
  strong secret, absolute URLs (loopback http ones in the insecure mode), positive lifetimes, a
  grace period that is not negative, a host list without empty entries, and the HKDF-derived
  signing key.
\<close>

theorem New_sound:
  assumes "New L c = Inr p"
  shows "sound_config (cfg p) \<and> signKey p = hkdf_block (JWTSecret (cfg p)) (bytes accessTokenKeyInfo) 1"
proof -
  have "JWTSecret (cfg p) = JWTSecret c"
    using assms by (rule New_parts) (simp add: with_endpoints_def with_lifetimes_def)
  then show ?thesis using New_sound_lemma [OF assms] by simp
qed

theorem New_sound_witness:
  "\<exists>p. New sample_lib strong_config = Inr p \<and> sound_config (cfg p)"
  using New_sound [of sample_lib strong_config] strong_config_accepted by (auto simp: is_ok_iff)

text \<open>
  C28. The redirect-URI rule: a URI passes \<open>ValidateRedirectURI\<close> and the deployment's host
  policy exactly if it is an absolute https URL, or http to a loopback host, without fragment and
  userinfo, whose host the deployment lists (or which is http to a loopback host, or nothing is
  listed).
\<close>

theorem redirect_policy_exact:
  "is_ok (ValidateRedirectURI L raw) \<and> is_ok (checkRedirectHostPolicy L p raw) \<longleftrightarrow>
     safe_redirect raw \<and> allowed_host L p raw"
  by (simp add: ValidateRedirectURI_ok checkRedirectHostPolicy_ok)

text \<open>
  C29. Registration: on any store that keeps the contract, a registration answered 201 stored
  exactly one client, the one it reports with its ID, redirect URIs and name: a public client of
  the code flow, under a fresh ID of 24 random bytes, with one to ten redirect URIs of at most
  2048 characters that all satisfy the policy and a name of at most 200, which expires after the
  lifetime of an unused client. Every answer but 201 and 500 leaves the tables alone; a 500 may
  have stored that client (the save took effect and its answer was lost) and nothing else.
\<close>

theorem registration_sound:
  assumes "store_contract S absf I nrm" and "I (w_store w)" and "run S E (Register L p r) w = (resp, w')"
    and "a = absf (w_store w)" and "a' = absf (w_store w')"
  shows "(a' \<noteq> a \<or> rs_status resp = 201 \<longrightarrow> (\<exists>req c k. rq_Method r = ''POST'' \<and> rq_json r 16384 = Inr req \<and>
       a_clients a' = (a_clients a)(cl_ClientID c \<mapsto> c) \<and> a_codes a' = a_codes a \<and> a_pending a' = a_pending a \<and>
       a_refresh a' = a_refresh a \<and> a_users a' = a_users a \<and>
       cl_ClientID c = b64url_encode (take 24 (w_rand w)) \<and> cl_RedirectURIs c = rg_RedirectURIs req \<and>
       cl_ClientName c = rg_ClientName req \<and> cl_ExpiresAt c = r_row nrm (e_now E k + UnusedClientTTL (cfg p)) \<and>
       cl_RedirectURIs c \<noteq> [] \<and> length (cl_RedirectURIs c) \<le> 10 \<and> length (cl_ClientName c) \<le> 200 \<and>
       (\<forall>u \<in> set (cl_RedirectURIs c). length u \<le> 2048 \<and> safe_redirect u \<and> allowed_host L p u) \<and>
       (rs_status resp = 201 \<longrightarrow> (\<exists>b. rs_body resp = RegistrationBody b \<and> rr_ClientID b = cl_ClientID c \<and>
          rr_RedirectURIs b = cl_RedirectURIs c \<and> rr_ClientName b = cl_ClientName c \<and>
          rr_TokenEndpointAuthMethod b = ''none'' \<and> rr_GrantTypes b = [''authorization_code'', ''refresh_token''] \<and>
          rr_ResponseTypes b = [''code''])))) \<and>
    (rs_status resp \<noteq> 201 \<and> rs_status resp \<noteq> 500 \<longrightarrow> a' = a)"
proof -
  have "registration_post L p nrm E r (w_rand w) a resp a'"
    using run_post [OF assms(1-3) awp_Register] by (simp add: assms(4,5))
  then consider (quiet) "rs_status resp \<noteq> 201" "a' = a"
    | (stored) req c where "rq_Method r = ''POST''" "rq_json r 16384 = Inr req" "registered L p nrm E (w_rand w) req c"
        "a' = put_client c a" "rs_status resp = 500 \<or> reported c resp"
    unfolding registration_post_def by blast
  then show ?thesis
  proof cases
    case stored
    obtain k where k: "cl_ExpiresAt c = r_row nrm (e_now E k + UnusedClientTTL (cfg p))"
      using stored(3) by (auto simp: registered_def)
    have "rs_status resp = 500 \<or> rs_status resp = 201" using stored(5) by (auto simp: reported_def)
    then show ?thesis
      using stored
      by (intro conjI impI exI [of _ req] exI [of _ c] exI [of _ k] k)
         (auto simp: registered_def reported_def put_client_def)
  qed simp
qed

theorem registration_sound_witness:
  "\<exists>c b. a_clients (sample_abs (w_store (snd (sample_run (Register sample_lib sample_provider sample_registration)
       (sample_world 0))))) (b64url_encode (replicate 24 1)) = Some c \<and>
     cl_RedirectURIs c = [''http://127.0.0.1/cb''] \<and> cl_ClientName c = ''App'' \<and>
     rs_body (fst (sample_run (Register sample_lib sample_provider sample_registration) (sample_world 0))) = RegistrationBody b \<and>
     rr_ClientID b = b64url_encode (replicate 24 1) \<and> rr_ClientName b = ''App''"
  using registration_sound [OF sample_contract _ surjective_pairing refl refl,
      where w = "sample_world 0" and L = sample_lib and p = sample_provider and r = sample_registration and E = sample_env]
    sample_registration_201
  by (auto simp: sample_registration_def sample_world_def)

text \<open>
  C33. The binder cookie: what a browser sends back after \<open>addBinder\<close> reads as the new binder
  before those it had, at most five; after \<open>dropBinder\<close> it reads as the others in their order.
\<close>

theorem binder_roundtrip:
  assumes "validBinder v" and "0 \<le> PendingAuthTTL (cfg p)"
    and "wr_cookies (addBinder p w r v) = wr_cookies w @ [c]"
    and "wr_cookies (dropBinder p w r h) = wr_cookies w @ [d]"
  shows "readBinders p (sends_back c r) = take maxBinders (v # readBinders p r) \<and>
    readBinders p (sends_back d r) = filter (\<lambda>v. \<not> binder_used h v) (readBinders p r)"
  using readBinders_added [OF assms(1-3)] readBinders_dropped [OF assms(2,4)] by simp

theorem binder_roundtrip_witness:
  "\<exists>c d. readBinders sample_provider (sends_back c (flow_get [])) = [''binder2'', ''binder''] \<and>
     readBinders sample_provider (sends_back d (flow_get [])) = []"
proof -
  have cookies: "\<exists>c. wr_cookies (addBinder sample_provider new_writer (flow_get []) ''binder2'') = wr_cookies new_writer @ [c]"
    "\<exists>d. wr_cookies (dropBinder sample_provider new_writer (flow_get []) (HashSecret ''binder'')) = wr_cookies new_writer @ [d]"
    by (simp_all add: addBinder_eq dropBinder_def writeBinderCookie_def set_cookie_def)
  have v: "validBinder ''binder2''" by code_simp
  have ttl: "0 \<le> PendingAuthTTL (cfg sample_provider)" by (simp add: sample_provider_def sample_config_def)
  have "readBinders sample_provider (flow_get []) = [''binder'']" by (rule flow_binder) (simp add: flow_get_def)
  with cookies binder_roundtrip [OF v ttl] show ?thesis
    by (fastforce simp: maxBinders_def binder_used_def ConstantTimeCompare_def)
qed

text \<open>
  Whatever cookies a request carries, at most five binders are read, each of at most 64
  characters of the base64url alphabet; so the cookie written back is bounded.
\<close>

theorem binders_bounded:
  "length (readBinders p r) \<le> 5 \<and> list_all (\<lambda>v. v \<noteq> [] \<and> length v \<le> 64 \<and> list_all b64url_alphabet v) (readBinders p r)"
  using length_readBinders [of p r] readBinders_valid [of _ p r]
  by (simp add: maxBinders_def validBinder_iff list_all_iff)

text \<open>
  C35. The key derivation is HKDF-Expand of RFC 5869: the concatenation of the chained HMAC
  blocks, cut to the wanted length.
\<close>

theorem hkdfExpand_rfc5869:
  "hkdfExpand prk info n = take n (hkdf_blocks prk info ((n + 31) div 32))"
  by (rule hkdfExpand_blocks)

text \<open>
  C36. The PKCE challenge check accepts exactly 43 to 128 characters of the unreserved set, and
  the challenge of any verifier is accepted and verified by that verifier.
\<close>

theorem code_challenge_exact:
  "(is_ok (validateCodeChallenge c) \<longleftrightarrow> 43 \<le> length c \<and> length c \<le> 128 \<and>
      list_all (\<lambda>c. b64url_alphabet c \<or> c = CHR ''.'' \<or> c = CHR ''~'') c) \<and>
   is_ok (validateCodeChallenge (b64url_encode (sha256 (bytes v)))) \<and>
   (verifyPKCE v (b64url_encode (sha256 (bytes v))) \<longleftrightarrow> v \<noteq> [])"
proof -
  have "list_all (\<lambda>c. b64url_alphabet c \<or> c = CHR ''.'' \<or> c = CHR ''~'') (b64url_encode (sha256 (bytes v)))"
    using b64url_encode_alphabet [of "sha256 (bytes v)"] by (auto simp: list_all_iff)
  then show ?thesis
    using length_b64url_encode [of "sha256 (bytes v)"]
    by (auto simp: validateCodeChallenge_ok verifyPKCE_def ConstantTimeCompare_def)
qed

text \<open>
  C31. An access token issued now is accepted until the second its lifetime ends, and gives back
  the user it was issued to.
\<close>

theorem access_token_roundtrip:
  assumes "jwt_library L" and "issueAccessToken L p u now = Inr tok" and "u \<noteq> []"
    and "now \<le> t" and "t < trunc_second (now + AccessTokenTTL (cfg p))"
  shows "check_access_token L p tok t = Inr u"
  by (rule issued_validates [OF assms])

theorem access_token_roundtrip_witness:
  "check_access_token sample_lib sample_provider ''token'' sample_now = Inr ''alice''"
  by (rule access_token_roundtrip [OF jwt_library_sample sample_issue])
     (simp_all add: trunc_second_def sample_now_def)

text \<open>
  C30. The middleware lets a request through only with a bearer token that the JWT library
  verified with HS256 and the provider's own key for this issuer and this resource, within its
  lifetime, of the MCP token use and with a subject, which the wrapped handler reads from the
  request's context (\<open>UserIDFromContext\<close>); the rest of the context is as it was. Every
  other request, one without a bearer token or with a token of which one of these fails, is
  answered 401 with the challenge that names the resource metadata document, and the wrapped
  handler is not called: of the world only the clock was read, once if there was a token. Issuer
  and resource are not empty, which \<open>New\<close> ensures.
\<close>

theorem middleware_gate:
  assumes "jwt_library L" and "Issuer (cfg p) \<noteq> []" and "ResourceURL (cfg p) \<noteq> []" and "now = e_now E (w_tick w)"
    and "opts = \<lparr>po_ValidMethods = [''HS256''], po_Issuer = Some (Issuer (cfg p)), po_Audience = ResourceURL (cfg p),
           po_ExpirationRequired = True\<rparr>"
    and "keyfunc = (\<lambda>is_hmac. if is_hmac then Inr (signKey p) else Inl ''unexpected signing method'')"
  shows "(\<exists>resp. run S E (Middleware L p next_handler ctx r) w =
        (resp, w\<lparr>w_tick := w_tick w + (if \<exists>tok. bearer_token r tok then 1 else 0)\<rparr>) \<and>
      rs_status resp = 401 \<and> map_of (rs_headers resp) ''WWW-Authenticate'' = Some (''Bearer resource_metadata='' @
        Quote (unicode_quote L) (TrimRight (MetadataBaseURL (cfg p)) CHR ''/'' @ ''/.well-known/oauth-protected-resource'')) \<and>
      (\<forall>tok c. bearer_token r tok \<longrightarrow> jwt_parse_access L tok opts now keyfunc = Inr c \<longrightarrow>
         at_TokenUse c \<noteq> ''mcp_access'' \<or> at_Subject c = [])) \<or>
    (\<exists>tok c ctx'. bearer_token r tok \<and> jwt_parse_access L tok opts now keyfunc = Inr c \<and>
       at_TokenUse c = ''mcp_access'' \<and> at_Issuer c = Issuer (cfg p) \<and>
       ResourceURL (cfg p) \<in> set (at_Audience c) \<and> at_Subject c \<noteq> [] \<and>
       at_NotBefore c \<le> now \<and> now < at_ExpiresAt c \<and>
       UserIDFromContext ctx' = Some (at_Subject c) \<and> (\<forall>k. k \<noteq> UserIDContextKey \<longrightarrow> map_of ctx' k = map_of ctx k) \<and>
       run S E (Middleware L p next_handler ctx r) w = run S E (next_handler ctx' r) (w\<lparr>w_tick := Suc (w_tick w)\<rparr>))"
proof -
  have opts: "access_parse_options p = opts" "access_keyfunc p = keyfunc"
    by (auto simp: access_parse_options_def access_keyfunc_def assms(5,6))
  have refused: "rs_status (Unauthorized L p new_writer) = 401 \<and>
      map_of (rs_headers (Unauthorized L p new_writer)) ''WWW-Authenticate'' = Some (''Bearer resource_metadata='' @
        Quote (unicode_quote L) (TrimRight (MetadataBaseURL (cfg p)) CHR ''/'' @ ''/.well-known/oauth-protected-resource''))"
    by (simp add: Unauthorized_def writeJSON_def finish_def ProtectedResourceMetadataURL_def ProtectedResourceMetadataPath_def
        header_set_def update_conv')
  show ?thesis
  proof (cases "BearerToken r")
    case None
    then show ?thesis using refused by (simp add: Middleware_def bearer_token_iff)
  next
    case (Some tok)
    show ?thesis
    proof (cases "check_access_token L p tok now")
      case (Inl err)
      have "at_TokenUse c \<noteq> ''mcp_access'' \<or> at_Subject c = []" if "jwt_parse_access L tok opts now keyfunc = Inr c" for c
        using Inl that by (auto simp: check_access_token_def opts TokenUseMCPAccess_def split: if_splits)
      with Some Inl refused show ?thesis by (simp add: Middleware_def ValidateAccessToken_def assms(4) bearer_token_iff)
    next
      case (Inr u)
      let ?ctx = "WithValue ctx UserIDContextKey (StringValue u)"
      from Inr Some have "run S E (Middleware L p next_handler ctx r) w = run S E (next_handler ?ctx r) (w\<lparr>w_tick := Suc (w_tick w)\<rparr>)"
        by (simp add: Middleware_def ValidateAccessToken_def assms(4))
      moreover have "\<forall>k. k \<noteq> UserIDContextKey \<longrightarrow> map_of ?ctx k = map_of ctx k" by simp
      ultimately show ?thesis
        using Some validated_bound [OF assms(1-3) Inr] UserIDFromContext_WithValue [of u ctx]
        unfolding opts TokenUseMCPAccess_def bearer_token_iff by blast
    qed
  qed
qed

definition whoami :: "request_context \<Rightarrow> request \<Rightarrow> response prog" where
  "whoami ctx r = Ret (finish new_writer (if UserIDFromContext ctx = Some ''alice'' then 200 else 500) NoBody)"

lemma sample_parse_token:
  "jwt_parse_access sample_lib ''token'' (access_parse_options sample_provider) sample_now (access_keyfunc sample_provider) =
   Inr (jwt_claims sample_claims)"
  by (simp add: sample_lib_def sample_parse_def sample_claims_def access_claims_for_def access_parse_options_def
      access_keyfunc_def jwt_claims_def trunc_second_def sample_now_def)

text \<open>With a token the wrapped handler answers; without one it is the challenge.\<close>

theorem middleware_gate_witness:
  "rs_status (fst (run sample_ops sample_env (Middleware sample_lib sample_provider whoami []
     ((flow_get [])\<lparr>rq_authorization := ''Bearer token''\<rparr>)) (sample_world 0))) = 200 \<and>
   (\<exists>resp. run sample_ops sample_env (Middleware sample_lib sample_provider whoami [] (flow_get [])) (sample_world 0) =
      (resp, sample_world 0) \<and> rs_status resp = 401 \<and> map_of (rs_headers resp) ''WWW-Authenticate'' \<noteq> None)"
proof -
  let ?r = "(flow_get [])\<lparr>rq_authorization := ''Bearer token''\<rparr>"
  have tok: "BearerToken ?r = Some ''token''" "BearerToken (flow_get []) = None" by code_simp+
  have c: "at_Subject (jwt_claims sample_claims) = ''alice''" "at_TokenUse (jwt_claims sample_claims) = ''mcp_access''"
    by (simp_all add: jwt_claims_def sample_claims_def access_claims_for_def TokenUseMCPAccess_def)
  have named: "Issuer (cfg sample_provider) \<noteq> []" "ResourceURL (cfg sample_provider) \<noteq> []"
    by (simp_all add: sample_provider_def sample_config_def)
  have "access_keyfunc sample_provider = (\<lambda>is_hmac. if is_hmac then Inr (signKey sample_provider) else Inl ''unexpected signing method'')"
    by (auto simp: access_keyfunc_def)
  note parse = sample_parse_token [unfolded access_parse_options_def this]
  note gate = middleware_gate [OF jwt_library_sample named refl refl refl, of sample_ops sample_env whoami "[]" _ "sample_world 0"]
  from gate [of ?r] tok(1)
  have "rs_status (fst (run sample_ops sample_env (Middleware sample_lib sample_provider whoami [] ?r) (sample_world 0))) = 200"
    using parse by (auto simp: bearer_token_iff c whoami_def finish_def)
  moreover from gate [of "flow_get []"] tok(2)
  have "\<exists>resp. run sample_ops sample_env (Middleware sample_lib sample_provider whoami [] (flow_get [])) (sample_world 0) =
      (resp, sample_world 0) \<and> rs_status resp = 401 \<and> map_of (rs_headers resp) ''WWW-Authenticate'' \<noteq> None"
    by (auto simp: bearer_token_iff)
  ultimately show ?thesis by blast
qed

text \<open>
  The grace cache answers a duplicate with the successor that was remembered last, until the
  window is over and not after; what it answers for another token it would have answered before.
\<close>

theorem grace_cache_answers:
  assumes "grace_ok g" and "0 < RefreshGracePeriod (cfg p)" and "h \<noteq> []"
  shows "fst (grace_recall h t (grace_remember L p h s now g)) =
      (if t > now + RefreshGracePeriod (cfg p) then None else Some s) \<and>
    (\<forall>h' x. h' \<noteq> h \<longrightarrow> fst (grace_recall h' t (grace_remember L p h s now g)) = Some x \<longrightarrow>
       fst (grace_recall h' t g) = Some x) \<and>
    length (grace_remember L p h s now g) \<le> 1024"
  using recall_after_remember [OF assms(2,3)] recall_other_after_remember [OF assms(1)] grace_ok_remember [OF assms(1), of L p h s now]
  by (auto simp: grace_ok_def maxGraceEntries_def)

theorem grace_cache_answers_witness:
  "fst (grace_recall ''h'' (sample_now + second) (grace_remember sample_lib sample_provider ''h'' ''s'' sample_now [])) = Some ''s'' \<and>
   fst (grace_recall ''h'' (sample_now + minute) (grace_remember sample_lib sample_provider ''h'' ''s'' sample_now [])) = None"
  using grace_cache_answers [OF grace_ok_empty, of sample_provider "''h''" "sample_now + second" sample_lib "''s''" sample_now]
    grace_cache_answers [OF grace_ok_empty, of sample_provider "''h''" "sample_now + minute" sample_lib "''s''" sample_now]
  by simp

text \<open>
  C37. The signing keys of Google are cached for a minute to a day, whatever the header says. A
  \<open>max-age\<close> whose nanoseconds leave the 64-bit range is no exception, though what it gives
  follows the wrapped product: the last value that fits gives the maximum, the smallest that
  does not gives the minimum, and one that wraps to a positive number gives the maximum again.
\<close>

theorem cacheTTL_clamped:
  "minute \<le> cacheTTL s \<and> cacheTTL s \<le> 24 * hour \<and>
   cacheTTL ''max-age=9223372036'' = 24 * hour \<and> cacheTTL ''max-age=9223372037'' = minute \<and>
   cacheTTL ''max-age=18446844074'' = 24 * hour"
using cacheTTL_bounds [of s] cacheTTL_wrap by (simp add: minTTL_def maxTTL_def)

text \<open>
  The redirect to Google carries the state: read back from the URL's query, the state,
  the client ID and the callback URL are the ones that were put in.
\<close>

theorem google_redirect_roundtrip:
  "\<exists>query. google_login_url p state = GoogleAuthURL (cfg p) @ ''?'' @ query \<and>
     value_list (ParseQuery query) ''state'' = [state] \<and>
     value_list (ParseQuery query) ''client_id'' = [GoogleClientID (cfg p)] \<and>
     value_list (ParseQuery query) ''redirect_uri'' = [GoogleRedirectURL (cfg p)]"
  using google_login_read [of p state] by blast

text \<open>
  C39. The redirect to the client: for a URI that passed registration the answer is that URI
  with a query in which the client reads the code and, if it sent one, its own state, and finds
  every other parameter its URI already had.
\<close>

theorem client_redirect_roundtrip:
  assumes "safe_redirect (pa_RedirectURI pending)"
  shows "\<exists>u query. Parse (pa_RedirectURI pending) = Inr u \<and>
    appendQuery (pa_RedirectURI pending) (with_state pending [(''code'', [code])]) = url_prefix u @ ''?'' @ query \<and>
    value_list (ParseQuery query) ''code'' = [code] \<and>
    (pa_ClientState pending \<noteq> [] \<longrightarrow> value_list (ParseQuery query) ''state'' = [pa_ClientState pending]) \<and>
    (\<forall>k. k \<noteq> ''code'' \<and> k \<noteq> ''state'' \<longrightarrow>
       value_list (ParseQuery query) k = value_list (ParseQuery (u_RawQuery u)) k)"
proof -
  from assms obtain u where u: "Parse (pa_RedirectURI pending) = Inr u" "u_Fragment u = []"
    by (auto simp: safe_redirect_def)
  from appendQuery_read [OF u(1), of "[(''code'', [code])]"] u show ?thesis
    by (fastforce simp: query_answer_def url_fragment_def)
qed

theorem client_redirect_roundtrip_witness:
  "\<exists>u query. appendQuery ''http://127.0.0.1/cb'' (with_state (sample_pending ''state'' True) [(''code'', [''c''])]) =
     url_prefix u @ ''?'' @ query \<and> value_list (ParseQuery query) ''code'' = [''c''] \<and>
     value_list (ParseQuery query) ''state'' = [''xyz'']"
  using client_redirect_roundtrip [of "sample_pending ''state'' True" "''c''"] loopback_uri_safe
  by (auto simp: sample_pending_def)

text \<open>
  The routes: no path twice; and a path is served by the endpoint that comes first in the
  configured order, the path-inserted metadata document of RFC 9728 (the well-known path with
  the resource's own path after it) included whenever the resource has a path.
\<close>

theorem routes_table:
  "distinct (map Path (Routes.Routes p)) \<and>
   map_of (table (Routes.Routes p)) = map_of (table (configured_routes p @
     (if protectedResourceMetadataSuffix (ResourceURL (cfg p)) = [] then []
      else [\<lparr>Path = ProtectedResourceMetadataPath @ protectedResourceMetadataSuffix (ResourceURL (cfg p)),
             Methods = metadataMethods, Handler = ResourceMetadataEndpoint\<rparr>])))"
  by (simp add: Routes.Routes_def Let_def distinct_dedupe map_of_dedupe)

text \<open>
  Mounting: on a mux that has none of the paths yet, with plain paths, \<open>Mount\<close> registers
  every route and does not panic.
\<close>

theorem mount_registers_all:
  assumes "list_all (\<lambda>r. plain_path (Path r) \<and> Path r \<notin> fst ` set m) (Routes.Routes p)"
  shows "Mount p m = Some (m @ table (Routes.Routes p))"
  using assms distinct_dedupe unfolding Mount_def
  by (intro mount_routes_distinct) (auto simp: Routes.Routes_def Let_def list_all_iff)

theorem mount_registers_all_witness:
  "Mount sample_provider [] = Some (table (Routes.Routes sample_provider))"
proof -
  have "list_all (\<lambda>r. plain_path (Path r)) (Routes.Routes sample_provider)" by code_simp
  then show ?thesis using mount_registers_all [of "[]" sample_provider] by simp
qed

text \<open>
  C21. The in-memory store keeps the contract of the \<open>Store\<close> interface, none of its methods
  fails, and a new store satisfies its invariant.
\<close>

theorem memory_store_refines:
  "reliable_store (mem_ops ul) (mem_abs ul) mem_inv exact \<and> mem_inv NewMemoryStore"
  by (simp add: memr.reliable_store_axioms mem_inv_new)

end
