(* ===== verification/Concurrency.thy ===== *)
theory Concurrency
  imports Wp
begin

text \<open>
  Requests in flight together. \<open>sys_step\<close> lets any thread execute its next call against the
  shared store and the provider's memory; \<open>sys_run\<close> is a finite execution with its trace,
  and the answers of the clock, the random source and the network are arbitrary in it.
  Two views of a trace are connected here:
  \<^item> locally, \<open>along P pre \<Phi> R\<close> says that whatever the calls answer, every history of the
    handler \<open>P\<close> satisfies \<open>\<Phi>\<close> and a finished one satisfies \<open>R\<close>;
  \<^item> globally, \<open>effect\<close> is what one event does to the abstract store and the memory, by
    the contract.
\<close>

section \<open>Executions\<close>

record 's sys =
  sy_store :: 's
  sy_mem :: pmem
  sy_procs :: "response prog list"

inductive sys_step :: "'s store_ops \<Rightarrow> 's sys \<Rightarrow> nat \<times> event \<Rightarrow> 's sys \<Rightarrow> bool" for S where
  sys_call: "i < length (sy_procs s) \<Longrightarrow>
     exec1 S A (sy_procs s ! i) (sy_store s, sy_mem s) = Some (ev, P, st, m) \<Longrightarrow>
     sys_step S s (i, ev) \<lparr>sy_store = st, sy_mem = m, sy_procs = (sy_procs s)[i := P]\<rparr>"

inductive sys_run :: "'s store_ops \<Rightarrow> 's sys \<Rightarrow> (nat \<times> event) list \<Rightarrow> 's sys \<Rightarrow> bool" for S s0 where
  run_empty: "sys_run S s0 [] s0"
| run_step: "sys_run S s0 tr s \<Longrightarrow> sys_step S s l s' \<Longrightarrow> sys_run S s0 (tr @ [l]) s'"

inductive_cases sys_stepE: "sys_step S s l s'"
inductive_simps sys_run_empty [simp]: "sys_run S s0 [] s"

lemma sys_run_snoc: "sys_run S s0 (tr @ [l]) s' \<longleftrightarrow> (\<exists>s. sys_run S s0 tr s \<and> sys_step S s l s')"
  by (subst sys_run.simps) auto

lemma sys_run_append: "sys_run S s0 (tr1 @ tr2) s' \<longleftrightarrow> (\<exists>s. sys_run S s0 tr1 s \<and> sys_run S s tr2 s')"
proof (induction tr2 arbitrary: s' rule: rev_induct)
  case (snoc l tr2)
  show ?case unfolding append_assoc [symmetric] sys_run_snoc snoc.IH by blast
qed simp

lemma sys_run_split:
  assumes "sys_run S s0 (tr1 @ l # tr2) s'"
  obtains s1 s2 where "sys_run S s0 tr1 s1" and "sys_step S s1 l s2" and "sys_run S s2 tr2 s'"
    and "sys_run S s0 (tr1 @ [l]) s2"
proof -
  from assms have "sys_run S s0 ((tr1 @ [l]) @ tr2) s'" by simp
  then obtain s2 where s2: "sys_run S s0 (tr1 @ [l]) s2" "sys_run S s2 tr2 s'"
    unfolding sys_run_append by blast
  then show thesis using that unfolding sys_run_snoc by blast
qed

text \<open>The calls of one thread, in order.\<close>

definition thread :: "nat \<Rightarrow> (nat \<times> event) list \<Rightarrow> event list" where
  "thread i tr = map snd (filter (\<lambda>l. fst l = i) tr)"

lemma thread_simps [simp]:
  "thread i [] = []" "thread i (tr1 @ tr2) = thread i tr1 @ thread i tr2"
  "thread i ((j, ev) # tr) = (if j = i then ev # thread i tr else thread i tr)"
  by (simp_all add: thread_def)

lemma thread_event: "ev \<in> set (thread i tr) \<longleftrightarrow> (i, ev) \<in> set tr"
  by (auto simp: thread_def image_iff)

section \<open>Histories of a handler\<close>

primrec along ::
  "'a prog \<Rightarrow> event list \<Rightarrow> (event list \<Rightarrow> bool) \<Rightarrow> ('a \<Rightarrow> event list \<Rightarrow> bool) \<Rightarrow> bool" where
  "along (Ret x) = (\<lambda>h F R. R x h)"
| "along (Now k) = (\<lambda>h F R. \<forall>t. F (h @ [EvNow t]) \<and> along (k t) (h @ [EvNow t]) F R)"
| "along (RandRead n k) = (\<lambda>h F R. \<forall>r. (\<forall>bs. r = Some bs \<longrightarrow> length bs = n) \<longrightarrow>
     F (h @ [EvRand n r]) \<and> along (k r) (h @ [EvRand n r]) F R)"
| "along (Locked f k) = (\<lambda>h F R. \<forall>m. F (h @ [EvLocked m (f m)]) \<and> along (k m) (h @ [EvLocked m (f m)]) F R)"
| "along (HttpDo q k) = (\<lambda>h F R. \<forall>r. F (h @ [EvHttp q r]) \<and> along (k r) (h @ [EvHttp q r]) F R)"
| "along (SaveClient c k) = (\<lambda>h F R. \<forall>r. F (h @ [EvSaveClient c r]) \<and> along (k r) (h @ [EvSaveClient c r]) F R)"
| "along (GetClient i k) = (\<lambda>h F R. \<forall>r. F (h @ [EvGetClient i r]) \<and> along (k r) (h @ [EvGetClient i r]) F R)"
| "along (SaveAuthCode c k) = (\<lambda>h F R. \<forall>r. F (h @ [EvSaveAuthCode c r]) \<and> along (k r) (h @ [EvSaveAuthCode c r]) F R)"
| "along (ConsumeAuthCode x k) = (\<lambda>h F R. \<forall>r. F (h @ [EvConsumeAuthCode x r]) \<and> along (k r) (h @ [EvConsumeAuthCode x r]) F R)"
| "along (SavePendingAuth p k) = (\<lambda>h F R. \<forall>r. F (h @ [EvSavePendingAuth p r]) \<and> along (k r) (h @ [EvSavePendingAuth p r]) F R)"
| "along (ConsumePendingAuth x k) = (\<lambda>h F R. \<forall>r. F (h @ [EvConsumePendingAuth x r]) \<and> along (k r) (h @ [EvConsumePendingAuth x r]) F R)"
| "along (SaveRefreshToken rt k) = (\<lambda>h F R. \<forall>r. F (h @ [EvSaveRefreshToken rt r]) \<and> along (k r) (h @ [EvSaveRefreshToken rt r]) F R)"
| "along (GetRefreshToken x k) = (\<lambda>h F R. \<forall>r. F (h @ [EvGetRefreshToken x r]) \<and> along (k r) (h @ [EvGetRefreshToken x r]) F R)"
| "along (ConsumeRefreshToken x t k) = (\<lambda>h F R. \<forall>r. F (h @ [EvConsumeRefreshToken x t r]) \<and> along (k r) (h @ [EvConsumeRefreshToken x t r]) F R)"
| "along (RevokeRefreshTokenFamily f k) = (\<lambda>h F R. \<forall>r. F (h @ [EvRevokeRefreshTokenFamily f r]) \<and> along (k r) (h @ [EvRevokeRefreshTokenFamily f r]) F R)"
| "along (PurgeExpired t k) = (\<lambda>h F R. \<forall>r. F (h @ [EvPurgeExpired t r]) \<and> along (k r) (h @ [EvPurgeExpired t r]) F R)"
| "along (FindUserIDByEmail e k) = (\<lambda>h F R. \<forall>r. F (h @ [EvFindUserIDByEmail e r]) \<and> along (k r) (h @ [EvFindUserIDByEmail e r]) F R)"

lemma along_mono:
  "along P h F R \<Longrightarrow> (\<And>h. F h \<Longrightarrow> F' h) \<Longrightarrow> (\<And>x h. R x h \<Longrightarrow> R' x h) \<Longrightarrow> along P h F' R'"
  by (induction P arbitrary: h) (simp_all, (blast+)?)

lemma exec1_along:
  "exec1 S A P (s, m) = Some (ev, P', s', m') \<Longrightarrow> along P h F R \<Longrightarrow> F (h @ [ev]) \<and> along P' (h @ [ev]) F R"
  by (cases P) (auto simp: Let_def rand_read_def split: prod.splits if_splits)

text \<open>Every thread of an execution follows its handler.\<close>

lemma run_along:
  assumes "sys_run S s0 tr s" and "\<And>i. i < length (sy_procs s0) \<Longrightarrow> along (sy_procs s0 ! i) [] F (R i)"
  shows "length (sy_procs s) = length (sy_procs s0) \<and>
    (\<forall>i < length (sy_procs s0). along (sy_procs s ! i) (thread i tr) F (R i))"
  using assms(1)
proof induction
  case run_empty
  then show ?case using assms(2) by simp
next
  case (run_step tr s l s')
  from run_step.hyps(2) show ?case
  proof (cases rule: sys_step.cases)
    case (sys_call i A ev P st m)
    then have "along (sy_procs s ! i) (thread i tr) F (R i)" using run_step.IH by simp
    from exec1_along [OF sys_call(4) this] show ?thesis
      using run_step.IH sys_call by (auto simp: nth_list_update)
  qed
qed

lemma run_event:
  assumes "sys_run S s0 (tr1 @ (i, ev) # tr2) s"
    and "\<And>i. i < length (sy_procs s0) \<Longrightarrow> along (sy_procs s0 ! i) [] F (R i)"
  shows "i < length (sy_procs s0) \<and> F (thread i tr1 @ [ev])"
proof -
  from assms(1) obtain s1 s2 where 1: "sys_run S s0 tr1 s1" and 2: "sys_step S s1 (i, ev) s2"
    by (rule sys_run_split)
  from run_along [OF 1 assms(2)] have a: "length (sy_procs s1) = length (sy_procs s0)"
    "\<forall>i < length (sy_procs s0). along (sy_procs s1 ! i) (thread i tr1) F (R i)" by auto
  from 2 show ?thesis
  proof (cases rule: sys_step.cases)
    case (sys_call A P st m)
    then show ?thesis using a exec1_along [OF sys_call(3)] by auto
  qed
qed

lemma run_finished:
  assumes "sys_run S s0 tr s"
    and "\<And>i. i < length (sy_procs s0) \<Longrightarrow> along (sy_procs s0 ! i) [] F (R i)"
    and "i < length (sy_procs s0)" and "sy_procs s ! i = Ret x"
  shows "R i x (thread i tr)"
  using run_along [OF assms(1,2)] assms(3,4) by force

end
