(* ===== verification/Traces.thy ===== *)
theory Traces
  imports Concurrency
begin

text \<open>
  Traces as sequential histories of the abstract store and the provider's memory. Every event
  has the effect the contract allows, so a fact about a row can be followed through a trace,
  whatever the threads were doing in between.
\<close>

section \<open>The effect of an event\<close>

fun effect :: "rounding \<Rightarrow> event \<Rightarrow> astore \<times> pmem \<Rightarrow> astore \<times> pmem \<Rightarrow> bool" where
  "effect n (EvNow t) (a, m) (a', m') \<longleftrightarrow> a' = a \<and> m' = m"
| "effect n (EvRand k r) (a, m) (a', m') \<longleftrightarrow> a' = a \<and> m' = m"
| "effect n (EvHttp q r) (a, m) (a', m') \<longleftrightarrow> a' = a \<and> m' = m"
| "effect n (EvLocked x y) (a, m) (a', m') \<longleftrightarrow> a' = a \<and> x = m \<and> m' = y"
| "effect n (EvSaveClient c r) (a, m) (a', m') \<longleftrightarrow> m' = m \<and>
     ((\<exists>c'. client_row n c c' \<and> a' = put_client c' a) \<or> (\<not> is_ok r \<and> a' = a))"
| "effect n (EvGetClient i r) (a, m) (a', m') \<longleftrightarrow> a' = a \<and> m' = m \<and> (\<forall>x. r = Inr x \<longrightarrow> x = a_clients a i)"
| "effect n (EvSaveAuthCode c r) (a, m) (a', m') \<longleftrightarrow> m' = m \<and>
     (a' = put_code (nrm_code n c) a \<or> (\<not> is_ok r \<and> a' = a))"
| "effect n (EvConsumeAuthCode h r) (a, m) (a', m') \<longleftrightarrow> m' = m \<and>
     (a' = del_code h a \<or> (\<not> is_ok r \<and> a' = a)) \<and> (\<forall>x. r = Inr x \<longrightarrow> x = a_codes a h)"
| "effect n (EvSavePendingAuth p r) (a, m) (a', m') \<longleftrightarrow> m' = m \<and>
     (a' = put_pending (nrm_pending n p) a \<or> (\<not> is_ok r \<and> a' = a))"
| "effect n (EvConsumePendingAuth h r) (a, m) (a', m') \<longleftrightarrow> m' = m \<and>
     (a' = del_pending h a \<or> (\<not> is_ok r \<and> a' = a)) \<and> (\<forall>x. r = Inr x \<longrightarrow> x = a_pending a h)"
| "effect n (EvSaveRefreshToken rt r) (a, m) (a', m') \<longleftrightarrow> m' = m \<and>
     ((\<exists>rt'. refresh_row n rt rt' \<and> a' = put_refresh rt' a) \<or> (\<not> is_ok r \<and> a' = a))"
| "effect n (EvGetRefreshToken h r) (a, m) (a', m') \<longleftrightarrow> a' = a \<and> m' = m \<and> (\<forall>x. r = Inr x \<longrightarrow> x = a_refresh a h)"
| "effect n (EvConsumeRefreshToken h t r) (a, m) (a', m') \<longleftrightarrow> m' = m \<and>
     (a' = stamp_refresh h (r_refresh n t) a \<or> (\<not> is_ok r \<and> a' = a)) \<and> (\<forall>x. r = Inr x \<longrightarrow> x = a_refresh a h)"
| "effect n (EvRevokeRefreshTokenFamily f r) (a, m) (a', m') \<longleftrightarrow> m' = m \<and>
     (a' = revoke_family f a \<or> (\<not> is_ok r \<and> a' = a))"
| "effect n (EvPurgeExpired t r) (a, m) (a', m') \<longleftrightarrow> m' = m \<and>
     (a' = purge (r_row n t) a \<or> (\<not> is_ok r \<and> purge_partly (r_row n t) a a'))"
| "effect n (EvFindUserIDByEmail e r) (a, m) (a', m') \<longleftrightarrow> a' = a \<and> m' = m \<and> (\<forall>x. r = Inr x \<longrightarrow> x = a_users a e)"

text \<open>What the contract needs of the arguments: instants a sane clock gave.\<close>

fun event_ok :: "event \<Rightarrow> bool" where
  "event_ok (EvNow t) = (clock_floor \<le> t)"
| "event_ok (EvConsumeRefreshToken h t r) = (clock_floor \<le> t)"
| "event_ok (EvPurgeExpired t r) = (clock_floor \<le> t)"
| "event_ok _ = True"

fun now_ok :: "event \<Rightarrow> bool" where
  "now_ok (EvNow t) = (clock_floor \<le> t)"
| "now_ok _ = True"

primrec ahist :: "rounding \<Rightarrow> (nat \<times> event) list \<Rightarrow> astore \<times> pmem \<Rightarrow> astore \<times> pmem \<Rightarrow> bool" where
  "ahist n [] = (\<lambda>x y. x = y)"
| "ahist n (l # tr) = (\<lambda>x y. \<exists>z. effect n (snd l) x z \<and> ahist n tr z y)"

lemma ahist_append: "ahist n (tr1 @ tr2) x y \<longleftrightarrow> (\<exists>z. ahist n tr1 x z \<and> ahist n tr2 z y)"
  by (induction tr1 arbitrary: x) auto

text \<open>A fact each event preserves survives a trace.\<close>

lemma ahist_preserves:
  assumes "ahist n tr x y" and "P x"
    and "\<And>i ev x y. (i, ev) \<in> set tr \<Longrightarrow> effect n ev x y \<Longrightarrow> P x \<Longrightarrow> P y"
  shows "P y"
  using assms
proof (induction tr arbitrary: x)
  case (Cons l tr)
  then obtain z where "effect n (snd l) x z" "ahist n tr z y" by auto
  moreover have "P z" using Cons.prems(2) Cons.prems(3) [of "fst l" "snd l" x z] calculation(1) by simp
  ultimately show ?case using Cons.prems(3) by (blast intro: Cons.IH list.set_intros)
qed simp

context store_contract
begin

definition view :: "'s sys \<Rightarrow> astore \<times> pmem" where
  "view s = (absf (sy_store s), sy_mem s)"

lemma step_effect:
  assumes "sys_step S s (i, ev) s'" and "inv (sy_store s)" and "event_ok ev"
  shows "inv (sy_store s') \<and> effect nrm ev (view s) (view s')"
  using assms(1)
proof (cases rule: sys_step.cases)
  case (sys_call A P st m)
  then show ?thesis
    using assms(2,3)
    by (cases "sy_procs s ! i")
       (auto simp: Let_def view_def split: prod.splits dest: save_client get_client save_code consume_code
         save_pending consume_pending save_refresh get_refresh consume_refresh revoke_family purge_expired find_user)
qed

lemma run_ahist:
  assumes "sys_run S s0 tr s" and "inv (sy_store s0)" and "\<And>i ev. (i, ev) \<in> set tr \<Longrightarrow> event_ok ev"
  shows "inv (sy_store s) \<and> ahist nrm tr (view s0) (view s)"
  using assms
proof (induction)
  case (run_step tr s l s')
  obtain i ev where l: "l = (i, ev)" by force
  with run_step have ok: "event_ok ev" and IH: "inv (sy_store s)" "ahist nrm tr (view s0) (view s)" by auto
  from step_effect [OF run_step.hyps(2) [unfolded l] IH(1) ok] show ?case
    using IH(2) unfolding l ahist_append ahist.simps snd_conv by blast
qed simp

end

section \<open>Following rows\<close>

lemma keep_rows_None [simp]: "m k = None \<Longrightarrow> keep_rows P m k = None"
  by (simp add: keep_rows_eq_None)

lemma effect_code_absent:
  assumes "effect n ev x y" and "\<And>c r. ev = EvSaveAuthCode c r \<Longrightarrow> ac_CodeHash c \<noteq> h"
    and "a_codes (fst x) h = None"
  shows "a_codes (fst y) h = None"
  using assms
  by (cases x; cases y; cases ev) (auto simp: astore_defs purge_partly_def nrm_defs dest: refresh_row_key)

definition spent :: "string \<Rightarrow> astore \<Rightarrow> bool" where
  "spent h a \<longleftrightarrow> (\<forall>rt. a_refresh a h = Some rt \<longrightarrow> \<not> IsZero (rt_ConsumedAt rt))"

lemma effect_spent:
  assumes "effect n ev x y" and "\<And>rt r. ev = EvSaveRefreshToken rt r \<Longrightarrow> rt_TokenHash rt \<noteq> h"
    and "spent h (fst x)"
  shows "spent h (fst y)"
  using assms
  by (cases x; cases y; cases ev)
     (auto simp: spent_def astore_defs purge_partly_def stamp_def dest: refresh_row_key split: option.splits if_splits)

lemma effect_refresh_absent:
  assumes "effect n ev x y" and "\<And>rt r. ev = EvSaveRefreshToken rt r \<Longrightarrow> rt_TokenHash rt \<noteq> h"
    and "a_refresh (fst x) h = None"
  shows "a_refresh (fst y) h = None"
  using assms
  by (cases x; cases y; cases ev) (auto simp: astore_defs purge_partly_def nrm_defs dest: refresh_row_key)

text \<open>A row keeps everything but its \<open>ConsumedAt\<close> until it is deleted or saved again.\<close>

lemma effect_refresh_family:
  assumes "effect n ev x y" and "\<And>rt r. ev = EvSaveRefreshToken rt r \<Longrightarrow> rt_TokenHash rt \<noteq> h"
    and "a_refresh (fst y) h = Some rt'"
  shows "\<exists>rt. a_refresh (fst x) h = Some rt \<and> rt_FamilyID rt' = rt_FamilyID rt"
  using assms
  by (cases x; cases y; cases ev)
     (auto simp: astore_defs purge_partly_def stamp_def dest: refresh_row_key split: option.splits if_splits)

end
