(* ===== verification/Token_Histories.thy ===== *)
theory Token_Histories
  imports Traces Token_Endpoint
begin

text \<open>
  What the calls of one token request look like, whatever they are answered: the local half of
  the properties of concurrent requests.
\<close>

lemma along_conj:
  "along P h F R \<Longrightarrow> along P h F' R' \<Longrightarrow> along P h (\<lambda>h. F h \<and> F' h) (\<lambda>x h. R x h \<and> R' x h)"
  by (induction P arbitrary: h) simp_all

definition well_timed :: "event list \<Rightarrow> bool" where
  "well_timed h \<longleftrightarrow> (\<forall>ev\<in>set h. now_ok ev) \<longrightarrow> event_ok (last h)"

definition consumed_fresh :: "string \<Rightarrow> event list \<Rightarrow> bool" where
  "consumed_fresh k h \<longleftrightarrow> (\<exists>t rt. EvConsumeRefreshToken k t (Inr (Some rt)) \<in> set h \<and> IsZero (rt_ConsumedAt rt))"

definition minted :: "string \<Rightarrow> event list \<Rightarrow> bool" where
  "minted s h \<longleftrightarrow> (\<exists>bs. EvRand 32 (Some bs) \<in> set h \<and> s = b64url_encode bs)"

definition one_successor :: "event list \<Rightarrow> bool" where
  "one_successor h \<longleftrightarrow> (\<forall>k s s'. consumed_fresh k h \<longrightarrow> minted s h \<longrightarrow> minted s' h \<longrightarrow> s = s')"

text \<open>A critical section keeps the grace cache well-formed and adds at most the thread's own successor.\<close>

definition grace_disciplined :: "event list \<Rightarrow> bool" where
  "grace_disciplined h \<longleftrightarrow> (\<forall>m m'. last h = EvLocked m m' \<longrightarrow> grace_ok (grace m) \<longrightarrow> grace_ok (grace m') \<and>
     (\<forall>k e. map_of (grace m') k = Some e \<longrightarrow> map_of (grace m) k = Some e \<or>
        (consumed_fresh k h \<and> minted (successorRaw e) h)))"

text \<open>Quantifiers over the answers of a call, computed.\<close>

lemmas answer_cases = all_res_split split_option_all split_paired_All

lemma along_issue_timed: "along (issueTokenPair L p w prev c u f start) h well_timed (\<lambda>_ _. True)"
  by (simp add: handler_defs answer_cases) (simp add: well_timed_def)

lemma along_code_timed: "along (authorizationCodeGrant L p w r) h well_timed (\<lambda>_ _. True)"
  by (simp add: authorizationCodeGrant_def randomToken_def Let_def answer_cases along_issue_timed) (simp add: well_timed_def)

lemma along_replay_timed: "along (replayedRefreshToken L p w rt k c now) h well_timed (\<lambda>_ _. True)"
  by (simp add: handler_defs Let_def answer_cases split: option.split) (simp add: well_timed_def)

lemma along_Token_timed: "along (Token L p r) [] well_timed (\<lambda>_ _. True)"
  apply (simp add: Token_def refreshTokenGrant_def rotate_first_use_def Let_def answer_cases along_code_timed along_issue_timed along_replay_timed split: prod.split sum.split)
  apply (simp add: well_timed_def)
  done

section \<open>The successor a thread mints and publishes\<close>

definition published :: "event list \<Rightarrow> bool" where
  "published h \<longleftrightarrow> grace_disciplined h \<and> one_successor h"

definition no_rotation :: "event list \<Rightarrow> bool" where
  "no_rotation h \<longleftrightarrow> (\<forall>k. \<not> consumed_fresh k h)"

lemma consumed_fresh_simps [simp]:
  "\<not> consumed_fresh k []"
  "consumed_fresh k (h @ h') \<longleftrightarrow> consumed_fresh k h \<or> consumed_fresh k h'"
  "consumed_fresh k (ev # h) \<longleftrightarrow>
     (\<exists>t rt. ev = EvConsumeRefreshToken k t (Inr (Some rt)) \<and> IsZero (rt_ConsumedAt rt)) \<or> consumed_fresh k h"
  by (auto simp: consumed_fresh_def)

lemma minted_simps [simp]:
  "\<not> minted s []" "minted s (h @ h') \<longleftrightarrow> minted s h \<or> minted s h'"
  "minted s (ev # h) \<longleftrightarrow> (\<exists>bs. ev = EvRand 32 (Some bs) \<and> s = b64url_encode bs) \<or> minted s h"
  by (auto simp: minted_def)

lemma published_no_rotation:
  "no_rotation h \<Longrightarrow> (\<And>m m'. last h \<noteq> EvLocked m m') \<Longrightarrow> published h"
  by (simp add: published_def grace_disciplined_def one_successor_def no_rotation_def)

text \<open>A pair is issued by a thread that consumed the predecessor and minted nothing yet.\<close>

definition ready :: "string \<Rightarrow> event list \<Rightarrow> bool" where
  "ready k h \<longleftrightarrow> (\<forall>s. \<not> minted s h) \<and> (k = [] \<and> no_rotation h \<or> consumed_fresh k h)"

definition paid_by :: "string \<Rightarrow> response \<Rightarrow> event list \<Rightarrow> bool" where
  "paid_by k resp h \<longleftrightarrow> (\<forall>tr. rs_status resp = 200 \<longrightarrow> rs_body resp = TokenBody tr \<longrightarrow>
     (consumed_fresh k h \<and> minted (tr_RefreshToken tr) h) \<or>
     (\<exists>m m' e. EvLocked m m' \<in> set h \<and> map_of (grace m) k = Some e \<and> tr_RefreshToken tr = successorRaw e))"

lemma along_issue_published:
  assumes "ready k h"
  shows "along (issueTokenPair L p w k c u f start) h published (\<lambda>resp h. k \<noteq> [] \<longrightarrow> paid_by k resp h)"
  using assms
  by (simp add: handler_defs answer_cases)
    (auto simp: published_def grace_disciplined_def one_successor_def ready_def no_rotation_def paid_by_def
      body_writeTokenPair grace_ok_remember dest: remember_adds)

text \<open>A replay consumes nothing new and hands out only what the cache held.\<close>

lemma published_minted_none:
  "(\<forall>s. \<not> minted s h) \<Longrightarrow> grace_disciplined h \<Longrightarrow> published h"
  by (simp add: published_def one_successor_def)

lemma along_replay_published:
  assumes "\<forall>s. \<not> minted s h" and "k \<noteq> []"
  shows "along (replayedRefreshToken L p w rt k c now) h published (paid_by k)"
  using assms
  by (simp add: handler_defs Let_def answer_cases split: option.split)
    (auto simp: published_def grace_disciplined_def one_successor_def paid_by_def
      body_writeTokenPair grace_ok_recall recall_Some dest: recall_adds)

lemma along_code_published:
  "along (authorizationCodeGrant L p w r) [] published (\<lambda>_ _. True)"
proof -
  have "along (issueTokenPair L p w [] c u f start) h published (\<lambda>_ _. True)"
    if "ready [] h" for c u f start h
    by (rule along_mono [OF along_issue_published [OF that]]) simp_all
  then show ?thesis
    by (simp add: authorizationCodeGrant_def randomToken_def Let_def answer_cases ready_def no_rotation_def
        published_no_rotation)
qed

definition rotates :: "request \<Rightarrow> string \<Rightarrow> bool" where
  "rotates r k \<longleftrightarrow> PostFormValue r ''grant_type'' = ''refresh_token'' \<and> k = HashSecret (PostFormValue r ''refresh_token'')"

lemma paid_by_error [simp]:
  "paid_by k (writeOAuthError w st e d) h" "paid_by k (finish w st NoBody) h"
  by (simp_all add: paid_by_def finish_def)

lemma published_quiet:
  "(\<forall>s. \<not> minted s h) \<Longrightarrow> (\<And>m m'. last h \<noteq> EvLocked m m') \<Longrightarrow> published h"
  by (simp add: published_def grace_disciplined_def one_successor_def)

lemma along_rotate_published:
  assumes "\<forall>s. \<not> minted s h" and "consumed_fresh k h" and "k \<noteq> []"
  shows "along (rotate_first_use L p w rt k c now) h published (paid_by k)"
proof -
  have "along (issueTokenPair L p w k c u f start) h published (paid_by k)" for c u f start
    by (rule along_mono [OF along_issue_published]) (use assms in \<open>auto simp: ready_def\<close>)
  then show ?thesis
    using assms(1) by (simp add: rotate_first_use_def Let_def answer_cases published_quiet)
qed

lemma along_refresh_published:
  "along (refreshTokenGrant L p w r) [] published (paid_by (HashSecret (PostFormValue r ''refresh_token'')))"
  by (simp add: refreshTokenGrant_def Let_def answer_cases published_quiet along_rotate_published
      along_replay_published)

lemma along_Token_published:
  "along (Token L p r) [] published (\<lambda>resp h. \<forall>k. rotates r k \<longrightarrow> paid_by k resp h)"
proof -
  have code: "along (authorizationCodeGrant L p w r) [] published (\<lambda>resp h. \<forall>k. rotates r k \<longrightarrow> paid_by k resp h)"
    if "PostFormValue r ''grant_type'' \<noteq> ''refresh_token''" for w
    by (rule along_mono [OF along_code_published]) (use that in \<open>simp_all add: rotates_def\<close>)
  have refresh: "along (refreshTokenGrant L p w r) [] published (\<lambda>resp h. \<forall>k. rotates r k \<longrightarrow> paid_by k resp h)" for w
    by (rule along_mono [OF along_refresh_published]) (simp_all add: rotates_def)
  show ?thesis
    by (simp add: Token_def Let_def code refresh allowCORS_def split: sum.split)
qed

section \<open>The calls of a rotation and of an exchange\<close>

definition issuing ::
  "provider \<Rightarrow> string \<Rightarrow> string \<Rightarrow> string \<Rightarrow> event list \<Rightarrow> event list \<Rightarrow> bool" where
  "issuing p k f s h h' \<longleftrightarrow> (\<exists>now bs c u start row m m'. s = b64url_encode bs \<and> h' = h @
     [EvNow now, EvRand 32 (Some bs), EvSaveRefreshToken (issued_row p s c u f start now) (Inr ()),
      EvGetRefreshToken k (Inr (Some row)), EvLocked m m'])"

definition rotation :: "provider \<Rightarrow> string \<Rightarrow> string \<Rightarrow> event list \<Rightarrow> bool" where
  "rotation p k s h \<longleftrightarrow> (\<exists>now x rt. IsZero (rt_ConsumedAt rt) \<and> issuing p k (familyToRevoke rt k) s
     [EvNow now, EvGetRefreshToken k (Inr x), EvConsumeRefreshToken k now (Inr (Some rt))] h)"

text \<open>A successful answer by the thread that consumed the token came from exactly these calls.\<close>

definition rotated_if_paid :: "provider \<Rightarrow> string \<Rightarrow> response \<Rightarrow> event list \<Rightarrow> bool" where
  "rotated_if_paid p k resp h \<longleftrightarrow> (\<forall>tr. rs_status resp = 200 \<longrightarrow> rs_body resp = TokenBody tr \<longrightarrow>
     consumed_fresh k h \<longrightarrow> rotation p k (tr_RefreshToken tr) h)"

lemma rotated_if_paid_error [simp]:
  "rotated_if_paid p k (writeOAuthError w st e d) h" "rotated_if_paid p k (finish w st NoBody) h"
  by (simp_all add: rotated_if_paid_def finish_def)

abbreviation any :: "event list \<Rightarrow> bool" where "any \<equiv> \<lambda>_. True"

lemma along_issue_calls:
  assumes "k \<noteq> []"
  shows "along (issueTokenPair L p w k c u f start) h any (\<lambda>resp h'. \<forall>tr. rs_status resp = 200 \<longrightarrow>
     rs_body resp = TokenBody tr \<longrightarrow> issuing p k f (tr_RefreshToken tr) h h')"
  using assms by (simp add: handler_defs answer_cases body_writeTokenPair) (auto simp: issuing_def; blast)

lemma along_rotate_calls:
  assumes "k \<noteq> []" and "IsZero (rt_ConsumedAt rt)"
  shows "along (rotate_first_use L p w rt k c now)
    [EvNow now, EvGetRefreshToken k (Inr x), EvConsumeRefreshToken k now (Inr (Some rt))] any (rotated_if_paid p k)"
proof -
  have fam: "(if rt_FamilyID rt = [] then legacyFamilyID k else rt_FamilyID rt) = familyToRevoke rt k"
    using assms(1) by (simp add: familyToRevoke_def)
  have "along (issueTokenPair L p w k c' u (familyToRevoke rt k) start)
      [EvNow now, EvGetRefreshToken k (Inr x), EvConsumeRefreshToken k now (Inr (Some rt))] any (rotated_if_paid p k)"
    for c' u start
    by (rule along_mono [OF along_issue_calls [OF assms(1)]])
       (use assms(2) in \<open>auto simp: rotated_if_paid_def rotation_def\<close>)
  then show ?thesis by (simp add: rotate_first_use_def Let_def answer_cases fam)
qed

lemma along_replay_calls:
  assumes "\<not> consumed_fresh k h"
  shows "along (replayedRefreshToken L p w rt k c now) h any (rotated_if_paid p k)"
  using assms
  by (simp add: handler_defs Let_def answer_cases rotated_if_paid_def split: option.split)

lemma along_refresh_calls:
  "along (refreshTokenGrant L p w r) [] any (rotated_if_paid p (HashSecret (PostFormValue r ''refresh_token'')))"
  by (simp add: refreshTokenGrant_def Let_def answer_cases along_rotate_calls along_replay_calls)

definition exchanges :: "request \<Rightarrow> string \<Rightarrow> bool" where
  "exchanges r k \<longleftrightarrow> PostFormValue r ''grant_type'' = ''authorization_code'' \<and> k = HashSecret (PostFormValue r ''code'')"

definition exchanged_if_paid :: "string \<Rightarrow> response \<Rightarrow> event list \<Rightarrow> bool" where
  "exchanged_if_paid k resp h \<longleftrightarrow> rs_status resp = 200 \<longrightarrow>
     (\<exists>ac. EvConsumeAuthCode k (Inr (Some ac)) \<in> set h)"

lemma exchanged_if_paid_error [simp]:
  "exchanged_if_paid k (writeOAuthError w 400 e d) h" "exchanged_if_paid k (writeOAuthError w 500 e d) h"
  "exchanged_if_paid k (writeOAuthError w 405 e d) h" "exchanged_if_paid k (finish w 204 NoBody) h"
  by (simp_all add: exchanged_if_paid_def finish_def)

lemma along_code_calls:
  "along (authorizationCodeGrant L p w r) [] any (exchanged_if_paid (HashSecret (PostFormValue r ''code'')))"
  by (simp add: handler_defs Let_def answer_cases) (auto simp: exchanged_if_paid_def)

lemma along_Token_calls:
  "along (Token L p r) [] any (\<lambda>resp h.
     (\<forall>k. rotates r k \<longrightarrow> rotated_if_paid p k resp h) \<and> (\<forall>k. exchanges r k \<longrightarrow> exchanged_if_paid k resp h))"
    (is "along _ _ _ ?R")
proof -
  have code: "along (authorizationCodeGrant L p w r) [] any ?R"
    if "PostFormValue r ''grant_type'' = ''authorization_code''" for w
    by (rule along_mono [OF along_code_calls]) (use that in \<open>simp_all add: rotates_def exchanges_def\<close>)
  have refresh: "along (refreshTokenGrant L p w r) [] any ?R"
    if "PostFormValue r ''grant_type'' = ''refresh_token''" for w
    by (rule along_mono [OF along_refresh_calls]) (use that in \<open>simp_all add: rotates_def exchanges_def\<close>)
  show ?thesis
    by (simp add: Token_def Let_def code refresh allowCORS_def split: sum.split)
qed

end
