(* ===== verification/Serving.thy ===== *)
theory Serving
  imports Token_Histories Routes
begin

text \<open>
  Any number of requests to any of the endpoints in flight together. Beside the token endpoint,
  whose histories \<open>Token_Histories\<close> describes, no endpoint touches a refresh token or the
  grace cache: its events are \<open>quiet\<close>.
\<close>

section \<open>Bystanders\<close>

fun quiet :: "event \<Rightarrow> bool" where
  "quiet (EvLocked m m') \<longleftrightarrow> grace m' = grace m"
| "quiet (EvSaveRefreshToken rt r) \<longleftrightarrow> False"
| "quiet (EvGetRefreshToken h r) \<longleftrightarrow> False"
| "quiet (EvConsumeRefreshToken h t r) \<longleftrightarrow> False"
| "quiet (EvRevokeRefreshTokenFamily f r) \<longleftrightarrow> False"
| "quiet (EvConsumeAuthCode h r) \<longleftrightarrow> False"
| "quiet ev \<longleftrightarrow> True"

definition bystander :: "event list \<Rightarrow> bool" where
  "bystander h \<longleftrightarrow> list_all quiet h \<and> well_timed h"

abbreviation quiet_end :: "response \<Rightarrow> event list \<Rightarrow> bool" where
  "quiet_end \<equiv> \<lambda>_. list_all quiet"

lemma along_jwks_fetch:
  assumes "\<And>r h'. list_all quiet h' \<Longrightarrow> along (k r) h' bystander R" and "list_all quiet h"
  shows "along (jwks_fetch p k) h bystander R"
  using assms by (simp add: jwks_fetch_def Let_def answer_cases bystander_def well_timed_def split: sum.split)

lemma along_jwks_key:
  assumes "\<And>r h'. list_all quiet h' \<Longrightarrow> along (k r) h' bystander R" and "list_all quiet h"
  shows "along (jwks_key p kid k) h bystander R"
proof -
  have "along (jwks_refresh p kid known expires k) h' bystander R" if "list_all quiet h'" for known expires h'
    unfolding jwks_refresh_def
    by (rule along_jwks_fetch [OF _ that]) (use assms(1) in \<open>auto simp: jwks_store_def bystander_def well_timed_def split: sum.split option.split\<close>)
  then show ?thesis
    using assms by (auto simp: jwks_key_def Let_def bystander_def well_timed_def split: option.split)
qed

lemma along_exchange:
  assumes "\<And>r h'. list_all quiet h' \<Longrightarrow> along (k r) h' bystander R" and "list_all quiet h"
  shows "along (exchangeGoogleCode L p code k) h bystander R"
proof -
  have "along (verifyGoogleIDToken L p idToken k) h' bystander R" if "list_all quiet h'" for idToken h'
    using that assms(1)
    by (auto simp: verifyGoogleIDToken_def bystander_def well_timed_def split: sum.split intro!: along_jwks_key)
  then show ?thesis
    using assms by (simp add: exchangeGoogleCode_def Let_def answer_cases bystander_def well_timed_def split: sum.split)
qed

lemma along_maybePurge:
  assumes "\<And>h'. list_all quiet h' \<Longrightarrow> along k h' bystander R" and "list_all quiet h"
  shows "along (maybePurge p k) h bystander R"
  using assms by (simp add: maybePurge_def Provider_PurgeExpired_def answer_cases bystander_def well_timed_def)

lemma along_authorizeConsent: "along (authorizeConsent L p w r) [] bystander quiet_end"
  by (auto simp: authorizeConsent_def start_consent_def randomToken_def Let_def answer_cases
      bystander_def well_timed_def split: sum.split option.split intro!: along_maybePurge)

lemma along_authorizeApprove: "along (authorizeApprove p w r) [] bystander quiet_end"
  by (simp add: authorizeApprove_def randomToken_def Let_def answer_cases bystander_def well_timed_def split: sum.split)

lemma along_finish_login:
  assumes "list_all quiet h"
  shows "along (finish_login L p w r pending) h bystander quiet_end"
  using assms
  by (auto simp: finish_login_def issue_code_def extendClient_def randomToken_def Let_def answer_cases
      bystander_def well_timed_def split: sum.split intro!: along_exchange)

lemma along_GoogleCallback: "along (GoogleCallback L p r) [] bystander quiet_end"
  by (simp add: GoogleCallback_def Let_def answer_cases bystander_def well_timed_def along_finish_login)

lemma along_Register: "along (Register L p r) [] bystander quiet_end"
  by (simp add: Register_def allowCORS_def randomToken_def Let_def answer_cases bystander_def well_timed_def split: sum.split)

lemma along_documents:
  "along (AuthorizationServerMetadata p r) [] bystander quiet_end"
  "along (ProtectedResourceMetadata p r) [] bystander quiet_end"
  by (simp_all add: AuthorizationServerMetadata_def ProtectedResourceMetadata_def read_document_def allowCORS_def Let_def)

lemma along_bystander: "e \<noteq> TokenEndpoint \<Longrightarrow> along (serve L p e r) [] bystander quiet_end"
  by (cases e) (simp_all add: serve_def Authorize_def along_authorizeConsent along_authorizeApprove
      along_GoogleCallback along_Register along_documents)

end
