(* ===== verification/Races.thy ===== *)
theory Races
  imports Serving
begin

text \<open>
  What holds however the requests in flight are interleaved: a code is exchanged once, a refresh
  token has one successor, a revocation is not undone. The histories of the single threads come
  from \<open>Serving\<close> and \<open>Token_Histories\<close>; here they are put together with what the
  contract says of each event.
\<close>

section \<open>Serving systems\<close>

definition serving :: "lib \<Rightarrow> provider \<Rightarrow> (endpoint \<times> request) list \<Rightarrow> 's sys \<Rightarrow> bool" where
  "serving L p jobs s \<longleftrightarrow> sy_procs s = map (\<lambda>(e, r). serve L p e r) jobs"

text \<open>The clocks of the trace are sane.\<close>

definition sane_trace :: "(nat \<times> event) list \<Rightarrow> bool" where
  "sane_trace tr \<longleftrightarrow> (\<forall>ev \<in> snd ` set tr. now_ok ev)"

text \<open>No random value was drawn twice: the row of a hash is saved at most by the thread named.\<close>

definition saves_code :: "(nat \<times> event) list \<Rightarrow> string \<Rightarrow> bool" where
  "saves_code tr h \<longleftrightarrow> (\<exists>i c r. (i, EvSaveAuthCode c r) \<in> set tr \<and> ac_CodeHash c = h)"

definition saves_refresh :: "(nat \<times> event) list \<Rightarrow> nat \<Rightarrow> string \<Rightarrow> bool" where
  "saves_refresh tr i h \<longleftrightarrow> (\<exists>rt r. (i, EvSaveRefreshToken rt r) \<in> set tr \<and> rt_TokenHash rt = h)"

definition sound :: "event list \<Rightarrow> bool" where
  "sound h \<longleftrightarrow> h \<noteq> [] \<longrightarrow> well_timed h \<and> published h"

definition answered :: "provider \<Rightarrow> endpoint \<times> request \<Rightarrow> response \<Rightarrow> event list \<Rightarrow> bool" where
  "answered p job resp h \<longleftrightarrow> fst job = TokenEndpoint \<longrightarrow>
     (\<forall>k. rotates (snd job) k \<longrightarrow> paid_by k resp h \<and> rotated_if_paid p k resp h) \<and>
     (\<forall>k. exchanges (snd job) k \<longrightarrow> exchanged_if_paid k resp h)"

lemma quiet_no_rotation: "list_all quiet h \<Longrightarrow> no_rotation h"
  by (force simp: list_all_iff no_rotation_def consumed_fresh_def)

lemma bystander_sound: "bystander h \<Longrightarrow> sound h"
proof -
  have "grace_disciplined h" if "list_all quiet h" "h \<noteq> []"
  proof -
    have "quiet (last h)" using that by (simp add: list_all_iff)
    then show ?thesis by (auto simp: grace_disciplined_def)
  qed
  moreover have "one_successor h" if "list_all quiet h"
    using quiet_no_rotation [OF that] by (simp add: one_successor_def no_rotation_def)
  ultimately show "bystander h \<Longrightarrow> sound h"
    by (simp add: bystander_def sound_def published_def)
qed

lemma along_serve: "along (serve L p e r) [] sound (answered p (e, r))"
proof (cases "e = TokenEndpoint")
  case True
  have "along (Token L p r) [] (\<lambda>h. (well_timed h \<and> published h) \<and> True)
      (\<lambda>resp h. (True \<and> (\<forall>k. rotates r k \<longrightarrow> paid_by k resp h)) \<and>
        ((\<forall>k. rotates r k \<longrightarrow> rotated_if_paid p k resp h) \<and> (\<forall>k. exchanges r k \<longrightarrow> exchanged_if_paid k resp h)))"
    by (intro along_conj along_Token_timed along_Token_published along_Token_calls)
  then show ?thesis
    unfolding True serve_def endpoint.case by (rule along_mono) (auto simp: sound_def answered_def)
next
  case False
  show ?thesis
    by (rule along_mono [OF along_bystander [OF False]]) (use False in \<open>simp_all add: bystander_sound answered_def\<close>)
qed

lemma serving_along:
  assumes "serving L p jobs s0" and "i < length (sy_procs s0)"
  shows "along (sy_procs s0 ! i) [] sound (answered p (jobs ! i))"
  using assms along_serve [of L p "fst (jobs ! i)" "snd (jobs ! i)"]
  by (simp add: serving_def split_beta)

section \<open>Traces of a serving system\<close>

lemma serving_event:
  assumes "serving L p jobs s0" and "sys_run S s0 (tr1 @ (i, ev) # tr2) s"
  shows "i < length jobs" and "well_timed (thread i tr1 @ [ev])" and "published (thread i tr1 @ [ev])"
proof -
  have "i < length (sy_procs s0) \<and> sound (thread i tr1 @ [ev])"
    by (rule run_event [OF assms(2) serving_along [OF assms(1)]])
  then show "i < length jobs" and "well_timed (thread i tr1 @ [ev])" and "published (thread i tr1 @ [ev])"
    using assms(1) by (simp_all add: sound_def serving_def)
qed

lemma serving_ok:
  assumes "serving L p jobs s0" and "sys_run S s0 tr s" and "sane_trace tr" and "(i, ev) \<in> set tr"
  shows "event_ok ev"
proof -
  from assms(4) obtain tr1 tr2 where tr: "tr = tr1 @ (i, ev) # tr2" by (meson split_list)
  from serving_event(2) [OF assms(1) assms(2) [unfolded tr]] show ?thesis
    using assms(3) by (force simp: well_timed_def tr sane_trace_def thread_def)
qed

lemma serving_thread:
  assumes "serving L p jobs s0" and "sys_run S s0 tr s" and "thread i tr \<noteq> []"
  shows "published (thread i tr)"
  using assms(2,3)
proof (induction tr arbitrary: s rule: rev_induct)
  case (snoc l tr)
  obtain j ev where l: "l = (j, ev)" by force
  from snoc.prems(1) obtain s1 where "sys_run S s0 tr s1" by (auto simp: sys_run_snoc)
  moreover have "published (thread j (tr @ [l]))"
    using serving_event(3) [OF assms(1), of S tr j ev "[]" s] snoc.prems(1) by (simp add: l)
  ultimately show ?case using snoc.IH snoc.prems(2) by (cases "i = j") (auto simp: l)
qed simp

lemma serving_finished:
  assumes "serving L p jobs s0" and "sys_run S s0 tr s" and "i < length jobs" and "sy_procs s ! i = Ret resp"
  shows "answered p (jobs ! i) resp (thread i tr)"
  by (rule run_finished [OF assms(2) serving_along [OF assms(1)] _ assms(4)])
     (use assms(1,3) in \<open>simp_all add: serving_def\<close>)

lemma two_events:
  assumes "x \<in> set xs" and "y \<in> set xs" and "x \<noteq> y"
  obtains A B C where "xs = A @ x # B @ y # C" | A B C where "xs = A @ y # B @ x # C"
proof -
  from assms(1) obtain A B where xs: "xs = A @ x # B" by (meson split_list)
  with assms(2,3) consider "y \<in> set A" | "y \<in> set B" by auto
  then show thesis
  proof cases
    case 1
    then obtain A1 A2 where "A = A1 @ y # A2" by (meson split_list)
    then show ?thesis using that(2) [of A1 A2 B] xs by simp
  next
    case 2
    then obtain B1 B2 where "B = B1 @ y # B2" by (meson split_list)
    then show ?thesis using that(1) [of A B1 B2] xs by simp
  qed
qed

context store_contract
begin

lemma serving_ahist:
  assumes "serving L p jobs s0" and "sys_run S s0 tr s" and "sane_trace tr" and "inv (sy_store s0)"
  shows "inv (sy_store s)" and "ahist nrm tr (view s0) (view s)"
  using run_ahist [OF assms(2,4)] serving_ok [OF assms(1-3)] by auto

text \<open>A code that was handed over cannot be handed over again.\<close>

lemma code_once:
  assumes "ahist nrm (A @ (i, EvConsumeAuthCode k (Inr (Some c))) # B @ (j, EvConsumeAuthCode k (Inr (Some c'))) # C) x y"
    and "\<not> saves_code B k"
  shows False
proof -
  from assms(1) obtain x1 x2 x3 x4 where "effect nrm (EvConsumeAuthCode k (Inr (Some c))) x1 x2"
    and B: "ahist nrm B x2 x3" and 2: "effect nrm (EvConsumeAuthCode k (Inr (Some c'))) x3 x4"
    by (auto simp: ahist_append)
  then have "a_codes (fst x2) k = None" by (cases x1; cases x2) (auto simp: del_code_def)
  with B have "a_codes (fst x3) k = None"
    by (rule ahist_preserves) (use assms(2) effect_code_absent in \<open>fastforce simp: saves_code_def\<close>)
  with 2 show False by (cases x3; cases x4) auto
qed

lemma fresh_once:
  assumes "ahist nrm (A @ (i, EvConsumeRefreshToken k t (Inr (Some rt))) # B @ (j, EvConsumeRefreshToken k t' (Inr (Some rt'))) # C) x y"
    and "clock_floor \<le> t" and "\<And>l. \<not> saves_refresh B l k" and "IsZero (rt_ConsumedAt rt')"
  shows False
proof -
  from assms(1) obtain x1 x2 x3 x4 where "effect nrm (EvConsumeRefreshToken k t (Inr (Some rt))) x1 x2"
    and B: "ahist nrm B x2 x3" and 2: "effect nrm (EvConsumeRefreshToken k t' (Inr (Some rt'))) x3 x4"
    by (auto simp: ahist_append)
  then have "a_refresh (fst x1) k = Some rt" and "fst x2 = stamp_refresh k (r_refresh nrm t) (fst x1)"
    by (cases x1; cases x2; auto)+
  then have "a_refresh (fst x2) k =
      Some (if IsZero (rt_ConsumedAt rt) then rt\<lparr>rt_ConsumedAt := r_refresh nrm t\<rparr> else rt)"
    by (simp add: stamp_refresh_lookup)
  then have "spent k (fst x2)" using nrm_pos [OF assms(2)] by (simp add: spent_def)
  with B have "spent k (fst x3)"
    by (rule ahist_preserves) (use assms(3) effect_spent in \<open>fastforce simp: saves_refresh_def\<close>)
  with 2 assms(4) show False by (cases x3; cases x4) (auto simp: spent_def)
qed

end

text \<open>A family revoked while a rotation is in flight: the predecessor's row is gone when it is read again.\<close>

definition in_family :: "string \<Rightarrow> string \<Rightarrow> astore \<Rightarrow> bool" where
  "in_family h f a \<longleftrightarrow> (\<forall>rt. a_refresh a h = Some rt \<longrightarrow> rt_FamilyID rt = f)"

lemma effect_in_family:
  assumes "effect n ev x y" and "\<And>rt r. ev = EvSaveRefreshToken rt r \<Longrightarrow> rt_TokenHash rt \<noteq> h"
    and "in_family h f (fst x)"
  shows "in_family h f (fst y)"
  unfolding in_family_def
proof (intro allI impI)
  fix rt assume "a_refresh (fst y) h = Some rt"
  then obtain rt0 where "a_refresh (fst x) h = Some rt0" and "rt_FamilyID rt = rt_FamilyID rt0"
    using effect_refresh_family [of n ev x y h rt] assms(1,2) by blast
  then show "rt_FamilyID rt = f" using assms(3) by (simp add: in_family_def)
qed

lemma ahist_in_family:
  assumes "ahist n B x y" and "\<And>l. \<not> saves_refresh B l h" and "in_family h f (fst x)"
  shows "in_family h f (fst y)"
  using assms(1,3)
  by (rule ahist_preserves) (use assms(2) effect_in_family in \<open>fastforce simp: saves_refresh_def\<close>)

lemma ahist_refresh_absent:
  assumes "ahist n B x y" and "\<And>l. \<not> saves_refresh B l h" and "a_refresh (fst x) h = None"
  shows "a_refresh (fst y) h = None"
  using assms(1,3)
  by (rule ahist_preserves) (use assms(2) effect_refresh_absent in \<open>fastforce simp: saves_refresh_def\<close>)

lemma revoked_then_absent:
  assumes "ahist n (B @ (j, EvRevokeRefreshTokenFamily f (Inr u)) # C) x y" and "f \<noteq> []"
    and "\<And>l. \<not> saves_refresh B l h" and "\<And>l. \<not> saves_refresh C l h" and "in_family h f (fst x)"
  shows "a_refresh (fst y) h = None"
proof -
  from assms(1) obtain x1 x2 where B: "ahist n B x x1" and ev: "effect n (EvRevokeRefreshTokenFamily f (Inr u)) x1 x2"
    and C: "ahist n C x2 y" by (auto simp: ahist_append)
  have "in_family h f (fst x1)" by (rule ahist_in_family [OF B assms(3,5)])
  with ev assms(2) have "a_refresh (fst x2) h = None"
    by (cases x1; cases x2; cases "a_refresh (fst x1) h") (auto simp: in_family_def revoke_family_def keep_rows_eq_None)
  then show ?thesis by (rule ahist_refresh_absent [OF C assms(4)])
qed

end
