(* ===== verification/Interleavings.thy ===== *)
theory Interleavings
  imports Races Samples
begin

text \<open>
  Lemmas over all interleavings of the requests in flight: a code is handed over once, one
  thread rotates a refresh token and every answer to its presenters carries what that thread
  minted, and a revoked family takes a rotation in flight with it. \<open>play\<close> runs a concrete
  schedule, for the witnesses.
\<close>

section \<open>Playing a schedule\<close>

text \<open>Each entry names the thread whose next call runs and what the environment answers it.\<close>

fun play :: "'s store_ops \<Rightarrow> (nat \<times> answer) list \<Rightarrow> 's sys \<Rightarrow> ((nat \<times> event) list \<times> 's sys) option" where
  "play S [] s = Some ([], s)"
| "play S ((i, A) # sched) s =
     (if i < length (sy_procs s) then
        (case exec1 S A (sy_procs s ! i) (sy_store s, sy_mem s) of
           None \<Rightarrow> None
         | Some (ev, P, st, m) \<Rightarrow>
             map_option (apfst ((#) (i, ev)))
               (play S sched \<lparr>sy_store = st, sy_mem = m, sy_procs = (sy_procs s)[i := P]\<rparr>))
      else None)"

lemma sys_run_Cons:
  assumes "sys_step S s l s1" and "sys_run S s1 tr s2"
  shows "sys_run S s (l # tr) s2"
proof -
  have "sys_run S s ([l] @ tr) s2"
    unfolding sys_run_append using assms sys_run.run_step [OF sys_run.run_empty assms(1)] by auto
  then show ?thesis by simp
qed

lemma play_run: "play S sched s = Some (tr, s') \<Longrightarrow> sys_run S s tr s'"
proof (induction sched arbitrary: s tr)
  case (Cons x sched)
  obtain i A where x: "x = (i, A)" by force
  from Cons.prems obtain ev P st m tr' where i: "i < length (sy_procs s)"
    and e: "exec1 S A (sy_procs s ! i) (sy_store s, sy_mem s) = Some (ev, P, st, m)"
    and r: "play S sched \<lparr>sy_store = st, sy_mem = m, sy_procs = (sy_procs s)[i := P]\<rparr> = Some (tr', s')"
    and tr: "tr = (i, ev) # tr'"
    by (auto simp: x split: if_splits option.splits prod.splits)
  show ?case unfolding tr
    by (rule sys_run_Cons [OF sys_call [OF i e] Cons.IH [OF r]])
qed simp

section \<open>The provider's memory in an execution\<close>

lemma step_memory:
  assumes "sys_step S s (i, ev) s'"
  shows "(\<exists>m m'. ev = EvLocked m m' \<and> m = sy_mem s \<and> m' = sy_mem s') \<or>
    (\<forall>m m'. ev \<noteq> EvLocked m m') \<and> sy_mem s' = sy_mem s"
  using assms
proof (cases rule: sys_step.cases)
  case (sys_call A P st m)
  then show ?thesis by (cases "sy_procs s ! i") (auto simp: Let_def split: prod.splits)
qed

text \<open>What the grace cache holds for a predecessor nobody held before came from a thread that consumed it.\<close>

definition cache_from :: "string \<Rightarrow> (nat \<times> event) list \<Rightarrow> pmem \<Rightarrow> bool" where
  "cache_from k tr m \<longleftrightarrow> (\<forall>e. map_of (grace m) k = Some e \<longrightarrow>
     (\<exists>l. consumed_fresh k (thread l tr) \<and> minted (successorRaw e) (thread l tr)))"

lemma serving_memory:
  assumes "serving L p jobs s0" and "sys_run S s0 tr s" and "grace_ok (grace (sy_mem s0))"
    and "map_of (grace (sy_mem s0)) k = None"
  shows "grace_ok (grace (sy_mem s)) \<and> cache_from k tr (sy_mem s)"
  using assms(2)
proof (induction)
  case run_empty
  then show ?case using assms(3,4) by (simp add: cache_from_def)
next
  case (run_step tr s l s')
  obtain i ev where l: "l = (i, ev)" by force
  have "sys_run S s0 (tr @ (i, ev) # []) s'"
    using sys_run.run_step [OF run_step.hyps] by (simp add: l)
  from serving_event(3) [OF assms(1) this] have d: "grace_disciplined (thread i tr @ [ev])"
    by (simp add: published_def)
  from step_memory [OF run_step.hyps(2) [unfolded l]] show ?case
  proof (elim disjE exE conjE)
    fix m m' assume "ev = EvLocked m m'" "m = sy_mem s" "m' = sy_mem s'"
    with d run_step.IH have ok: "grace_ok (grace (sy_mem s'))" and
      new: "\<And>e. map_of (grace (sy_mem s')) k = Some e \<Longrightarrow> map_of (grace (sy_mem s)) k = Some e \<or>
        (consumed_fresh k (thread i tr @ [ev]) \<and> minted (successorRaw e) (thread i tr @ [ev]))"
      by (auto simp: grace_disciplined_def)
    have "\<exists>l'. consumed_fresh k (thread l' (tr @ [l])) \<and> minted (successorRaw e) (thread l' (tr @ [l]))"
      if e: "map_of (grace (sy_mem s')) k = Some e" for e
      using new [OF e]
    proof
      assume "map_of (grace (sy_mem s)) k = Some e"
      with run_step.IH show ?thesis by (auto simp: cache_from_def)
    next
      assume "consumed_fresh k (thread i tr @ [ev]) \<and> minted (successorRaw e) (thread i tr @ [ev])"
      then show ?thesis by (intro exI [of _ i]) (simp add: l)
    qed
    with ok show ?thesis by (simp add: cache_from_def)
  next
    assume "sy_mem s' = sy_mem s"
    with run_step.IH show ?thesis by (auto simp: cache_from_def)
  qed
qed


lemma thread_prefix: "consumed_fresh k (thread l tr1) \<Longrightarrow> consumed_fresh k (thread l (tr1 @ tr2))"
  "minted x (thread l tr1) \<Longrightarrow> minted x (thread l (tr1 @ tr2))"
  by simp_all

text \<open>So a refresh token handed out for \<open>k\<close> was minted by a thread that consumed \<open>k\<close> first.\<close>

lemma successor_source:
  assumes "serving L p jobs s0" and "sys_run S s0 tr s" and "grace_ok (grace (sy_mem s0))"
    and "map_of (grace (sy_mem s0)) k = None" and "paid_by k resp (thread i tr)"
    and "rs_status resp = 200" and "rs_body resp = TokenBody body"
  shows "\<exists>l. consumed_fresh k (thread l tr) \<and> minted (tr_RefreshToken body) (thread l tr)"
proof -
  from assms(5-7) consider "consumed_fresh k (thread i tr)" "minted (tr_RefreshToken body) (thread i tr)"
    | m m' e where "EvLocked m m' \<in> set (thread i tr)" "map_of (grace m) k = Some e"
        "tr_RefreshToken body = successorRaw e"
    by (auto simp: paid_by_def)
  then show ?thesis
  proof cases
    case (2 m m' e)
    from 2(1) obtain tr1 tr2 where tr: "tr = tr1 @ (i, EvLocked m m') # tr2"
      unfolding thread_event by (meson split_list)
    from assms(2) obtain s1 s2 where 1: "sys_run S s0 tr1 s1" and st: "sys_step S s1 (i, EvLocked m m') s2"
      unfolding tr by (rule sys_run_split)
    from step_memory [OF st] have "m = sy_mem s1" by auto
    with serving_memory [OF assms(1) 1 assms(3,4)] 2(2,3)
    obtain l where "consumed_fresh k (thread l tr1) \<and> minted (tr_RefreshToken body) (thread l tr1)"
      by (auto simp: cache_from_def)
    then show ?thesis unfolding tr by (blast intro: thread_prefix)
  qed blast
qed

section \<open>Codes and successors over all interleavings\<close>

context store_contract
begin

lemma one_exchange:
  assumes "serving L p jobs s0" and "sys_run S s0 tr s" and "sane_trace tr" and "inv (sy_store s0)"
    and "\<not> saves_code tr k" and "i \<noteq> j"
    and "(i, EvConsumeAuthCode k (Inr (Some c))) \<in> set tr" and "(j, EvConsumeAuthCode k (Inr (Some c'))) \<in> set tr"
  shows False
proof -
  note h = serving_ahist(2) [OF assms(1-4)]
  have no: "\<not> saves_code B k" if "tr = A @ x # B @ y # C" for A B C x y
    using assms(5) that by (auto simp: saves_code_def)
  from assms(7,8) show ?thesis
  proof (rule two_events)
    show "(i, EvConsumeAuthCode k (Inr (Some c))) \<noteq> (j, EvConsumeAuthCode k (Inr (Some c')))"
      using assms(6) by simp
  next
    fix A B C assume tr: "tr = A @ (i, EvConsumeAuthCode k (Inr (Some c))) # B @
      (j, EvConsumeAuthCode k (Inr (Some c'))) # C"
    show False by (rule code_once [OF h [unfolded tr] no [OF tr]])
  next
    fix A B C assume tr: "tr = A @ (j, EvConsumeAuthCode k (Inr (Some c'))) # B @
      (i, EvConsumeAuthCode k (Inr (Some c))) # C"
    show False by (rule code_once [OF h [unfolded tr] no [OF tr]])
  qed
qed

lemma one_rotation:
  assumes "serving L p jobs s0" and "sys_run S s0 tr s" and "sane_trace tr" and "inv (sy_store s0)"
    and "\<And>l. \<not> saves_refresh tr l k" and "consumed_fresh k (thread i tr)" and "consumed_fresh k (thread j tr)"
  shows "i = j"
proof (rule ccontr)
  assume "i \<noteq> j"
  from assms(6) obtain t rt where i: "(i, EvConsumeRefreshToken k t (Inr (Some rt))) \<in> set tr" "IsZero (rt_ConsumedAt rt)"
    by (auto simp: consumed_fresh_def thread_event)
  from assms(7) obtain t' rt' where j: "(j, EvConsumeRefreshToken k t' (Inr (Some rt'))) \<in> set tr" "IsZero (rt_ConsumedAt rt')"
    by (auto simp: consumed_fresh_def thread_event)
  have ok: "clock_floor \<le> t" "clock_floor \<le> t'"
    using serving_ok [OF assms(1-3) i(1)] serving_ok [OF assms(1-3) j(1)] by simp_all
  note h = serving_ahist(2) [OF assms(1-4)]
  have no: "\<not> saves_refresh B l k" if "tr = A @ x # B @ y # C" for A B C x y l
    using assms(5) [of l] that by (auto simp: saves_refresh_def)
  from i(1) j(1) show False
  proof (rule two_events)
    show "(i, EvConsumeRefreshToken k t (Inr (Some rt))) \<noteq> (j, EvConsumeRefreshToken k t' (Inr (Some rt')))"
      using \<open>i \<noteq> j\<close> by simp
  next
    fix A B C assume tr: "tr = A @ (i, EvConsumeRefreshToken k t (Inr (Some rt))) # B @
      (j, EvConsumeRefreshToken k t' (Inr (Some rt'))) # C"
    show False by (rule fresh_once [OF h [unfolded tr] ok(1) no [OF tr] j(2)])
  next
    fix A B C assume tr: "tr = A @ (j, EvConsumeRefreshToken k t' (Inr (Some rt'))) # B @
      (i, EvConsumeRefreshToken k t (Inr (Some rt))) # C"
    show False by (rule fresh_once [OF h [unfolded tr] ok(2) no [OF tr] i(2)])
  qed
qed

lemma one_successor_minted:
  assumes "serving L p jobs s0" and "sys_run S s0 tr s" and "sane_trace tr" and "inv (sy_store s0)"
    and "\<And>l. \<not> saves_refresh tr l k"
    and "consumed_fresh k (thread i tr) \<and> minted x (thread i tr)"
    and "consumed_fresh k (thread j tr) \<and> minted y (thread j tr)"
  shows "x = y"
proof -
  have ij: "i = j" using one_rotation [OF assms(1-5)] assms(6,7) by blast
  have "thread i tr \<noteq> []" using assms(6) by auto
  then have "published (thread i tr)" by (rule serving_thread [OF assms(1,2)])
  then show ?thesis using assms(6,7) ij by (auto simp: published_def one_successor_def)
qed

text \<open>
  A family revoked while one of its rotations is in flight: either the successor was already
  stored and goes with the family, or the rotation finds its predecessor gone.
\<close>

lemma ahist_upto:
  assumes "serving L p jobs s0" and "sys_run S s0 (A @ (i, ev) # B) s" and "sane_trace (A @ (i, ev) # B)"
    and "inv (sy_store s0)"
  obtains x y where "effect nrm ev x y" and "ahist nrm B y (view s)"
  using serving_ahist(2) [OF assms] by (auto simp: ahist_append)

lemma revoked_after_save:
  assumes "serving L p jobs s0" and "inv (sy_store s0)" and "f \<noteq> []" and "rt_FamilyID row = f"
    and tr: "tr = A @ (i, EvSaveRefreshToken row (Inr u)) # B @ (j, EvRevokeRefreshTokenFamily f (Inr v)) # C"
    and "sys_run S s0 tr s" and "sane_trace tr"
    and "\<And>l. \<not> saves_refresh B l (rt_TokenHash row)" and "\<And>l. \<not> saves_refresh C l (rt_TokenHash row)"
  shows "a_refresh (fst (view s)) (rt_TokenHash row) = None"
proof -
  obtain x y where e: "effect nrm (EvSaveRefreshToken row (Inr u)) x y"
    and h: "ahist nrm (B @ (j, EvRevokeRefreshTokenFamily f (Inr v)) # C) y (view s)"
    using ahist_upto [OF assms(1) assms(6,7) [unfolded tr] assms(2)] by blast
  from e have "in_family (rt_TokenHash row) f (fst y)"
    using assms(4) by (cases x; cases y) (auto simp: in_family_def put_refresh_lookup dest: refresh_row_key)
  from revoked_then_absent [OF h assms(3) assms(8,9) this] show ?thesis .
qed

lemma revoked_before_reread:
  assumes "serving L p jobs s0" and "inv (sy_store s0)" and "rt_FamilyID rt \<noteq> []"
    and tr: "tr = A @ (i, EvConsumeRefreshToken k t (Inr (Some rt))) # B @
      (j, EvRevokeRefreshTokenFamily (rt_FamilyID rt) (Inr v)) # C @ (i', EvGetRefreshToken k (Inr (Some row))) # D"
    and "sys_run S s0 tr s" and "sane_trace tr" and "\<And>l. \<not> saves_refresh tr l k"
  shows False
proof -
  obtain x y where e: "effect nrm (EvConsumeRefreshToken k t (Inr (Some rt))) x y"
    and h: "ahist nrm ((B @ (j, EvRevokeRefreshTokenFamily (rt_FamilyID rt) (Inr v)) # C) @
      (i', EvGetRefreshToken k (Inr (Some row))) # D) y (view s)"
    using ahist_upto [OF assms(1) assms(5,6) [unfolded tr] assms(2)] unfolding append_assoc append_Cons by blast
  from h obtain z where 1: "ahist nrm (B @ (j, EvRevokeRefreshTokenFamily (rt_FamilyID rt) (Inr v)) # C) y z"
    and 2: "ahist nrm ((i', EvGetRefreshToken k (Inr (Some row))) # D) z (view s)"
    unfolding ahist_append by blast
  have "\<not> saves_refresh B l k" "\<not> saves_refresh C l k" for l
    using assms(7) [of l] by (auto simp: saves_refresh_def tr)
  moreover from e have "in_family k (rt_FamilyID rt) (fst y)"
    by (cases x; cases y) (auto simp: in_family_def stamp_refresh_lookup split: if_splits)
  ultimately have "a_refresh (fst z) k = None" by (intro revoked_then_absent [OF 1 assms(3)])
  with 2 show False by (cases z) auto
qed

end

fun is_save :: "event \<Rightarrow> bool" where
  "is_save (EvSaveRefreshToken rt r) = True"
| "is_save _ = False"

lemma one_save:
  assumes "filter is_save (thread i tr) = [ev]" and "tr = A @ (i, ev) # B" and "is_save ev"
  shows "\<not> saves_refresh B i h"
proof -
  have "filter is_save (thread i B) = []" using assms by (simp add: append_eq_Cons_conv)
  then show ?thesis by (auto simp: saves_refresh_def filter_empty_conv thread_event [symmetric])
qed

context store_contract
begin

lemma revoked_rotation_dead:
  assumes "serving L p jobs s0" and "inv (sy_store s0)"
    and tr: "tr = tr1 @ (i, EvConsumeRefreshToken k t (Inr (Some rt))) # tr2 @
      (j, EvRevokeRefreshTokenFamily (rt_FamilyID rt) (Inr u)) # tr3"
    and "sys_run S s0 tr s" and "sane_trace tr" and "rt_FamilyID rt \<noteq> []" and "rotation p k x (thread i tr)"
    and "\<And>l. \<not> saves_refresh tr l k" and "\<And>l. l \<noteq> i \<Longrightarrow> \<not> saves_refresh tr l (HashSecret x)"
  shows "a_refresh (absf (sy_store s)) (HashSecret x) = None"
proof -
  from assms(7) obtain now y rt0 now' bs c us st row m m' where h: "thread i tr =
     [EvNow now, EvGetRefreshToken k (Inr y), EvConsumeRefreshToken k now (Inr (Some rt0)), EvNow now',
      EvRand 32 (Some bs), EvSaveRefreshToken (issued_row p x c us (familyToRevoke rt0 k) st now') (Inr ()),
      EvGetRefreshToken k (Inr (Some row)), EvLocked m m']"
    by (auto simp: rotation_def issuing_def)
  let ?row = "issued_row p x c us (familyToRevoke rt0 k) st now'"
  let ?save = "EvSaveRefreshToken ?row (Inr ())"
  have "EvConsumeRefreshToken k t (Inr (Some rt)) \<in> set (thread i tr)" by (simp add: tr)
  then have rt0: "rt0 = rt" by (simp add: h)
  have save: "filter is_save (thread i tr) = [?save]" by (simp add: h)
  have pos: "(i, ?save) \<in> set tr2 \<or> (i, EvGetRefreshToken k (Inr (Some row))) \<in> set tr3"
    using h by (auto simp: tr thread_event [symmetric] append_eq_Cons_conv Cons_eq_append_conv split: if_splits)
  from pos show ?thesis
  proof
    assume "(i, ?save) \<in> set tr2"
    then obtain A B where tr2: "tr2 = A @ (i, ?save) # B" by (meson split_list)
    have "\<not> saves_refresh (B @ (j, EvRevokeRefreshTokenFamily (rt_FamilyID rt) (Inr u)) # tr3) l (HashSecret x)" for l
    proof (cases "l = i")
      case True
      show ?thesis unfolding True
        by (rule one_save [OF save, where A = "tr1 @ (i, EvConsumeRefreshToken k t (Inr (Some rt))) # A"])
           (simp_all add: tr tr2)
    next
      case False
      from assms(9) [OF this] show ?thesis by (auto simp: saves_refresh_def tr tr2)
    qed
    then have no: "\<not> saves_refresh B l (rt_TokenHash ?row)" "\<not> saves_refresh tr3 l (rt_TokenHash ?row)" for l
      by (auto simp: saves_refresh_def)
    have "tr = (tr1 @ (i, EvConsumeRefreshToken k t (Inr (Some rt))) # A) @ (i, ?save) # B @
        (j, EvRevokeRefreshTokenFamily (rt_FamilyID rt) (Inr u)) # tr3"
      by (simp add: tr tr2)
    from revoked_after_save [OF assms(1,2,6) _ this assms(4,5) no] show ?thesis
      by (simp add: view_def rt0 familyToRevoke_def assms(6))
  next
    assume "(i, EvGetRefreshToken k (Inr (Some row))) \<in> set tr3"
    then obtain A B where "tr3 = A @ (i, EvGetRefreshToken k (Inr (Some row))) # B" by (meson split_list)
    from revoked_before_reread [OF assms(1,2,6) tr [unfolded this] assms(4,5,8)] show ?thesis ..
  qed
qed

end

end
