(* ===== verification/Race_Properties.thy ===== *)
theory Race_Properties
  imports Interleavings Token_Properties
begin

text \<open>
  Properties of requests in flight together, for every interleaving of their calls and every
  answer of the clock, the random source and the network. The witnesses are schedules of two
  requests on the sample deployment.
\<close>

section \<open>Two requests on the sample deployment\<close>

definition pair_sys :: "request \<Rightarrow> time \<Rightarrow> memory_store sys" where
  "pair_sys r consumed = \<lparr>sy_store = sample_store consumed, sy_mem = new_pmem,
     sy_procs = [Token sample_lib sample_provider r, Token sample_lib sample_provider r]\<rparr>"

abbreviation pair_jobs :: "request \<Rightarrow> (endpoint \<times> request) list" where
  "pair_jobs r \<equiv> [(TokenEndpoint, r), (TokenEndpoint, r)]"

definition usual :: answer where
  "usual = \<lparr>an_now = sample_now, an_rand = replicate 32 1, an_http = Inl ''no network''\<rparr>"

lemma usual_simps [simp]: "an_now usual = sample_now" "an_rand usual = replicate 32 1"
  by (simp_all add: usual_def)

lemma pair_serving: "serving sample_lib sample_provider (pair_jobs r) (pair_sys r t)"
  by (simp add: serving_def pair_sys_def serve_def)

lemma pair_sys_simps [simp]: "sy_store (pair_sys r t) = sample_store t" "sy_mem (pair_sys r t) = new_pmem"
  "sy_procs (pair_sys r t) = [Token sample_lib sample_provider r, Token sample_lib sample_provider r]"
  by (simp_all add: pair_sys_def)

abbreviation turns :: "nat list \<Rightarrow> (nat \<times> answer) list" where
  "turns \<equiv> map (\<lambda>i. (i, usual))"

lemma sample_pkce: "verifyPKCE ''verifier'' (b64url_encode (sha256 (bytes ''verifier'')))"
  using sample_code_matches by (simp add: code_matches_def)

lemmas play_defs = issueTokenPair_def randomToken_def rememberSuccessor_def recallSuccessor_def Let_def mem_ops_def
  store_defs sample_store_def NewMemoryStore_def rand_read_def sane_trace_def saves_code_def saves_refresh_def

text \<open>The first request is served completely, then the second.\<close>

lemma exchange_race:
  "\<exists>tr s r0 r1. sys_run sample_ops (pair_sys sample_code_request 0) tr s \<and> sane_trace tr \<and>
     \<not> saves_code tr (HashSecret ''code'') \<and> sy_procs s ! 0 = Ret r0 \<and> rs_status r0 = 200 \<and> sy_procs s ! 1 = Ret r1"
proof -
  have "\<exists>tr s. play sample_ops (turns [0, 0, 0, 0, 0, 0, 0, 1]) (pair_sys sample_code_request 0) = Some (tr, s) \<and> sane_trace tr \<and>
     \<not> saves_code tr (HashSecret ''code'') \<and> (\<exists>r0 r1. sy_procs s ! 0 = Ret r0 \<and> rs_status r0 = 200 \<and> sy_procs s ! 1 = Ret r1)"
    by (simp add: Token_code [OF sample_code_complete(2)] authorizationCodeGrant_def sample_pkce play_defs)
  then show ?thesis using play_run by blast
qed

text \<open>The second request has looked its token up when the first rotates it; then it goes on.\<close>

lemma sample_refresh_form [simp]: "PostFormValue sample_refresh_request ''refresh_token'' = ''old''"
  by (simp add: sample_refresh_request_def values_get_def)

lemma rotation_race:
  "\<exists>tr s r0 r1 b0 b1. sys_run sample_ops (pair_sys sample_refresh_request 0) tr s \<and> sane_trace tr \<and>
     (\<forall>l. \<not> saves_refresh tr l (HashSecret ''old'')) \<and>
     sy_procs s ! 0 = Ret r0 \<and> rs_status r0 = 200 \<and> rs_body r0 = TokenBody b0 \<and>
     sy_procs s ! 1 = Ret r1 \<and> rs_status r1 = 200 \<and> rs_body r1 = TokenBody b1"
proof -
  have "\<exists>tr s. play sample_ops (turns [1, 1, 0, 0, 0, 0, 0, 0, 0, 0, 1, 1, 1]) (pair_sys sample_refresh_request 0) = Some (tr, s) \<and>
     sane_trace tr \<and> (\<forall>l. \<not> saves_refresh tr l (HashSecret ''old'')) \<and>
     (\<exists>r0 r1 b0 b1. sy_procs s ! 0 = Ret r0 \<and> rs_status r0 = 200 \<and> rs_body r0 = TokenBody b0 \<and>
     sy_procs s ! 1 = Ret r1 \<and> rs_status r1 = 200 \<and> rs_body r1 = TokenBody b1)"
    by (simp add: Token_refresh [OF sample_complete(2)] refreshTokenGrant_def rotate_first_use_def
        replayedRefreshToken_def graceApplies_def recall_after_remember writeTokenPair_def play_defs)
  then show ?thesis using play_run by blast
qed

text \<open>The first request rotates; the second comes a minute later and revokes the family.\<close>

abbreviation late :: answer where "late \<equiv> usual\<lparr>an_now := sample_now + minute\<rparr>"

lemma sample_late: "clock_floor \<le> sample_now + minute"
  by (simp add: sample_now_def)

lemma revocation_race:
  "\<exists>tr s r0 b0. sys_run sample_ops (pair_sys sample_refresh_request 0) tr s \<and> sane_trace tr \<and>
     (\<forall>l. \<not> saves_refresh tr l (HashSecret ''old'')) \<and>
     (\<forall>l. l \<noteq> 0 \<longrightarrow> \<not> saves_refresh tr l (HashSecret (tr_RefreshToken b0))) \<and> length tr = 12 \<and>
     tr ! 2 = (0, EvConsumeRefreshToken (HashSecret ''old'') sample_now (Inr (Some (sample_row 0)))) \<and>
     tr ! 11 = (1, EvRevokeRefreshTokenFamily ''family'' (Inr ())) \<and>
     sy_procs s ! 0 = Ret r0 \<and> rs_status r0 = 200 \<and> rs_body r0 = TokenBody b0"
proof -
  have "\<exists>tr s. play sample_ops (turns [0, 0, 0, 0, 0, 0, 0, 0] @ map (\<lambda>i. (i, late)) [1, 1, 1, 1])
       (pair_sys sample_refresh_request 0) = Some (tr, s) \<and> sane_trace tr \<and>
     (\<forall>l. \<not> saves_refresh tr l (HashSecret ''old'')) \<and>
     (\<exists>r0 b0. (\<forall>l. l \<noteq> 0 \<longrightarrow> \<not> saves_refresh tr l (HashSecret (tr_RefreshToken b0))) \<and> length tr = 12 \<and>
     tr ! 2 = (0, EvConsumeRefreshToken (HashSecret ''old'') sample_now (Inr (Some (sample_row 0)))) \<and>
     tr ! 11 = (1, EvRevokeRefreshTokenFamily ''family'' (Inr ())) \<and>
     sy_procs s ! 0 = Ret r0 \<and> rs_status r0 = 200 \<and> rs_body r0 = TokenBody b0)"
    by (simp add: Token_refresh [OF sample_complete(2)] refreshTokenGrant_def rotate_first_use_def
        replayedRefreshToken_def graceApplies_def recall_after_remember writeTokenPair_def familyToRevoke_def sample_late play_defs)
  then show ?thesis using play_run by blast
qed

lemma sample_rotates_old: "rotates sample_refresh_request (HashSecret ''old'')"
  using sample_complete(2) by (simp add: rotates_def well_formed_post_def)

lemma two_positions:
  assumes "a < b" and "b < length xs"
  shows "xs = take a xs @ xs ! a # take (b - Suc a) (drop (Suc a) xs) @ xs ! b # drop (Suc b) xs"
proof -
  have "drop (Suc a) xs = take (b - Suc a) (drop (Suc a) xs) @ xs ! b # drop (Suc b) xs"
    using assms id_take_nth_drop [of "b - Suc a" "drop (Suc a) xs"] by simp
  then show ?thesis using id_take_nth_drop [of a xs] assms by simp
qed

section \<open>Properties\<close>

text \<open>
  C7. However the requests in flight are interleaved, and whatever the store's calls answer, an
  authorization code is exchanged by at most one of them: of two token requests that present
  the same code, at most one is answered 200.
\<close>

theorem code_exchanged_once:
  assumes "store_contract S absf I nrm" and "I (sy_store s0)" and "serving L p jobs s0"
    and "sys_run S s0 tr s" and "sane_trace tr" and "\<not> saves_code tr k"
    and "i < length jobs" and "j < length jobs" and "i \<noteq> j"
    and "jobs ! i = (TokenEndpoint, r)" and "exchanges r k" and "sy_procs s ! i = Ret resp" and "rs_status resp = 200"
    and "jobs ! j = (TokenEndpoint, r')" and "exchanges r' k" and "sy_procs s ! j = Ret resp'"
  shows "rs_status resp' \<noteq> 200"
proof
  assume "rs_status resp' = 200"
  with serving_finished [OF assms(3,4,8,16)] assms(14,15)
  obtain c' where "(j, EvConsumeAuthCode k (Inr (Some c'))) \<in> set tr"
    by (auto simp: answered_def exchanged_if_paid_def thread_event)
  moreover from serving_finished [OF assms(3,4,7,12)] assms(10,11,13)
  obtain c where "(i, EvConsumeAuthCode k (Inr (Some c))) \<in> set tr"
    by (auto simp: answered_def exchanged_if_paid_def thread_event)
  ultimately show False
    using store_contract.one_exchange [OF assms(1) assms(3-5,2,6,9)] by blast
qed

theorem code_exchanged_once_witness:
  "\<exists>tr s r0 r1. sys_run sample_ops (pair_sys sample_code_request 0) tr s \<and>
     sy_procs s ! 0 = Ret r0 \<and> rs_status r0 = 200 \<and> sy_procs s ! 1 = Ret r1 \<and> rs_status r1 \<noteq> 200"
proof -
  obtain tr s r0 r1 where run: "sys_run sample_ops (pair_sys sample_code_request 0) tr s" "sane_trace tr"
    "\<not> saves_code tr (HashSecret ''code'')" and 0: "sy_procs s ! 0 = Ret r0" "rs_status r0 = 200" and 1: "sy_procs s ! 1 = Ret r1"
    using exchange_race by blast
  have "exchanges sample_code_request (HashSecret ''code'')"
    using sample_code_complete(2) by (simp add: exchanges_def well_formed_post_def)
  then have "rs_status r1 \<noteq> 200"
    using code_exchanged_once [OF sample_contract _ pair_serving run, of 0 1] 0 1 by simp
  then show ?thesis using run(1) 0 1 by blast
qed

text \<open>
  C6. All holders of one refresh token get the same successor: however the requests in flight
  are interleaved, any two requests that present the same refresh token and are answered 200
  carry the same new refresh token, so a token never forks into two chains.
\<close>

theorem one_successor_for_all:
  assumes "store_contract S absf I nrm" and "I (sy_store s0)" and "serving L p jobs s0"
    and "sys_run S s0 tr s" and "sane_trace tr" and "grace_ok (grace (sy_mem s0))"
    and "map_of (grace (sy_mem s0)) k = None" and "\<And>l. \<not> saves_refresh tr l k"
    and "i < length jobs" and "jobs ! i = (TokenEndpoint, r)" and "rotates r k"
    and "sy_procs s ! i = Ret resp" and "rs_status resp = 200" and "rs_body resp = TokenBody body"
    and "j < length jobs" and "jobs ! j = (TokenEndpoint, r')" and "rotates r' k"
    and "sy_procs s ! j = Ret resp'" and "rs_status resp' = 200" and "rs_body resp' = TokenBody body'"
  shows "tr_RefreshToken body = tr_RefreshToken body'"
proof -
  have "paid_by k resp (thread i tr)" "paid_by k resp' (thread j tr)"
    using serving_finished [OF assms(3,4,9,12)] serving_finished [OF assms(3,4,15,18)] assms(10,11,16,17)
    by (auto simp: answered_def)
  then obtain l l' where "consumed_fresh k (thread l tr) \<and> minted (tr_RefreshToken body) (thread l tr)"
    and "consumed_fresh k (thread l' tr) \<and> minted (tr_RefreshToken body') (thread l' tr)"
    using successor_source [OF assms(3,4,6,7)] assms(13,14,19,20) by blast
  then show ?thesis by (rule store_contract.one_successor_minted [OF assms(1) assms(3-5,2,8)])
qed

theorem one_successor_for_all_witness:
  "\<exists>tr s r0 r1 b0 b1. sys_run sample_ops (pair_sys sample_refresh_request 0) tr s \<and>
     sy_procs s ! 0 = Ret r0 \<and> rs_status r0 = 200 \<and> rs_body r0 = TokenBody b0 \<and>
     sy_procs s ! 1 = Ret r1 \<and> rs_status r1 = 200 \<and> rs_body r1 = TokenBody b1 \<and>
     tr_RefreshToken b0 = tr_RefreshToken b1"
proof -
  obtain tr s r0 r1 b0 b1 where run: "sys_run sample_ops (pair_sys sample_refresh_request 0) tr s" "sane_trace tr"
    and no: "\<And>l. \<not> saves_refresh tr l (HashSecret ''old'')"
    and 0: "sy_procs s ! 0 = Ret r0" "rs_status r0 = 200" "rs_body r0 = TokenBody b0"
    and 1: "sy_procs s ! 1 = Ret r1" "rs_status r1 = 200" "rs_body r1 = TokenBody b1"
    using rotation_race by blast
  have "tr_RefreshToken b0 = tr_RefreshToken b1"
    by (rule one_successor_for_all [OF sample_contract _ pair_serving run _ _ no, of 0 _ r0 _ 1 _ r1])
       (simp_all add: 0 1 1(1) [unfolded One_nat_def] sample_rotates_old new_pmem_def grace_ok_empty)+
  then show ?thesis using run(1) 0 1 by blast
qed

text \<open>
  C8. A revocation is not undone by a rotation in flight: once a row of a family was consumed
  and the family was then revoked, the refresh token the rotation handed out is not in the
  store, whether its row was saved before the revocation or after it.
\<close>

theorem revocation_wins:
  assumes "store_contract S absf I nrm" and "I (sy_store s0)" and "serving L p jobs s0"
    and "sys_run S s0 tr s" and "sane_trace tr"
    and "a < b" and "b < length tr" and "tr ! a = (i, EvConsumeRefreshToken k t (Inr (Some rt)))"
    and "tr ! b = (j, EvRevokeRefreshTokenFamily (rt_FamilyID rt) (Inr u))"
    and "rt_FamilyID rt \<noteq> []" and "IsZero (rt_ConsumedAt rt)"
    and "i < length jobs" and "jobs ! i = (TokenEndpoint, r)" and "rotates r k"
    and "sy_procs s ! i = Ret resp" and "rs_status resp = 200" and "rs_body resp = TokenBody body"
    and "\<And>l. \<not> saves_refresh tr l k"
    and "\<And>l. l \<noteq> i \<Longrightarrow> \<not> saves_refresh tr l (HashSecret (tr_RefreshToken body))"
  shows "a_refresh (absf (sy_store s)) (HashSecret (tr_RefreshToken body)) = None"
proof -
  have tr: "tr = take a tr @ (i, EvConsumeRefreshToken k t (Inr (Some rt))) # take (b - Suc a) (drop (Suc a) tr) @
      (j, EvRevokeRefreshTokenFamily (rt_FamilyID rt) (Inr u)) # drop (Suc b) tr"
    using two_positions [OF assms(6,7)] assms(8,9) by simp
  have "(i, EvConsumeRefreshToken k t (Inr (Some rt))) \<in> set tr"
    using assms(6-8) by (metis nth_mem order_less_trans)
  then have "consumed_fresh k (thread i tr)"
    using assms(11) by (auto simp: consumed_fresh_def thread_event)
  with serving_finished [OF assms(3,4,12,15)] assms(13,14,16,17)
  have "rotation p k (tr_RefreshToken body) (thread i tr)"
    by (auto simp: answered_def rotated_if_paid_def)
  from store_contract.revoked_rotation_dead [OF assms(1) assms(3,2) tr assms(4,5,10) this assms(18,19)]
  show ?thesis .
qed

theorem revocation_wins_witness:
  "\<exists>tr s r0 b0. sys_run sample_ops (pair_sys sample_refresh_request 0) tr s \<and>
     sy_procs s ! 0 = Ret r0 \<and> rs_status r0 = 200 \<and> rs_body r0 = TokenBody b0 \<and>
     a_refresh (sample_abs (sy_store s)) (HashSecret (tr_RefreshToken b0)) = None"
proof -
  obtain tr s r0 b0 where run: "sys_run sample_ops (pair_sys sample_refresh_request 0) tr s" "sane_trace tr"
    and no: "\<And>l. \<not> saves_refresh tr l (HashSecret ''old'')"
    and fresh: "\<And>l. l \<noteq> 0 \<Longrightarrow> \<not> saves_refresh tr l (HashSecret (tr_RefreshToken b0))"
    and tr: "length tr = 12"
      "tr ! 2 = (0, EvConsumeRefreshToken (HashSecret ''old'') sample_now (Inr (Some (sample_row 0))))"
      "tr ! 11 = (1, EvRevokeRefreshTokenFamily ''family'' (Inr ()))"
    and 0: "sy_procs s ! 0 = Ret r0" "rs_status r0 = 200" "rs_body r0 = TokenBody b0"
    using revocation_race by blast
  have "a_refresh (sample_abs (sy_store s)) (HashSecret (tr_RefreshToken b0)) = None"
    by (rule revocation_wins [OF sample_contract _ pair_serving run, of 2 11 0 _ _ _ 1 "()" _ r0])
       (simp_all add: 0 tr no fresh sample_rotates_old)+
  then show ?thesis using run(1) 0 by blast
qed

text \<open>
  C17. In every execution of any number of requests the grace cache keeps distinct keys and never
  holds more than \<open>maxGraceEntries\<close> successors, and for a predecessor it did not know at the
  start it holds only what a request that consumed that predecessor minted.
\<close>

theorem grace_cache_bounded:
  assumes "serving L p jobs s0" and "sys_run S s0 tr s" and "grace_ok (grace (sy_mem s0))"
    and "map_of (grace (sy_mem s0)) k = None"
  shows "distinct (map fst (grace (sy_mem s))) \<and> length (grace (sy_mem s)) \<le> maxGraceEntries \<and>
    (\<forall>e. map_of (grace (sy_mem s)) k = Some e \<longrightarrow>
       (\<exists>l. consumed_fresh k (thread l tr) \<and> minted (successorRaw e) (thread l tr)))"
  using serving_memory [OF assms] by (simp add: grace_ok_def cache_from_def)

theorem grace_cache_bounded_witness:
  "\<exists>tr s r0. sys_run sample_ops (pair_sys sample_refresh_request 0) tr s \<and>
     sy_procs s ! 0 = Ret r0 \<and> rs_status r0 = 200 \<and> length (grace (sy_mem s)) \<le> maxGraceEntries"
proof -
  obtain tr s r0 where run: "sys_run sample_ops (pair_sys sample_refresh_request 0) tr s"
    and 0: "sy_procs s ! 0 = Ret r0" "rs_status r0 = 200"
    using rotation_race by blast
  then show ?thesis
    using grace_cache_bounded [OF pair_serving run, of "[]"] by (force simp: new_pmem_def grace_ok_empty)
qed

section \<open>A family that is only derived\<close>

text \<open>
  A row that older code saved without a family gets one by derivation from its hash; a replay
  revokes the derived family, but the row itself carries the empty one and stays.
\<close>

definition legacy_sys :: "memory_store sys" where
  "legacy_sys = \<lparr>sy_store = NewMemoryStore\<lparr>ms_refresh := [(HashSecret ''old'', (sample_row 0)\<lparr>rt_FamilyID := []\<rparr>)]\<rparr>,
     sy_mem = new_pmem, sy_procs = [Token sample_lib sample_provider sample_refresh_request,
       Token sample_lib sample_provider sample_refresh_request]\<rparr>"

lemma legacy_sys_simps [simp]: "sy_mem legacy_sys = new_pmem"
  "sy_store legacy_sys = NewMemoryStore\<lparr>ms_refresh := [(HashSecret ''old'', (sample_row 0)\<lparr>rt_FamilyID := []\<rparr>)]\<rparr>"
  "sy_procs legacy_sys = [Token sample_lib sample_provider sample_refresh_request,
     Token sample_lib sample_provider sample_refresh_request]"
  by (simp_all add: legacy_sys_def)

text \<open>
  C40. The re-read of the predecessor does not protect the rotation of a row without a family.
  In this execution the first request has consumed such a row when the second, a minute later,
  is judged a replay and revokes the derived family; then the first goes on, saves its successor
  into the family just revoked, finds the predecessor still there, and hands out a live token.
\<close>

theorem legacy_rotation_escapes:
  "\<exists>tr s r0 b0. sys_run sample_ops legacy_sys tr s \<and> sane_trace tr \<and>
     tr ! 2 = (0, EvConsumeRefreshToken (HashSecret ''old'') sample_now (Inr (Some ((sample_row 0)\<lparr>rt_FamilyID := []\<rparr>)))) \<and>
     tr ! 6 = (1, EvRevokeRefreshTokenFamily (legacyFamilyID (HashSecret ''old'')) (Inr ())) \<and>
     sy_procs s ! 0 = Ret r0 \<and> rs_status r0 = 200 \<and> rs_body r0 = TokenBody b0 \<and>
     (\<exists>rt. a_refresh (sample_abs (sy_store s)) (HashSecret (tr_RefreshToken b0)) = Some rt \<and>
       rt_FamilyID rt = legacyFamilyID (HashSecret ''old'') \<and> IsZero (rt_ConsumedAt rt))"
proof -
  have "\<exists>tr s. play sample_ops (turns [0, 0, 0] @ map (\<lambda>i. (i, late)) [1, 1, 1, 1] @ turns [0, 0, 0, 0, 0])
       legacy_sys = Some (tr, s) \<and> sane_trace tr \<and>
     tr ! 2 = (0, EvConsumeRefreshToken (HashSecret ''old'') sample_now (Inr (Some ((sample_row 0)\<lparr>rt_FamilyID := []\<rparr>)))) \<and>
     tr ! 6 = (1, EvRevokeRefreshTokenFamily (legacyFamilyID (HashSecret ''old'')) (Inr ())) \<and>
     (\<exists>r0 b0. sy_procs s ! 0 = Ret r0 \<and> rs_status r0 = 200 \<and> rs_body r0 = TokenBody b0 \<and>
     (\<exists>rt. a_refresh (sample_abs (sy_store s)) (HashSecret (tr_RefreshToken b0)) = Some rt \<and>
       rt_FamilyID rt = legacyFamilyID (HashSecret ''old'') \<and> IsZero (rt_ConsumedAt rt)))"
    by (simp add: Token_refresh [OF sample_complete(2)] refreshTokenGrant_def rotate_first_use_def
        replayedRefreshToken_def graceApplies_def recall_after_remember writeTokenPair_def familyToRevoke_def sample_late play_defs legacyFamilyID_nonempty [symmetric] mem_abs_def)
  then show ?thesis using play_run by blast
qed

end
