(* ===== verification/Justified.thy ===== *)
theory Justified
  imports Serving
begin

text \<open>
  Why a request saves a row. Whatever its calls are answered, every row a request saves is
  justified by its earlier calls: a pending record by the registered client that was read, or
  by the unapproved record it consumed; a code by the approved record it consumed and the Google
  login it verified; a refresh token by the code or the refresh token it consumed. This is
  the local half of tracing a session back to the user who consented to it.
\<close>

section \<open>Justifications\<close>

text \<open>What of a pending record never changes on its way.\<close>

definition same_flow :: "pending_auth \<Rightarrow> pending_auth \<Rightarrow> bool" where
  "same_flow p q \<longleftrightarrow> pa_ClientID p = pa_ClientID q \<and> pa_RedirectURI p = pa_RedirectURI q \<and>
     pa_CodeChallenge p = pa_CodeChallenge q \<and> pa_ClientState p = pa_ClientState q \<and> pa_BinderHash p = pa_BinderHash q"

definition code_of_flow :: "auth_code \<Rightarrow> pending_auth \<Rightarrow> bool" where
  "code_of_flow c p \<longleftrightarrow> ac_ClientID c = pa_ClientID p \<and> ac_RedirectURI c = pa_RedirectURI p \<and>
     ac_CodeChallenge c = pa_CodeChallenge p"

text \<open>
  Google's answer to the exchange of \<open>code\<close> held an ID token that is valid for this client under a
  key of the provider's key cache and names this verified email.
\<close>

definition google_login :: "lib \<Rightarrow> provider \<Rightarrow> string \<Rightarrow> event set \<Rightarrow> string \<Rightarrow> bool" where
  "google_login L p code evs email \<longleftrightarrow> (\<exists>form reply idt kid m m' key now claims.
     EvHttp (PostForm (GoogleTokenURL (cfg p)) form) (Inr reply) \<in> evs \<and> (''code'', code) \<in> set form \<and>
     hr_StatusCode reply = 200 \<and> hr_id_token reply = Inr idt \<and> jwt_kid L idt (google_parse_options p) = Inr kid \<and>
     EvLocked m m' \<in> evs \<and> (map_of (jwks_keys m) kid = Some key \<or> map_of (jwks_keys m') kid = Some key) \<and>
     EvNow now \<in> evs \<and> jwt_parse_google L idt (google_parse_options p) now key = Inr claims \<and>
     check_google_claims L claims = Inr email)"

text \<open>When the family of a refresh token began; a legacy row stands for its family.\<close>

definition began_at :: "refresh_token \<Rightarrow> time" where
  "began_at rt = (if IsZero (rt_FamilyCreatedAt rt) then rt_CreatedAt rt else rt_FamilyCreatedAt rt)"

fun justifies :: "lib \<Rightarrow> provider \<Rightarrow> endpoint \<times> request \<Rightarrow> event set \<Rightarrow> event \<Rightarrow> bool" where
  "justifies L p (e, r) evs (EvSavePendingAuth q _) \<longleftrightarrow> e = AuthorizeEndpoint \<and>
     (if pa_Approved q
      then rq_Method r = ''POST'' \<and> binderMatches p r (pa_BinderHash q) \<and>
        (\<exists>q0. EvConsumePendingAuth (HashSecret (PostFormValue r ConsentNonceField)) (Inr (Some q0)) \<in> evs \<and>
           \<not> pa_Approved q0 \<and> same_flow q q0)
      else rq_Method r = ''GET'' \<and> (\<exists>i client. EvGetClient i (Inr (Some client)) \<in> evs \<and> cl_ClientID client = pa_ClientID q \<and>
        HasRedirectURI client (pa_RedirectURI q) \<and> is_ok (checkRedirectHostPolicy L p (pa_RedirectURI q)) \<and>
        is_ok (validateCodeChallenge (pa_CodeChallenge q))))"
| "justifies L p (e, r) evs (EvSaveAuthCode c _) \<longleftrightarrow> e = CallbackEndpoint \<and>
     (\<exists>q email. EvConsumePendingAuth (HashSecret (values_get (rq_query r) ''state'')) (Inr (Some q)) \<in> evs \<and>
        pa_Approved q \<and> binderMatches p r (pa_BinderHash q) \<and> code_of_flow c q \<and>
        google_login L p (values_get (rq_query r) ''code'') evs email \<and>
        EvFindUserIDByEmail email (Inr (Some (ac_UserID c))) \<in> evs)"
| "justifies L p (e, r) evs (EvSaveRefreshToken rt _) \<longleftrightarrow> e = TokenEndpoint \<and>
     IsZero (rt_ConsumedAt rt) \<and> rt_ExpiresAt rt \<le> rt_FamilyCreatedAt rt + RefreshTokenAbsoluteTTL (cfg p) \<and>
     ((\<exists>c. EvConsumeAuthCode (HashSecret (PostFormValue r ''code'')) (Inr (Some c)) \<in> evs \<and>
         ac_ClientID c = rt_ClientID rt \<and> ac_UserID c = rt_UserID rt \<and>
         verifyPKCE (PostFormValue r ''code_verifier'') (ac_CodeChallenge c) \<and> EvNow (rt_FamilyCreatedAt rt) \<in> evs) \<or>
      (\<exists>t rt0. EvConsumeRefreshToken (HashSecret (PostFormValue r ''refresh_token'')) t (Inr (Some rt0)) \<in> evs \<and>
         IsZero (rt_ConsumedAt rt0) \<and> rt_ClientID rt0 = rt_ClientID rt \<and> rt_UserID rt0 = rt_UserID rt \<and>
         \<not> IsZero (rt_FamilyCreatedAt rt) \<and> rt_FamilyCreatedAt rt = began_at rt0))"
| "justifies L p (e, r) evs _ \<longleftrightarrow> True"

definition justified :: "lib \<Rightarrow> provider \<Rightarrow> endpoint \<times> request \<Rightarrow> event list \<Rightarrow> bool" where
  "justified L p job h \<longleftrightarrow> h \<noteq> [] \<longrightarrow> justifies L p job (set (butlast h)) (last h)"

lemma justified_snoc: "justified L p job (h @ [ev]) = justifies L p job (set h) ev"
  by (simp add: justified_def)

lemmas justified_defs = justified_def butlast_append

abbreviation anything :: "'a \<Rightarrow> event list \<Rightarrow> bool" where "anything \<equiv> \<lambda>_ _. True"

section \<open>Authorization\<close>

lemma justified_maybePurge:
  assumes "\<And>h'. set h \<subseteq> set h' \<Longrightarrow> along k h' (justified L p (ep, rq)) anything"
  shows "along (maybePurge p k) h (justified L p (ep, rq)) anything"
  by (auto simp: maybePurge_def Provider_PurgeExpired_def answer_cases justified_defs intro!: assms)

lemma authorize_query_ok:
  "authorize_query_error r = None \<Longrightarrow> is_ok (validateCodeChallenge (values_get (rq_query r) ''code_challenge''))"
  by (auto simp: authorize_query_error_def Let_def is_ok_iff split: if_splits sum.splits)

lemma justified_start_consent:
  assumes "EvGetClient i (Inr (Some client)) \<in> set h" and "HasRedirectURI client uri"
    and "rq_Method r = ''GET''" and "is_ok (checkRedirectHostPolicy L p uri)" and "authorize_query_error r = None"
  shows "along (start_consent p w r client uri) h (justified L p (AuthorizeEndpoint, r)) anything"
  unfolding start_consent_def Let_def
  by (rule justified_maybePurge)
    (use assms authorize_query_ok [OF assms(5)] in \<open>auto simp: randomToken_def Let_def answer_cases pending_row_def justified_defs\<close>)

lemma justified_authorizeConsent:
  assumes "rq_Method r = ''GET''"
  shows "along (authorizeConsent L p w r) [] (justified L p (AuthorizeEndpoint, r)) anything"
  using assms
  by (auto simp: authorizeConsent_def Let_def answer_cases justified_defs split: sum.split option.split
      intro!: justified_start_consent)

lemma justified_authorizeApprove:
  assumes "rq_Method r = ''POST''"
  shows "along (authorizeApprove p w r) [] (justified L p (AuthorizeEndpoint, r)) anything"
  using assms
  by (auto simp: authorizeApprove_def randomToken_def Let_def answer_cases justified_defs approved_row_def same_flow_def
      split: sum.split)

section \<open>The callback\<close>

definition cached_key :: "string \<Rightarrow> rsa_key \<Rightarrow> event set \<Rightarrow> bool" where
  "cached_key kid key evs \<longleftrightarrow> (\<exists>m m'. EvLocked m m' \<in> evs \<and>
     (map_of (jwks_keys m) kid = Some key \<or> map_of (jwks_keys m') kid = Some key))"

lemma justified_jwks_fetch:
  assumes "\<And>r h'. set h \<subseteq> set h' \<Longrightarrow> along (k r) h' (justified L p (ep, rq)) anything"
  shows "along (jwks_fetch p k) h (justified L p (ep, rq)) anything"
  by (auto simp: jwks_fetch_def Let_def answer_cases justified_defs split: sum.split intro!: assms)

lemma justified_jwks_refresh:
  assumes "\<And>r h'. set h \<subseteq> set h' \<Longrightarrow> (\<And>key. r = Inr key \<Longrightarrow> cached_key kid key (set h')) \<Longrightarrow>
      along (k r) h' (justified L p (ep, rq)) anything"
    and "\<And>key. known = Some key \<Longrightarrow> cached_key kid key (set h)"
  shows "along (jwks_refresh p kid known expires k) h (justified L p (ep, rq)) anything"
  unfolding jwks_refresh_def
proof (rule justified_jwks_fetch)
  fix r :: "((string \<times> rsa_key) list \<times> duration) res" and h'
  assume h': "set h \<subseteq> set h'"
  show "along (case r of Inl err \<Rightarrow> (case known of None \<Rightarrow> k (Inl err)
          | Some key \<Rightarrow> Now (\<lambda>now. if now < expires + maxStaleJWKS then k (Inr key)
              else k (Inl ''google signing keys are unreachable and the cached copy is too stale'')))
      | Inr (keys, ttl) \<Rightarrow> Now (\<lambda>now. Locked (jwks_store keys (now + ttl)) (\<lambda>_. case map_of keys kid of
          None \<Rightarrow> k (Inl ''no google signing key for kid'') | Some key \<Rightarrow> k (Inr key)))) h' (justified L p (ep, rq)) anything"
    using assms(2) h'
    by (auto simp: jwks_store_def justified_defs split: sum.split option.split intro!: assms(1))
      (force simp: cached_key_def)+
qed

lemma justified_jwks_key:
  assumes "\<And>r h'. set h \<subseteq> set h' \<Longrightarrow> (\<And>key. r = Inr key \<Longrightarrow> cached_key kid key (set h')) \<Longrightarrow>
      along (k r) h' (justified L p (ep, rq)) anything"
  shows "along (jwks_key p kid k) h (justified L p (ep, rq)) anything"
  by (auto simp: jwks_key_def Let_def justified_defs split: option.split intro!: assms justified_jwks_refresh)
    (auto simp: cached_key_def)

lemma justified_exchange:
  assumes "\<And>r h'. set h \<subseteq> set h' \<Longrightarrow> (\<And>email. r = Inr email \<Longrightarrow> google_login L p code (set h') email) \<Longrightarrow>
      along (k r) h' (justified L p (ep, rq)) anything"
  shows "along (exchangeGoogleCode L p code k) h (justified L p (ep, rq)) anything"
proof -
  have verify: "along (verifyGoogleIDToken L p idt k) h' (justified L p (ep, rq)) anything"
    if h': "set h \<subseteq> set h'" and ev: "EvHttp (PostForm (GoogleTokenURL (cfg p)) form) (Inr reply) \<in> set h'"
      "(''code'', code) \<in> set form" "hr_StatusCode reply = 200" "hr_id_token reply = Inr idt" for h' form reply idt
  proof (cases "jwt_kid L idt (google_parse_options p)")
    case (Inl err)
    then show ?thesis using h' by (auto simp: verifyGoogleIDToken_def intro!: assms)
  next
    case (Inr kid)
    have "along (k (check_google_claims L claims)) (h2 @ [EvNow now]) (justified L p (ep, rq)) anything"
      if "set h' \<subseteq> set h2" "cached_key kid key (set h2)"
        "jwt_parse_google L idt (google_parse_options p) now key = Inr claims" for h2 key now claims
    proof (rule assms)
      show "set h \<subseteq> set (h2 @ [EvNow now])" using h' that(1) by auto
      fix email assume "check_google_claims L claims = Inr email"
      then show "google_login L p code (set (h2 @ [EvNow now])) email"
        unfolding google_login_def using ev that Inr unfolding cached_key_def by fastforce
    qed
    then show ?thesis using h'
      by (auto simp: verifyGoogleIDToken_def Inr justified_defs split: sum.split intro!: justified_jwks_key)
        (auto intro!: assms)
  qed
  show ?thesis
    by (auto simp: exchangeGoogleCode_def Let_def answer_cases justified_defs split: sum.split intro!: assms verify)
qed

lemma justified_finish_login:
  assumes "EvConsumePendingAuth (HashSecret (values_get (rq_query r) ''state'')) (Inr (Some q)) \<in> set h"
    and "pa_Approved q" and "binderMatches p r (pa_BinderHash q)"
  shows "along (finish_login L p w r q) h (justified L p (CallbackEndpoint, r)) anything"
proof -
  let ?code = "values_get (rq_query r) ''code''"
  have "along (issue_code p w r q userID) (h' @ [EvFindUserIDByEmail email (Inr (Some userID))])
      (justified L p (CallbackEndpoint, r)) anything"
    if "set h \<subseteq> set h'" and "google_login L p ?code (set h') email" for h' email userID
  proof -
    have "google_login L p ?code evs email" if "set h' \<subseteq> evs" for evs
      using \<open>google_login L p ?code (set h') email\<close> that unfolding google_login_def by blast
    then have *: "justifies L p (CallbackEndpoint, r) evs (EvSaveAuthCode (code_row p q raw userID now) x)"
      if "set h' \<subseteq> evs" "EvFindUserIDByEmail email (Inr (Some userID)) \<in> evs" for evs raw now x
      using assms that \<open>set h \<subseteq> set h'\<close> by (auto simp: code_row_def code_of_flow_def intro!: exI [of _ q] exI [of _ email])
    show ?thesis
      by (auto simp: issue_code_def extendClient_def randomToken_def Let_def answer_cases justified_defs
          simp del: justifies.simps(2) intro!: *)
  qed
  then show ?thesis
    by (auto simp: finish_login_def Let_def answer_cases justified_defs intro!: justified_exchange split: sum.split)
qed

lemma justified_GoogleCallback: "along (GoogleCallback L p r) [] (justified L p (CallbackEndpoint, r)) anything"
  by (auto simp: GoogleCallback_def Let_def answer_cases justified_defs justified_finish_login)

section \<open>The token endpoint\<close>

lemma justified_issue:
  assumes "\<And>refresh now x evs. set h \<subseteq> evs \<Longrightarrow>
    justifies L p (ep, rq) evs (EvSaveRefreshToken (issued_row p refresh c u f start now) x)"
  shows "along (issueTokenPair L p w prev c u f start) h (justified L p (ep, rq)) anything"
  by (auto simp: issueTokenPair_def randomToken_def rememberSuccessor_def answer_cases justified_defs
      simp del: justifies.simps(3) intro!: assms)

lemma justified_code:
  "along (authorizationCodeGrant L p w r) h (justified L p (TokenEndpoint, r)) anything"
  by (auto simp: authorizationCodeGrant_def randomToken_def Let_def answer_cases justified_defs issued_row_def
      intro!: justified_issue)

lemma justified_replay:
  "along (replayedRefreshToken L p w rt k c now) h (justified L p (ep, rq)) anything"
  by (auto simp: replayedRefreshToken_def graceApplies_def recallSuccessor_def Let_def answer_cases justified_defs
      split: option.split)

lemma justified_rotate:
  assumes "EvConsumeRefreshToken (HashSecret (PostFormValue r ''refresh_token'')) t (Inr (Some rt)) \<in> set h"
    and "IsZero (rt_ConsumedAt rt)"
  shows "along (rotate_first_use L p w rt k c now) h (justified L p (TokenEndpoint, r)) anything"
proof -
  have *: "justifies L p (TokenEndpoint, r) evs (EvSaveRefreshToken (issued_row p s (rt_ClientID rt) (rt_UserID rt) f (began_at rt) now) x)"
    if "set h \<subseteq> evs" "\<not> IsZero (began_at rt)" for evs s f now x
    unfolding justifies.simps
    by (intro conjI disjI2 exI [of _ t] exI [of _ rt]) (use assms that in auto)
  show ?thesis
    unfolding rotate_first_use_def Let_def began_at_def [symmetric]
    by (auto simp: answer_cases justified_defs simp del: justifies.simps(3) intro!: justified_issue *)
qed

lemma justified_refresh:
  "along (refreshTokenGrant L p w r) h (justified L p (TokenEndpoint, r)) anything"
  by (auto simp: refreshTokenGrant_def Let_def answer_cases justified_defs justified_replay intro!: justified_rotate)

lemma justified_Token: "along (Token L p r) [] (justified L p (TokenEndpoint, r)) anything"
  by (simp add: Token_def Let_def justified_code justified_refresh allowCORS_def split: sum.split)

lemma justified_Register: "along (Register L p r) [] (justified L p (ep, rq)) anything"
  by (auto simp: Register_def allowCORS_def randomToken_def Let_def answer_cases justified_defs split: sum.split)

lemma justified_documents:
  "along (AuthorizationServerMetadata p r) [] (justified L p (ep, rq)) anything"
  "along (ProtectedResourceMetadata p r) [] (justified L p (ep, rq)) anything"
  by (simp_all add: AuthorizationServerMetadata_def ProtectedResourceMetadata_def read_document_def allowCORS_def Let_def)

lemma justified_serve: "along (serve L p e r) [] (justified L p (e, r)) anything"
  by (cases e) (simp_all add: serve_def Authorize_def justified_Token justified_authorizeConsent justified_authorizeApprove
      justified_GoogleCallback justified_Register justified_documents)

section \<open>For whom a token is issued\<close>

definition presented_by :: "request \<Rightarrow> string \<Rightarrow> event set \<Rightarrow> bool" where
  "presented_by r userID evs \<longleftrightarrow>
     (\<exists>c. EvConsumeAuthCode (HashSecret (PostFormValue r ''code'')) (Inr (Some c)) \<in> evs \<and> ac_UserID c = userID \<and>
        verifyPKCE (PostFormValue r ''code_verifier'') (ac_CodeChallenge c)) \<or>
     (\<exists>t rt. EvConsumeRefreshToken (HashSecret (PostFormValue r ''refresh_token'')) t (Inr (Some rt)) \<in> evs \<and>
        rt_UserID rt = userID)"

definition paid_for :: "lib \<Rightarrow> provider \<Rightarrow> request \<Rightarrow> response \<Rightarrow> event list \<Rightarrow> bool" where
  "paid_for L p r resp h \<longleftrightarrow> rs_status resp = 200 \<longrightarrow> (\<exists>body userID now. rs_body resp = TokenBody body \<and>
     issueAccessToken L p userID now = Inr (tr_AccessToken body) \<and> presented_by r userID (set h))"

lemma paid_for_error [simp]:
  "paid_for L p r (writeOAuthError w 400 e d) h" "paid_for L p r (writeOAuthError w 500 e d) h"
  "paid_for L p r (writeOAuthError w 405 e d) h" "paid_for L p r (finish w 204 NoBody) h"
  by (simp_all add: paid_for_def finish_def)

lemma paid_for_pair: "presented_by r u (set h) \<Longrightarrow> paid_for L p r (writeTokenPair L p w u s now) h"
  by (auto simp: paid_for_def writeTokenPair_def split: sum.split)

lemma presented_by_mono: "presented_by r u evs \<Longrightarrow> evs \<subseteq> evs' \<Longrightarrow> presented_by r u evs'"
  unfolding presented_by_def by blast

lemma paid_issue:
  assumes "presented_by r u (set h)"
  shows "along (issueTokenPair L p w prev c u f start) h (\<lambda>_. True) (paid_for L p r)"
  by (auto simp: issueTokenPair_def randomToken_def rememberSuccessor_def answer_cases
      intro!: paid_for_pair presented_by_mono [OF assms])

lemma paid_code: "along (authorizationCodeGrant L p w r) [] (\<lambda>_. True) (paid_for L p r)"
  by (auto simp: authorizationCodeGrant_def randomToken_def Let_def answer_cases presented_by_def intro!: paid_issue)

lemma paid_replay:
  assumes "presented_by r (rt_UserID rt) (set h)"
  shows "along (replayedRefreshToken L p w rt k c now) h (\<lambda>_. True) (paid_for L p r)"
  by (auto simp: replayedRefreshToken_def graceApplies_def recallSuccessor_def Let_def answer_cases
      split: option.split intro!: paid_for_pair presented_by_mono [OF assms])

lemma paid_rotate:
  assumes "presented_by r (rt_UserID rt) (set h)"
  shows "along (rotate_first_use L p w rt k c now) h (\<lambda>_. True) (paid_for L p r)"
  using assms by (auto simp: rotate_first_use_def Let_def answer_cases intro!: paid_issue)

lemma paid_refresh: "along (refreshTokenGrant L p w r) [] (\<lambda>_. True) (paid_for L p r)"
  by (auto simp: refreshTokenGrant_def Let_def answer_cases presented_by_def intro!: paid_replay paid_rotate)

lemma paid_Token: "along (Token L p r) [] (\<lambda>_. True) (paid_for L p r)"
  by (simp add: Token_def Let_def paid_code paid_refresh allowCORS_def split: sum.split)

end
