(* ===== verification/Complete_Flow.thy ===== *)
theory Complete_Flow
  imports Race_Properties Flow_Properties
begin

text \<open>
  A login from end to end, on the sample deployment: the consent page, the approval, the return
  from Google and the exchange of the code, four requests on one store, with the store and the
  provider's memory after each. It shows that the store and library laws can hold together with a
  successful flow, and it is the instance on which the chain behind a session is shown.
\<close>

section \<open>One thread at a time\<close>

text \<open>\<open>drive\<close> runs one thread for as many calls as there are answers.\<close>

fun drive :: "'s store_ops \<Rightarrow> answer list \<Rightarrow> 'a prog \<Rightarrow> 's \<times> pmem \<Rightarrow> (event list \<times> 'a prog \<times> 's \<times> pmem) option" where
  "drive S [] P x = Some ([], P, x)"
| "drive S (A # As) P x =
     (case exec1 S A P x of None \<Rightarrow> None | Some (ev, P', x') \<Rightarrow> map_option (apfst ((#) ev)) (drive S As P' x'))"

lemma drive_run:
  assumes "i < length (sy_procs s)" and "drive S As (sy_procs s ! i) (sy_store s, sy_mem s) = Some (evs, P, st, m)"
  shows "sys_run S s (map (Pair i) evs) \<lparr>sy_store = st, sy_mem = m, sy_procs = (sy_procs s)[i := P]\<rparr>"
  using assms
proof (induction As arbitrary: s evs)
  case Nil
  then show ?case by (cases s) auto
next
  case (Cons A As)
  from Cons.prems(2) obtain ev P1 st1 m1 evs1
    where e: "exec1 S A (sy_procs s ! i) (sy_store s, sy_mem s) = Some (ev, P1, st1, m1)"
    and d: "drive S As P1 (st1, m1) = Some (evs1, P, st, m)" and evs: "evs = ev # evs1"
    by (auto split: option.splits)
  let ?s = "\<lparr>sy_store = st1, sy_mem = m1, sy_procs = (sy_procs s)[i := P1]\<rparr>"
  have "sys_run S ?s (map (Pair i) evs1) \<lparr>sy_store = st, sy_mem = m, sy_procs = (sy_procs s)[i := P]\<rparr>"
    using Cons.IH [of ?s evs1] Cons.prems(1) d by simp
  then show ?case unfolding evs list.map by (rule sys_run_Cons [OF sys_call [OF Cons.prems(1) e]])
qed

section \<open>A complete flow\<close>

text \<open>A store with one registered client and one user; the random source draws one value.\<close>

definition drawn :: string where "drawn = b64url_encode (replicate 32 1)"

lemma drawn_binder: "validBinder drawn"
  using b64url_encode_alphabet [of "replicate 32 1"] length_b64url_encode [of "replicate 32 1"]
  by (auto simp: drawn_def validBinder_def maxBinderLen_def list_all_iff b64url_alphabet_def)

definition drawn_cookie :: "(string \<times> string) list" where
  "drawn_cookie = [(''__Host-mcpoauth_binder'', drawn)]"

lemma drawn_binders: "rq_cookies r = drawn_cookie \<Longrightarrow> readBinders sample_provider r = [drawn]"
  using SplitN_Join [of "[drawn]" BinderCookieSep "maxBinders + 1"] validBinder_no_sep [OF drawn_binder] drawn_binder
  by (simp add: drawn_cookie_def readBinders_eq binderCookieName_def sample_provider_def sample_config_def
      BinderCookieName_def maxBinders_def)

lemma drawn_matches: "rq_cookies r = drawn_cookie \<Longrightarrow> binderMatches sample_provider r (HashSecret drawn)"
  by (simp add: binderMatches_iff drawn_binders)

definition sample_challenge :: string where "sample_challenge = b64url_encode (sha256 (bytes ''verifier''))"

definition ask :: request where
  "ask = flow_get [(''client_id'', ''app''), (''redirect_uri'', ''http://127.0.0.1/cb''), (''response_type'', ''code''),
     (''code_challenge'', sample_challenge), (''code_challenge_method'', ''S256''), (''state'', ''xyz'')]"

definition approve :: request where
  "approve = (form_post [(''mcpoauth_consent'', drawn)])\<lparr>rq_cookies := drawn_cookie\<rparr>"

definition come_back :: request where
  "come_back = (flow_get [(''state'', drawn), (''code'', ''google-code'')])\<lparr>rq_cookies := drawn_cookie\<rparr>"

definition redeem :: request where
  "redeem = form_post [(''grant_type'', ''authorization_code''), (''code'', drawn), (''client_id'', ''app''),
     (''redirect_uri'', ''http://127.0.0.1/cb''), (''code_verifier'', ''verifier'')]"

definition flow_jobs :: "(endpoint \<times> request) list" where
  "flow_jobs = [(AuthorizeEndpoint, ask), (AuthorizeEndpoint, approve), (CallbackEndpoint, come_back), (TokenEndpoint, redeem)]"

definition before_flow :: memory_store where
  "before_flow = NewMemoryStore\<lparr>ms_clients := [(''app'', sample_client)], ms_usersByE := [(''alice@example.com'', ''alice'')]\<rparr>"

definition flow_mem :: pmem where
  "flow_mem = new_pmem\<lparr>jwks_keys := [(''kid'', \<lparr>rsa_N = 77, rsa_E = 3\<rparr>)], jwks_expiresAt := sample_now + hour\<rparr>"

definition flow_sys :: "memory_store sys" where
  "flow_sys = \<lparr>sy_store = before_flow, sy_mem = flow_mem, sy_procs = map (\<lambda>(e, r). serve flow_lib sample_provider e r) flow_jobs\<rparr>"

definition google :: answer where
  "google = \<lparr>an_now = sample_now, an_rand = replicate 32 1, an_http = e_http flow_env 0 (GetURL [])\<rparr>"

lemma google_simps [simp]: "an_now google = sample_now" "an_rand google = replicate 32 1"
  "an_http google = Inr \<lparr>hr_StatusCode = 200, hr_CacheControl = [], hr_read = Inr (), hr_id_token = Inr ''idtoken'', hr_jwks = Inl ''not keys''\<rparr>"
  by (simp_all add: google_def flow_env_def)

lemma ask_query: "authorize_query_error ask = None"
proof -
  have "is_ok (validateCodeChallenge sample_challenge)"
    using b64url_encode_alphabet [of "sha256 (bytes ''verifier'')"] length_b64url_encode [of "sha256 (bytes ''verifier'')"]
    by (auto simp: sample_challenge_def validateCodeChallenge_def challenge_chars_ok minCodeChallengeLen_def maxCodeChallengeLen_def list_all_iff)
  moreover have "sample_challenge \<noteq> []" using length_b64url_encode [of "sha256 (bytes ''verifier'')"] by (force simp: sample_challenge_def)
  ultimately show ?thesis
    by (auto simp: authorize_query_error_def ask_def flow_get_def values_get_def is_ok_iff maxClientStateLen_def)
qed

lemma ask_form: "rq_Method ask = ''GET''" "values_get (rq_query ask) ''client_id'' = ''app''"
  "values_get (rq_query ask) ''redirect_uri'' = ''http://127.0.0.1/cb''"
  "values_get (rq_query ask) ''code_challenge'' = sample_challenge"  "values_get (rq_query ask) ''state'' = ''xyz''"
  by (simp_all add: ask_def flow_get_def values_get_def)

definition flow_row :: "bool \<Rightarrow> pending_auth" where
  "flow_row approved = \<lparr>pa_StateHash = HashSecret drawn, pa_ClientID = ''app'', pa_RedirectURI = ''http://127.0.0.1/cb'',
     pa_CodeChallenge = sample_challenge, pa_ClientState = ''xyz'', pa_BinderHash = HashSecret drawn,
     pa_Approved = approved, pa_ExpiresAt = sample_now + 10 * minute, pa_CreatedAt = sample_now\<rparr>"

lemma flow_rows:
  "pending_row sample_provider drawn ''app'' ''http://127.0.0.1/cb'' sample_challenge ''xyz'' drawn sample_now = flow_row False"
  "approved_row sample_provider (flow_row False) drawn sample_now = flow_row True"
  by (simp_all add: pending_row_def approved_row_def flow_row_def sample_provider_def sample_config_def)

lemma flow_row_simps [simp]:
  "pa_StateHash (flow_row b) = HashSecret drawn" "pa_Approved (flow_row b) = b" "pa_BinderHash (flow_row b) = HashSecret drawn"
  "sample_now < pa_ExpiresAt (flow_row b)" "pa_ClientID (flow_row b) = ''app''"
  by (simp_all add: flow_row_def)

lemma sample_client_simps [simp]: "cl_ClientID sample_client = ''app''" "cl_ExpiresAt sample_client = sample_now + hour"
  by (simp_all add: sample_client_def)

lemmas drive_defs = handler_defs Let_def mem_ops_def store_defs rand_read_def before_flow_def NewMemoryStore_def
  drawn_def [symmetric] flow_rows

lemma drive_ask:
  "\<exists>evs resp. drive sample_ops [google, google, google, google, google, google, google, google, google, google] (Authorize flow_lib sample_provider ask) (before_flow, flow_mem) =
     Some (evs, Ret resp, before_flow\<lparr>ms_pending := [(HashSecret drawn, flow_row False)]\<rparr>, flow_mem\<lparr>lastPurge := sample_now\<rparr>) \<and>
     list_all now_ok evs \<and> rs_status resp = 200"
proof -
  have "HasRedirectURI sample_client ''http://127.0.0.1/cb''"
    by (simp add: HasRedirectURI_iff sample_client_def)
  moreover have "purge_due sample_provider sample_now flow_mem"
    by (simp add: purge_due_def time_sub_def flow_mem_def new_pmem_def sample_now_def)
  ultimately show ?thesis
    by (simp add: drive_defs ask_form ask_query checkRedirectHostPolicy_def renderConsent_def finish_def)
qed

lemma approve_form: "rq_Method approve = ''POST''" "PostFormValue approve ConsentNonceField = drawn"
  "ParseForm maxConsentFormBytes approve = Inr ()"
  by (simp_all add: approve_def form_post_def PostFormValue_def values_get_def ConsentNonceField_def
      ParseForm_def maxConsentFormBytes_def)

lemma drawn_nonempty [simp]: "drawn \<noteq> []"
  by (rule validBinder_nonempty [OF drawn_binder])

lemma drive_approve:
  "\<exists>evs resp. drive sample_ops [google, google, google, google, google] (Authorize flow_lib sample_provider approve)
       (before_flow\<lparr>ms_pending := [(HashSecret drawn, flow_row False)]\<rparr>, m) =
     Some (evs, Ret resp, before_flow\<lparr>ms_pending := [(HashSecret drawn, flow_row True)]\<rparr>, m) \<and>
     list_all now_ok evs \<and> rs_status resp = 302"
proof -
  have "binderMatches sample_provider approve (HashSecret drawn)"
    by (rule drawn_matches) (simp add: approve_def)
  then show ?thesis
    by (simp add: drive_defs approve_form)
qed

lemma come_back_form: "rq_Method come_back = ''GET''" "values_get (rq_query come_back) ''state'' = drawn"
  "values_get (rq_query come_back) ''code'' = ''google-code''" "values_get (rq_query come_back) ''error'' = []"
  by (simp_all add: come_back_def flow_get_def values_get_def)

definition flow_code :: auth_code where
  "flow_code = code_row sample_provider (flow_row True) drawn ''alice'' sample_now"

lemma flow_code_simps [simp]: "ac_CodeHash flow_code = HashSecret drawn" "ac_ClientID flow_code = ''app''"
  "ac_UserID flow_code = ''alice''" "ac_RedirectURI flow_code = ''http://127.0.0.1/cb''"
  "ac_CodeChallenge flow_code = sample_challenge" "sample_now < ac_ExpiresAt flow_code"
  by (simp_all add: flow_code_def code_row_def flow_row_def sample_provider_def sample_config_def)

definition after_login :: memory_store where
  "after_login = before_flow\<lparr>ms_codes := [(HashSecret drawn, flow_code)],
     ms_clients := [(''app'', sample_client\<lparr>cl_ExpiresAt := sample_now + 2184 * hour\<rparr>)]\<rparr>"

lemma drive_come_back:
  assumes "jwks_keys m = [(''kid'', \<lparr>rsa_N = 77, rsa_E = 3\<rparr>)]" and "jwks_expiresAt m = sample_now + hour"
  shows "\<exists>evs resp. drive sample_ops [google, google, google, google, google, google, google, google, google, google, google, google] (GoogleCallback flow_lib sample_provider come_back)
       (before_flow\<lparr>ms_pending := [(HashSecret drawn, flow_row True)]\<rparr>, m) =
     Some (evs, Ret resp, after_login, m) \<and> list_all now_ok evs \<and> rs_status resp = 302"
proof -
  have "binderMatches sample_provider come_back (HashSecret drawn)"
    by (rule drawn_matches) (simp add: come_back_def)
  moreover obtain u where "Parse (GoogleTokenURL (cfg sample_provider)) = Inr u"
    using flow_google_url by (auto simp: is_ok_iff)
  moreover have "ClientTTL (cfg sample_provider) = 2184 * hour"
    by (simp add: sample_provider_def sample_config_def)
  ultimately show ?thesis
    using flow_email assms
    by (simp add: drive_defs come_back_form flow_lib_def after_login_def flow_code_def [symmetric])
qed

lemma redeem_form: "well_formed_post redeem ''authorization_code''" "PostFormValue redeem ''code'' = drawn"
  "PostFormValue redeem ''client_id'' = ''app''" "PostFormValue redeem ''redirect_uri'' = ''http://127.0.0.1/cb''"
  "PostFormValue redeem ''code_verifier'' = ''verifier''"
  by (simp_all add: well_formed_post_def redeem_def form_post_def PostFormValue_def values_get_def ParseForm_def default_form_limit_def)

definition flow_row_issued :: refresh_token where
  "flow_row_issued = issued_row sample_provider drawn ''app'' ''alice'' (b64url_encode (replicate 16 1)) sample_now sample_now"

lemma drive_redeem:
  "\<exists>evs resp. drive sample_ops [google, google, google, google, google, google, google] (Token flow_lib sample_provider redeem) (after_login, m) =
     Some (evs, Ret resp, after_login\<lparr>ms_codes := [], ms_refresh := [(HashSecret drawn, flow_row_issued)]\<rparr>, m) \<and>
     list_all now_ok evs \<and> rs_status resp = 200"
proof -
  have "verifyPKCE ''verifier'' sample_challenge" using sample_pkce by (simp add: sample_challenge_def)
  moreover have "issueAccessToken flow_lib sample_provider ''alice'' sample_now = Inr ''token''"
    by (simp add: issueAccessToken_def flow_lib_def sample_lib_def sample_claims_def)
  ultimately show ?thesis
    unfolding Token_code [OF redeem_form(1)]
    by (simp add: authorizationCodeGrant_def issueTokenPair_def randomToken_def writeTokenPair_def redeem_form
        mem_ops_def store_defs rand_read_def before_flow_def NewMemoryStore_def drawn_def [symmetric] after_login_def flow_row_issued_def Let_def)
qed

section \<open>The trace\<close>

text \<open>The requests finish one after the other: \<open>rs\<close> are the answers so far.\<close>

definition answered_so_far :: "memory_store \<Rightarrow> pmem \<Rightarrow> response list \<Rightarrow> bool" where
  "answered_so_far st m rs \<longleftrightarrow> (\<exists>tr. sane_trace tr \<and> sys_run sample_ops flow_sys tr
     \<lparr>sy_store = st, sy_mem = m, sy_procs = map Ret rs @ drop (length rs) (sy_procs flow_sys)\<rparr>)"

lemma answered_next:
  assumes "answered_so_far st m rs" and "length rs < length (sy_procs flow_sys)"
    and "\<exists>evs resp. drive sample_ops As (sy_procs flow_sys ! length rs) (st, m) = Some (evs, Ret resp, st', m') \<and>
      list_all now_ok evs \<and> rs_status resp = n"
  shows "\<exists>resp. answered_so_far st' m' (rs @ [resp]) \<and> rs_status resp = n"
proof -
  let ?s = "\<lparr>sy_store = st, sy_mem = m, sy_procs = map Ret rs @ drop (length rs) (sy_procs flow_sys)\<rparr>"
  obtain tr evs resp where run: "sane_trace tr" "sys_run sample_ops flow_sys tr ?s" and
    d: "drive sample_ops As (sy_procs flow_sys ! length rs) (st, m) = Some (evs, Ret resp, st', m')" "list_all now_ok evs"
    and n: "rs_status resp = n"
    using assms(1,3) by (auto simp: answered_so_far_def)
  have "(sy_procs ?s)[length rs := Ret resp] = map Ret (rs @ [resp]) @ drop (Suc (length rs)) (sy_procs flow_sys)"
    using assms(2) by (simp add: list_update_append Cons_nth_drop_Suc [symmetric])
  then have "sys_run sample_ops flow_sys (tr @ map (Pair (length rs)) evs)
      \<lparr>sy_store = st', sy_mem = m', sy_procs = map Ret (rs @ [resp]) @ drop (length (rs @ [resp])) (sy_procs flow_sys)\<rparr>"
    using drive_run [of "length rs" ?s sample_ops As evs "Ret resp" st' m'] run(2) d(1) assms(2)
    by (auto simp: sys_run_append nth_append)
  moreover have "sane_trace (tr @ map (Pair (length rs)) evs)"
    using run(1) d(2) by (auto simp: sane_trace_def list_all_iff)
  ultimately show ?thesis using n by (auto simp: answered_so_far_def)
qed

lemma flow_procs: "sy_procs flow_sys = [Authorize flow_lib sample_provider ask, Authorize flow_lib sample_provider approve,
    GoogleCallback flow_lib sample_provider come_back, Token flow_lib sample_provider redeem]"
  by (simp add: flow_sys_def flow_jobs_def serve_def)

lemma complete_flow:
  "\<exists>m rs. answered_so_far (after_login\<lparr>ms_codes := [], ms_refresh := [(HashSecret drawn, flow_row_issued)]\<rparr>) m rs \<and>
     length rs = 4 \<and> rs_status (rs ! 3) = 200"
proof -
  let ?m = "flow_mem\<lparr>lastPurge := sample_now\<rparr>"
  have "answered_so_far before_flow flow_mem []"
    by (auto simp: answered_so_far_def sane_trace_def flow_sys_def intro!: exI [of _ "[]"] sys_run.run_empty)
  from answered_next [OF this, unfolded flow_procs, simplified, OF drive_ask]
  obtain r0 where "answered_so_far (before_flow\<lparr>ms_pending := [(HashSecret drawn, flow_row False)]\<rparr>) ?m [r0]" by auto
  from answered_next [OF this, unfolded flow_procs, simplified, OF drive_approve]
  obtain r1 where "answered_so_far (before_flow\<lparr>ms_pending := [(HashSecret drawn, flow_row True)]\<rparr>) ?m [r0, r1]" by auto
  from answered_next [OF this, unfolded flow_procs, simplified, OF drive_come_back]
  obtain r2 where "answered_so_far after_login ?m [r0, r1, r2]" by (auto simp: flow_mem_def)
  from answered_next [OF this, unfolded flow_procs, simplified, OF drive_redeem]
  obtain r3 where "answered_so_far (after_login\<lparr>ms_codes := [], ms_refresh := [(HashSecret drawn, flow_row_issued)]\<rparr>) ?m [r0, r1, r2, r3]"
    "rs_status r3 = 200" by auto
  then show ?thesis by (intro exI [of _ ?m] exI [of _ "[r0, r1, r2, r3]"]) simp
qed

end
