(* ===== verification/Provenance.thy ===== *)
theory Provenance
  imports Justified Complete_Flow
begin

text \<open>
  Where a session comes from, whatever requests are in flight and however they are interleaved.
  The four predicates are the links of the chain, relative to the tables at the start, which a
  deployment keeps over restarts: a flow was asked for by a registered client, the user's browser
  approved it, a login with Google in the same browser brought the code, and the code, with the
  verifier of its challenge, the session. No link rests on a secret being hard to guess.
\<close>

section \<open>The chain\<close>

inductive asked :: "(endpoint \<times> request) list \<Rightarrow> lib \<Rightarrow> provider \<Rightarrow> astore \<Rightarrow> (nat \<times> event) list \<Rightarrow> pending_auth \<Rightarrow> bool"
  for jobs L p a0 tr where
  asked_before: "a_pending a0 h = Some q0 \<Longrightarrow> \<not> pa_Approved q0 \<Longrightarrow> same_flow q q0 \<Longrightarrow> asked jobs L p a0 tr q"
| asked_here: "i < length jobs \<Longrightarrow> jobs ! i = (AuthorizeEndpoint, r) \<Longrightarrow> rq_Method r = ''GET'' \<Longrightarrow>
    (i, EvGetClient n (Inr (Some client))) \<in> set tr \<Longrightarrow> cl_ClientID client = pa_ClientID q \<Longrightarrow>
    HasRedirectURI client (pa_RedirectURI q) \<Longrightarrow> is_ok (checkRedirectHostPolicy L p (pa_RedirectURI q)) \<Longrightarrow>
    is_ok (validateCodeChallenge (pa_CodeChallenge q)) \<Longrightarrow> asked jobs L p a0 tr q"

inductive consented :: "(endpoint \<times> request) list \<Rightarrow> lib \<Rightarrow> provider \<Rightarrow> astore \<Rightarrow> (nat \<times> event) list \<Rightarrow> pending_auth \<Rightarrow> bool"
  for jobs L p a0 tr where
  consented_before: "a_pending a0 h = Some q0 \<Longrightarrow> pa_Approved q0 \<Longrightarrow> same_flow q q0 \<Longrightarrow> consented jobs L p a0 tr q"
| consented_here: "i < length jobs \<Longrightarrow> jobs ! i = (AuthorizeEndpoint, r) \<Longrightarrow> rq_Method r = ''POST'' \<Longrightarrow>
    binderMatches p r (pa_BinderHash q) \<Longrightarrow> asked jobs L p a0 tr q \<Longrightarrow> consented jobs L p a0 tr q"

inductive coded :: "(endpoint \<times> request) list \<Rightarrow> lib \<Rightarrow> provider \<Rightarrow> astore \<Rightarrow> (nat \<times> event) list \<Rightarrow> auth_code \<Rightarrow> bool"
  for jobs L p a0 tr where
  coded_before: "a_codes a0 h = Some c \<Longrightarrow> coded jobs L p a0 tr c"
| coded_here: "i < length jobs \<Longrightarrow> jobs ! i = (CallbackEndpoint, r) \<Longrightarrow> binderMatches p r (pa_BinderHash q) \<Longrightarrow>
    consented jobs L p a0 tr q \<Longrightarrow> code_of_flow c q \<Longrightarrow>
    google_login L p (values_get (rq_query r) ''code'') (set (thread i tr)) email \<Longrightarrow>
    (i, EvFindUserIDByEmail email (Inr (Some (ac_UserID c)))) \<in> set tr \<Longrightarrow> coded jobs L p a0 tr c"

inductive session :: "(endpoint \<times> request) list \<Rightarrow> lib \<Rightarrow> provider \<Rightarrow> astore \<Rightarrow> (nat \<times> event) list \<Rightarrow> string \<Rightarrow> string \<Rightarrow> bool"
  for jobs L p a0 tr where
  session_before: "a_refresh a0 h = Some rt \<Longrightarrow> session jobs L p a0 tr (rt_ClientID rt) (rt_UserID rt)"
| session_here: "i < length jobs \<Longrightarrow> jobs ! i = (TokenEndpoint, r) \<Longrightarrow>
    verifyPKCE (PostFormValue r ''code_verifier'') (ac_CodeChallenge c) \<Longrightarrow>
    coded jobs L p a0 tr c \<Longrightarrow> session jobs L p a0 tr (ac_ClientID c) (ac_UserID c)"

section \<open>Longer traces\<close>

lemma google_login_mono: "google_login L p code evs email \<Longrightarrow> evs \<subseteq> evs' \<Longrightarrow> google_login L p code evs' email"
  unfolding google_login_def by blast

lemma asked_mono: "asked jobs L p a0 tr q \<Longrightarrow> asked jobs L p a0 (tr @ tr') q"
  by (induction rule: asked.induct) (auto intro: asked.intros)

lemma consented_mono: "consented jobs L p a0 tr q \<Longrightarrow> consented jobs L p a0 (tr @ tr') q"
  by (induction rule: consented.induct) (auto intro: consented.intros asked_mono)

lemma coded_mono: "coded jobs L p a0 tr c \<Longrightarrow> coded jobs L p a0 (tr @ tr') c"
proof (induction rule: coded.induct)
  case (coded_here i r q c email)
  have "google_login L p (values_get (rq_query r) ''code'') (set (thread i (tr @ tr'))) email"
    by (rule google_login_mono [OF coded_here(6)]) simp
  with coded_here show ?case by (auto intro: coded.coded_here consented_mono)
qed (rule coded_before)

lemma session_mono: "session jobs L p a0 tr c u \<Longrightarrow> session jobs L p a0 (tr @ tr') c u"
  by (induction rule: session.induct) (auto intro: session.intros coded_mono)

lemma asked_flow: "asked jobs L p a0 tr q \<Longrightarrow> same_flow q' q \<Longrightarrow> asked jobs L p a0 tr q'"
  by (induction rule: asked.induct) (auto simp: same_flow_def intro: asked.intros)

lemma consented_flow: "consented jobs L p a0 tr q \<Longrightarrow> same_flow q' q \<Longrightarrow> consented jobs L p a0 tr q'"
proof (induction rule: consented.induct)
  case (consented_before h q0 q)
  then show ?case by (auto simp: same_flow_def intro: consented.consented_before)
next
  case (consented_here i r q)
  then show ?case using asked_flow [OF consented_here(5,6)] by (auto simp: same_flow_def intro: consented.consented_here)
qed

section \<open>The invariant\<close>

definition pending_traced where
  "pending_traced jobs L p a0 tr q \<longleftrightarrow> (if pa_Approved q then consented jobs L p a0 tr q else asked jobs L p a0 tr q)"

text \<open>Every row, in the tables or handed over, has its chain.\<close>

definition rows_traced where
  "rows_traced jobs L p a0 tr a \<longleftrightarrow>
     (\<forall>h q. a_pending a h = Some q \<longrightarrow> pending_traced jobs L p a0 tr q) \<and>
     (\<forall>h c. a_codes a h = Some c \<longrightarrow> coded jobs L p a0 tr c) \<and>
     (\<forall>h rt. a_refresh a h = Some rt \<longrightarrow> session jobs L p a0 tr (rt_ClientID rt) (rt_UserID rt))"

definition events_traced where
  "events_traced jobs L p a0 tr \<longleftrightarrow>
     (\<forall>i h q. (i, EvConsumePendingAuth h (Inr (Some q))) \<in> set tr \<longrightarrow> pending_traced jobs L p a0 tr q) \<and>
     (\<forall>i h c. (i, EvConsumeAuthCode h (Inr (Some c))) \<in> set tr \<longrightarrow> coded jobs L p a0 tr c) \<and>
     (\<forall>i h t rt. (i, EvConsumeRefreshToken h t (Inr (Some rt))) \<in> set tr \<longrightarrow> session jobs L p a0 tr (rt_ClientID rt) (rt_UserID rt))"

lemma pending_traced_mono: "pending_traced jobs L p a0 tr q \<Longrightarrow> pending_traced jobs L p a0 (tr @ tr') q"
  by (simp add: pending_traced_def asked_mono consented_mono split: if_splits)

text \<open>What a row of the tables was before an event.\<close>

lemma effect_pending_row:
  assumes "effect n ev x y" and "a_pending (fst y) h = Some q"
  shows "a_pending (fst x) h = Some q \<or> (\<exists>q0 r. ev = EvSavePendingAuth q0 r \<and> q = nrm_pending n q0)"
  using assms by (cases x; cases y; cases ev) (auto simp: astore_defs purge_partly_def split: if_splits)

lemma effect_code_row:
  assumes "effect n ev x y" and "a_codes (fst y) h = Some c"
  shows "a_codes (fst x) h = Some c \<or> (\<exists>c0 r. ev = EvSaveAuthCode c0 r \<and> c = nrm_code n c0)"
  using assms by (cases x; cases y; cases ev) (auto simp: astore_defs purge_partly_def split: if_splits)

lemma effect_refresh_row:
  assumes "effect n ev x y" and "a_refresh (fst y) h = Some rt"
  shows "(\<exists>rt0. a_refresh (fst x) h = Some rt0 \<and> rt_ClientID rt = rt_ClientID rt0 \<and> rt_UserID rt = rt_UserID rt0) \<or>
    (\<exists>rt0 r. ev = EvSaveRefreshToken rt0 r \<and> rt_ClientID rt = rt_ClientID rt0 \<and> rt_UserID rt = rt_UserID rt0)"
  using assms
  by (cases x; cases y; cases ev)
    (auto simp: astore_defs purge_partly_def stamp_def refresh_row_def nrm_refresh_def split: option.splits if_splits)

text \<open>A row that is saved now has its chain, for the rows handed over earlier have theirs.\<close>

lemma events_tracedD:
  assumes "events_traced jobs L p a0 tr"
  shows "EvConsumePendingAuth h (Inr (Some q)) \<in> set (thread i tr) \<Longrightarrow> pending_traced jobs L p a0 tr q"
    and "EvConsumeAuthCode h (Inr (Some c)) \<in> set (thread i tr) \<Longrightarrow> coded jobs L p a0 tr c"
    and "EvConsumeRefreshToken h t (Inr (Some rt)) \<in> set (thread i tr) \<Longrightarrow>
      session jobs L p a0 tr (rt_ClientID rt) (rt_UserID rt)"
  using assms by (auto simp: events_traced_def thread_event)

lemma saved_pending:
  assumes "events_traced jobs L p a0 tr" and "i < length jobs"
    and "justifies L p (jobs ! i) (set (thread i tr)) (EvSavePendingAuth q x)"
  shows "pending_traced jobs L p a0 tr q"
proof -
  obtain r where job: "jobs ! i = (AuthorizeEndpoint, r)" and just: "justifies L p (AuthorizeEndpoint, r) (set (thread i tr)) (EvSavePendingAuth q x)"
    using assms(3) by (cases "jobs ! i") auto
  show ?thesis
  proof (cases "pa_Approved q")
    case True
    with just obtain q0 where "pending_traced jobs L p a0 tr q0" "\<not> pa_Approved q0" "same_flow q q0"
      and r: "rq_Method r = ''POST''" "binderMatches p r (pa_BinderHash q)"
      using events_tracedD(1) [OF assms(1)] by fastforce
    then have "asked jobs L p a0 tr q" using asked_flow by (auto simp: pending_traced_def)
    with True r show ?thesis using consented_here [OF assms(2) job] by (simp add: pending_traced_def)
  next
    case False
    with just show ?thesis
      using asked_here [OF assms(2) job] by (auto simp: pending_traced_def thread_event)
  qed
qed

lemma saved_code:
  assumes "events_traced jobs L p a0 tr" and "i < length jobs"
    and "justifies L p (jobs ! i) (set (thread i tr)) (EvSaveAuthCode c x)"
  shows "coded jobs L p a0 tr (nrm_code n c)"
proof -
  obtain r where job: "jobs ! i = (CallbackEndpoint, r)" and just: "justifies L p (CallbackEndpoint, r) (set (thread i tr)) (EvSaveAuthCode c x)"
    using assms(3) by (cases "jobs ! i") auto
  then obtain q email where "EvConsumePendingAuth (HashSecret (values_get (rq_query r) ''state'')) (Inr (Some q)) \<in> set (thread i tr)"
    "pa_Approved q" and r: "binderMatches p r (pa_BinderHash q)" and c: "code_of_flow c q" and login: "google_login L p (values_get (rq_query r) ''code'') (set (thread i tr)) email"
    and user: "(i, EvFindUserIDByEmail email (Inr (Some (ac_UserID c)))) \<in> set tr"
    by (auto simp: thread_event)
  then have "consented jobs L p a0 tr q" using events_tracedD(1) [OF assms(1)] by (auto simp: pending_traced_def)
  from coded_here [OF assms(2) job r this _ login] show ?thesis
    using c user by (simp add: code_of_flow_def nrm_code_def)
qed

lemma saved_refresh:
  assumes "events_traced jobs L p a0 tr" and "i < length jobs"
    and "justifies L p (jobs ! i) (set (thread i tr)) (EvSaveRefreshToken rt x)"
  shows "session jobs L p a0 tr (rt_ClientID rt) (rt_UserID rt)"
proof -
  obtain r where job: "jobs ! i = (TokenEndpoint, r)" and just: "justifies L p (TokenEndpoint, r) (set (thread i tr)) (EvSaveRefreshToken rt x)"
    using assms(3) by (cases "jobs ! i") auto
  then show ?thesis
    using events_tracedD(2,3) [OF assms(1)] session_here [OF assms(2) job] by fastforce
qed

lemma rows_traced_step:
  assumes "rows_traced jobs L p a0 tr a" and "events_traced jobs L p a0 tr" and "i < length jobs"
    and "justifies L p (jobs ! i) (set (thread i tr)) ev" and "effect n ev (a, m) (a', m')"
  shows "rows_traced jobs L p a0 (tr @ [(i, ev)]) a'"
proof -
  have "pending_traced jobs L p a0 tr q" if row: "a_pending a' h = Some q" for h q
  proof -
    consider "a_pending a h = Some q" | q0 r where "ev = EvSavePendingAuth q0 r" "q = nrm_pending n q0"
      using effect_pending_row [OF assms(5), of h q] row by auto
    then show ?thesis
    proof cases
      case 2
      then have "pending_traced jobs L p a0 tr q0" using saved_pending [OF assms(2,3)] assms(4) by simp
      with 2 show ?thesis
        using asked_flow [of jobs L p a0 tr q0 q] consented_flow [of jobs L p a0 tr q0 q]
        by (auto simp: pending_traced_def same_flow_def nrm_pending_def)
    qed (use assms(1) in \<open>auto simp: rows_traced_def\<close>)
  qed
  moreover have "coded jobs L p a0 tr c" if "a_codes a' h = Some c" for h c
    using effect_code_row [OF assms(5), of h c] that assms(1,4) saved_code [OF assms(2,3)]
    by (auto simp: rows_traced_def)
  moreover have "session jobs L p a0 tr (rt_ClientID rt) (rt_UserID rt)" if "a_refresh a' h = Some rt" for h rt
    using effect_refresh_row [OF assms(5), of h rt] that assms(1,4) saved_refresh [OF assms(2,3)]
    by (fastforce simp: rows_traced_def)
  ultimately show ?thesis
    by (auto simp: rows_traced_def intro: pending_traced_mono coded_mono session_mono)
qed

lemma events_traced_step:
  assumes "rows_traced jobs L p a0 tr a" and "events_traced jobs L p a0 tr" and "effect n ev (a, m) (a', m')"
  shows "events_traced jobs L p a0 (tr @ [(i, ev)])"
  using assms
  by (auto simp: events_traced_def rows_traced_def intro: pending_traced_mono coded_mono session_mono)

lemma traced_start: "rows_traced jobs L p a0 [] a0 \<and> events_traced jobs L p a0 []"
  by (auto simp: rows_traced_def events_traced_def pending_traced_def same_flow_def
      intro: asked_before consented_before coded_before session_before)

lemma run_length: "sys_run S s0 tr s \<Longrightarrow> length (sy_procs s) = length (sy_procs s0)"
  by (induction rule: sys_run.induct) (auto elim: sys_stepE)

lemma run_thread:
  assumes "sys_run S s0 tr s" and "i < length (sy_procs s0)" and "along (sy_procs s0 ! i) [] F R"
  shows "length (sy_procs s) = length (sy_procs s0) \<and> along (sy_procs s ! i) (thread i tr) F R"
  using assms(1)
proof induction
  case run_empty
  then show ?case using assms(3) by simp
next
  case (run_step tr s l s')
  from run_step.hyps(2) show ?case
  proof (cases rule: sys_step.cases)
    case (sys_call j A ev P st m)
    then show ?thesis using run_step.IH assms(2) exec1_along [OF sys_call(4)] by (auto simp: nth_list_update)
  qed
qed

lemma run_thread_event:
  assumes "sys_run S s0 tr s1" and "sys_step S s1 (i, ev) s"
    and "i < length (sy_procs s0) \<Longrightarrow> along (sy_procs s0 ! i) [] F R"
  shows "i < length (sy_procs s0) \<and> F (thread i tr @ [ev])"
  using assms(2)
proof (cases rule: sys_step.cases)
  case (sys_call A P st m)
  have "length (sy_procs s1) = length (sy_procs s0)" by (rule run_length [OF assms(1)])
  with sys_call run_thread [OF assms(1) _ assms(3)] exec1_along [OF sys_call(3)] show ?thesis by auto
qed

context store_contract
begin

text \<open>What every justified event keeps holds of every run.\<close>

lemma run_invariant:
  assumes "serving L p jobs s0" and "inv (sy_store s0)" and "sys_run S s0 tr s" and "sane_trace tr"
    and start: "P [] (absf (sy_store s0))"
    and keep: "\<And>tr a m a' m' i ev. P tr a \<Longrightarrow> sane_trace tr \<Longrightarrow> i < length jobs \<Longrightarrow>
      justifies L p (jobs ! i) (set (thread i tr)) ev \<Longrightarrow> effect nrm ev (a, m) (a', m') \<Longrightarrow> P (tr @ [(i, ev)]) a'"
  shows "P tr (absf (sy_store s))"
  using assms(3,4)
proof (induction tr arbitrary: s rule: rev_induct)
  case (snoc l tr)
  obtain i ev where l: "l = (i, ev)" by force
  from snoc.prems(1) obtain s1 where run: "sys_run S s0 tr s1" and step: "sys_step S s1 (i, ev) s"
    by (auto simp: sys_run_snoc l)
  have sane: "sane_trace tr" using snoc.prems(2) by (simp add: sane_trace_def)
  have "along (sy_procs s0 ! i) [] (justified L p (jobs ! i)) anything" if "i < length (sy_procs s0)"
    using assms(1) that justified_serve [of L p "fst (jobs ! i)" "snd (jobs ! i)"] by (simp add: serving_def split_beta)
  from run_thread_event [OF run step this]
  have "i < length jobs \<and> justifies L p (jobs ! i) (set (thread i tr)) ev"
    using assms(1) by (simp add: serving_def justified_snoc)
  moreover have "event_ok ev" using serving_ok [OF assms(1) snoc.prems, of i ev] by (simp add: l)
  with step_effect [OF step] serving_ahist(1) [OF assms(1) run sane assms(2)]
  have "effect nrm ev (absf (sy_store s1), sy_mem s1) (absf (sy_store s), sy_mem s)"
    by (simp add: view_def)
  ultimately show ?case
    using keep [OF snoc.IH [OF run sane] sane] by (simp add: l)
qed (simp add: start)

lemma run_traced:
  assumes "serving L p jobs s0" and "inv (sy_store s0)" and "sys_run S s0 tr s" and "sane_trace tr"
  shows "rows_traced jobs L p (absf (sy_store s0)) tr (absf (sy_store s)) \<and> events_traced jobs L p (absf (sy_store s0)) tr"
  by (rule run_invariant [OF assms, where P = "\<lambda>tr a. rows_traced jobs L p (absf (sy_store s0)) tr a \<and> events_traced jobs L p (absf (sy_store s0)) tr"])
    (simp add: traced_start, metis rows_traced_step events_traced_step)

end

section \<open>Property\<close>

lemma paid_token_traced:
  assumes "events_traced jobs L p a0 tr" and "i < length jobs" and "jobs ! i = (TokenEndpoint, r)"
    and "presented_by r userID (set (thread i tr))"
  shows "\<exists>client. session jobs L p a0 tr client userID"
  using assms(4) events_tracedD(2,3) [OF assms(1)] session_here [OF assms(2,3)]
  unfolding presented_by_def by blast

text \<open>
  C1. No token without consent and login. Whatever requests are in flight and however they are
  interleaved: every refresh token in the store, and every access token in an answer of the
  token endpoint, is for a user whose verified Google account was logged in for the flow, in the
  browser that had approved it, and for a registered client that had asked for it with one of its
  redirect URIs and met the challenge it had set - unless it comes from a row the store held at the start.
\<close>

theorem no_token_without_consent:
  assumes "store_contract S absf I nrm" and "I (sy_store s0)" and "serving L p jobs s0"
    and "sys_run S s0 tr s" and "sane_trace tr"
  shows "(\<forall>h rt. a_refresh (absf (sy_store s)) h = Some rt \<longrightarrow>
       session jobs L p (absf (sy_store s0)) tr (rt_ClientID rt) (rt_UserID rt)) \<and>
    (\<forall>i r resp. i < length jobs \<longrightarrow> jobs ! i = (TokenEndpoint, r) \<longrightarrow> sy_procs s ! i = Ret resp \<longrightarrow> rs_status resp = 200 \<longrightarrow>
       (\<exists>body client userID now. rs_body resp = TokenBody body \<and>
          issueAccessToken L p userID now = Inr (tr_AccessToken body) \<and>
          session jobs L p (absf (sy_store s0)) tr client userID))"
proof -
  note traced = store_contract.run_traced [OF assms(1,3,2,4,5)]
  have "\<exists>body client userID now. rs_body resp = TokenBody body \<and> issueAccessToken L p userID now = Inr (tr_AccessToken body) \<and>
      session jobs L p (absf (sy_store s0)) tr client userID"
    if i: "i < length jobs" "jobs ! i = (TokenEndpoint, r)" and resp: "sy_procs s ! i = Ret resp" "rs_status resp = 200" for i r resp
  proof -
    have "sy_procs s0 ! i = Token L p r" "i < length (sy_procs s0)"
      using assms(3) i by (simp_all add: serving_def serve_def)
    then have "paid_for L p r resp (thread i tr)"
      using run_thread [OF assms(4), of i "\<lambda>_. True" "paid_for L p r"] paid_Token resp(1) by simp
    then show ?thesis
      using traced resp(2) paid_token_traced [OF _ i] by (fastforce simp: paid_for_def)
  qed
  with traced show ?thesis by (auto simp: rows_traced_def)
qed

text \<open>The flow of \<open>Complete_Flow\<close>: the tables hold no flow, code or session at the start.\<close>

theorem no_token_without_consent_witness:
  "a_pending (sample_abs (sy_store flow_sys)) = Map.empty \<and> a_codes (sample_abs (sy_store flow_sys)) = Map.empty \<and>
   a_refresh (sample_abs (sy_store flow_sys)) = Map.empty \<and>
   (\<exists>tr s resp. sys_run sample_ops flow_sys tr s \<and> sy_procs s ! 3 = Ret resp \<and> rs_status resp = 200 \<and>
      session flow_jobs flow_lib sample_provider (sample_abs (sy_store flow_sys)) tr ''app'' ''alice'')"
proof -
  obtain m rs tr s where run: "sane_trace tr" "sys_run sample_ops flow_sys tr s" and
    s: "s = \<lparr>sy_store = after_login\<lparr>ms_codes := [], ms_refresh := [(HashSecret drawn, flow_row_issued)]\<rparr>,
          sy_mem = m, sy_procs = map Ret rs @ drop (length rs) (sy_procs flow_sys)\<rparr>"
    and rs: "length rs = 4" "rs_status (rs ! 3) = 200"
    using complete_flow unfolding answered_so_far_def by blast
  have start: "sy_store flow_sys = before_flow" and inv: "mem_inv before_flow"
    by (simp_all add: flow_sys_def mem_inv_def before_flow_def NewMemoryStore_def)
  have "serving flow_lib sample_provider flow_jobs flow_sys"
    by (simp add: serving_def flow_sys_def)
  from no_token_without_consent [OF sample_contract _ this run(2,1)] inv
  have "\<forall>h rt. a_refresh (sample_abs (sy_store s)) h = Some rt \<longrightarrow>
      session flow_jobs flow_lib sample_provider (sample_abs (sy_store flow_sys)) tr (rt_ClientID rt) (rt_UserID rt)"
    by (simp add: start)
  then have "session flow_jobs flow_lib sample_provider (sample_abs (sy_store flow_sys)) tr ''app'' ''alice''"
    by (auto simp: s mem_abs_def flow_row_issued_def issued_row_def dest: spec [of _ "HashSecret drawn"])
  moreover have "sy_procs s ! 3 = Ret (rs ! 3)"
    using rs by (simp add: s nth_append)
  ultimately show ?thesis
    using run(2) rs(2) by (auto simp: start mem_abs_def before_flow_def NewMemoryStore_def)
qed

end
