(* ===== verification/Lifetimes.thy ===== *)
theory Lifetimes
  imports Provenance
begin

text \<open>
  How long a session can last, whatever requests are in flight and however they are interleaved.
  Every rotation starts the clock of the token again, but not that of its family: the family
  began when a code was exchanged, or with a row the store held at the start, and no
  rotation moves that instant or lets a token live past it by more than the absolute lifetime.
\<close>

section \<open>When a session began\<close>

inductive began :: "(endpoint \<times> request) list \<Rightarrow> astore \<Rightarrow> (nat \<times> event) list \<Rightarrow> string \<Rightarrow> string \<Rightarrow> time \<Rightarrow> bool"
  for jobs a0 tr where
  began_before: "a_refresh a0 h = Some rt \<Longrightarrow> began jobs a0 tr (rt_ClientID rt) (rt_UserID rt) (began_at rt)"
| began_here: "i < length jobs \<Longrightarrow> fst (jobs ! i) = TokenEndpoint \<Longrightarrow> (i, EvConsumeAuthCode h (Inr (Some c))) \<in> set tr \<Longrightarrow>
    (i, EvNow t) \<in> set tr \<Longrightarrow> began jobs a0 tr (ac_ClientID c) (ac_UserID c) t"

lemma began_mono: "began jobs a0 tr c u t \<Longrightarrow> began jobs a0 (tr @ tr') c u t"
  by (induction rule: began.induct) (auto intro: began.intros)

text \<open>
  The stored instants are rounded by \<open>R\<close>; what was read back is not rounded again.
\<close>

definition steady :: "(time \<Rightarrow> time) \<Rightarrow> astore \<Rightarrow> bool" where
  "steady R a0 \<longleftrightarrow> (\<forall>t. clock_floor \<le> t \<longrightarrow> 0 < R t \<and> R (R t) = R t) \<and> (\<forall>t t'. t \<le> t' \<longrightarrow> R t \<le> R t') \<and> R 0 = 0 \<and>
     (\<forall>h rt. a_refresh a0 h = Some rt \<longrightarrow> R (began_at rt) = began_at rt)"

lemma began_steady: "began jobs a0 tr c u t \<Longrightarrow> steady R a0 \<Longrightarrow> sane_trace tr \<Longrightarrow> R (R t) = R t"
  by (induction rule: began.induct) (force simp: steady_def sane_trace_def)+

section \<open>The invariant\<close>

definition dated where
  "dated R p jobs a0 tr h rt \<longleftrightarrow> (\<exists>t. began jobs a0 tr (rt_ClientID rt) (rt_UserID rt) t \<and> began_at rt = R t \<and>
     (rt_ExpiresAt rt \<le> R (max t (R t) + RefreshTokenAbsoluteTTL (cfg p)) \<or>
      (\<exists>rt0. a_refresh a0 h = Some rt0 \<and> rt_ExpiresAt rt = rt_ExpiresAt rt0)))"

lemma dated_mono: "dated R p jobs a0 tr h rt \<Longrightarrow> dated R p jobs a0 (tr @ tr') h rt"
  unfolding dated_def using began_mono by blast

definition rows_dated where
  "rows_dated R p jobs a0 tr a \<longleftrightarrow> (\<forall>h rt. a_refresh a h = Some rt \<longrightarrow> dated R p jobs a0 tr h rt)"

definition events_dated where
  "events_dated R p jobs a0 tr \<longleftrightarrow>
     (\<forall>i h t rt. (i, EvConsumeRefreshToken h t (Inr (Some rt))) \<in> set tr \<longrightarrow> dated R p jobs a0 tr h rt)"

text \<open>A row of the tables was there before, but for its stamp, or was saved.\<close>

lemma effect_old_row:
  assumes "effect n ev x y" and "a_refresh (fst y) h = Some rt"
    and "\<nexists>rt0 r. ev = EvSaveRefreshToken rt0 r" and "\<nexists>k t r. ev = EvConsumeRefreshToken k t r"
  shows "a_refresh (fst x) h = Some rt"
  using assms by (cases x; cases y; cases ev) (auto simp: astore_defs purge_partly_def split: if_splits)

lemma stamped_row:
  assumes "a_refresh (stamp_refresh k t a) h = Some rt"
  shows "\<exists>rt0. a_refresh a h = Some rt0 \<and> (rt = rt0 \<or> rt = rt0\<lparr>rt_ConsumedAt := t\<rparr>)"
  using assms by (auto simp: stamp_refresh_def stamp_def split: option.splits if_splits)

lemma effect_dated_row:
  assumes "effect n ev x y" and "a_refresh (fst y) h = Some rt"
  shows "(\<exists>rt0 t. a_refresh (fst x) h = Some rt0 \<and> (rt = rt0 \<or> rt = rt0\<lparr>rt_ConsumedAt := t\<rparr>)) \<or>
    (\<exists>rt0 r. ev = EvSaveRefreshToken rt0 r \<and> refresh_row n rt0 rt)"
proof (cases "\<exists>k t r. ev = EvConsumeRefreshToken k t r")
  case True
  then show ?thesis using assms stamped_row by (cases x; cases y) fastforce
next
  case False
  show ?thesis
  proof (cases "\<exists>rt0 r. ev = EvSaveRefreshToken rt0 r")
    case True
    then show ?thesis using assms by (cases x; cases y) (auto simp: put_refresh_def split: if_splits)
  qed (use effect_old_row [OF assms] False in blast)
qed

lemma dated_stamped: "dated R p jobs a0 tr h (rt\<lparr>rt_ConsumedAt := t\<rparr>) = dated R p jobs a0 tr h rt"
  by (simp add: dated_def began_at_def)

lemma saved_dated:
  assumes "events_dated (r_refresh n) p jobs a0 tr" and "steady (r_refresh n) a0" and "sane_trace tr" and "i < length jobs"
    and "justifies L p (jobs ! i) (set (thread i tr)) (EvSaveRefreshToken rt0 x)" and "refresh_row n rt0 rt"
  shows "dated (r_refresh n) p jobs a0 tr h rt"
proof -
  let ?R = "r_refresh n" and ?start = "rt_FamilyCreatedAt rt0"
  from assms(5) have job: "fst (jobs ! i) = TokenEndpoint" and fresh: "IsZero (rt_ConsumedAt rt0)"
    and cap: "rt_ExpiresAt rt0 \<le> ?start + RefreshTokenAbsoluteTTL (cfg p)"
    by (cases "jobs ! i"; simp)+
  have rt: "rt = nrm_refresh n rt0" using assms(6) fresh by simp
  have "\<exists>t. began jobs a0 tr (rt_ClientID rt0) (rt_UserID rt0) t \<and> ?R ?start = ?R t \<and> ?R ?start \<noteq> 0 \<and> ?start \<le> max t (?R t)"
  proof (cases "\<exists>h c. (i, EvConsumeAuthCode h (Inr (Some c))) \<in> set tr \<and> ac_ClientID c = rt_ClientID rt0 \<and>
      ac_UserID c = rt_UserID rt0 \<and> (i, EvNow ?start) \<in> set tr")
    case True
    then have "began jobs a0 tr (rt_ClientID rt0) (rt_UserID rt0) ?start" using began_here [OF assms(4) job] by metis
    moreover from True have "?R ?start \<noteq> 0" using assms(2,3) by (force simp: steady_def sane_trace_def)
    ultimately show ?thesis by auto
  next
    case False
    with assms(5) obtain k t rt1 where "(i, EvConsumeRefreshToken k t (Inr (Some rt1))) \<in> set tr"
      "rt_ClientID rt1 = rt_ClientID rt0" "rt_UserID rt1 = rt_UserID rt0" and nz: "?start \<noteq> 0" and start: "?start = began_at rt1"
      by (cases "jobs ! i") (auto simp: thread_event)
    then obtain t where t: "began jobs a0 tr (rt_ClientID rt0) (rt_UserID rt0) t" "?start = ?R t"
      using assms(1) unfolding events_dated_def dated_def by metis
    with began_steady [OF t(1) assms(2,3)] nz show ?thesis by auto
  qed
  then obtain t where t: "began jobs a0 tr (rt_ClientID rt0) (rt_UserID rt0) t" "?R ?start = ?R t" "?R ?start \<noteq> 0" "?start \<le> max t (?R t)"
    by blast
  have "?R (rt_ExpiresAt rt0) \<le> ?R (max t (?R t) + RefreshTokenAbsoluteTTL (cfg p))"
    using assms(2) cap t(4) by (auto simp: steady_def)
  with t show ?thesis
    by (auto simp: dated_def rt nrm_refresh_def began_at_def)
qed

lemma rows_dated_step:
  assumes "rows_dated (r_refresh n) p jobs a0 tr a" and "events_dated (r_refresh n) p jobs a0 tr"
    and "steady (r_refresh n) a0" and "sane_trace tr" and "i < length jobs"
    and "justifies L p (jobs ! i) (set (thread i tr)) ev" and "effect n ev (a, m) (a', m')"
  shows "rows_dated (r_refresh n) p jobs a0 (tr @ [(i, ev)]) a'"
proof -
  have "dated (r_refresh n) p jobs a0 tr h rt" if "a_refresh a' h = Some rt" for h rt
    using effect_dated_row [OF assms(7), of h rt] that assms(1,6) saved_dated [OF assms(2-5), where rt = rt]
    by (auto simp: rows_dated_def dated_stamped)
  then show ?thesis by (auto simp: rows_dated_def intro: dated_mono)
qed

lemma events_dated_step:
  assumes "rows_dated R p jobs a0 tr a" and "events_dated R p jobs a0 tr" and "effect n ev (a, m) (a', m')"
  shows "events_dated R p jobs a0 (tr @ [(i, ev)])"
  using assms by (auto simp: events_dated_def rows_dated_def intro: dated_mono)

lemma dated_start: "steady R a0 \<Longrightarrow> rows_dated R p jobs a0 [] a0 \<and> events_dated R p jobs a0 []"
  by (auto simp: rows_dated_def events_dated_def dated_def steady_def intro!: exI began_before)

context store_contract
begin

lemma run_dated:
  assumes "serving L p jobs s0" and "inv (sy_store s0)" and "sys_run S s0 tr s" and "sane_trace tr"
    and "steady (r_refresh nrm) (absf (sy_store s0))"
  shows "rows_dated (r_refresh nrm) p jobs (absf (sy_store s0)) tr (absf (sy_store s))"
proof -
  have "rows_dated (r_refresh nrm) p jobs (absf (sy_store s0)) tr (absf (sy_store s)) \<and>
      events_dated (r_refresh nrm) p jobs (absf (sy_store s0)) tr"
    by (rule run_invariant [OF assms(1-4), where
          P = "\<lambda>tr a. rows_dated (r_refresh nrm) p jobs (absf (sy_store s0)) tr a \<and> events_dated (r_refresh nrm) p jobs (absf (sy_store s0)) tr"])
      (simp add: dated_start assms(5), metis rows_dated_step events_dated_step assms(5))
  then show ?thesis ..
qed

end

section \<open>Property\<close>

text \<open>A session that began an hour ago is continued.\<close>

definition continued :: refresh_token where
  "continued = issued_row sample_provider drawn ''app'' ''alice'' ''family'' (sample_now - hour) sample_now"

lemma sample_rotation:
  "\<exists>tr s. sys_run sample_ops (pair_sys sample_refresh_request 0) tr s \<and> sane_trace tr \<and>
     a_refresh (sample_abs (sy_store s)) (HashSecret drawn) = Some continued"
proof -
  have "\<exists>tr s. play sample_ops (turns [0, 0, 0, 0, 0, 0, 0, 0]) (pair_sys sample_refresh_request 0) = Some (tr, s) \<and> sane_trace tr \<and>
     a_refresh (sample_abs (sy_store s)) (HashSecret drawn) = Some continued"
    by (simp add: Token_refresh [OF sample_complete(2)] refreshTokenGrant_def rotate_first_use_def continued_def
        drawn_def mem_abs_def play_defs)
  then show ?thesis using play_run by blast
qed

text \<open>
  C9. No session outlives its absolute lifetime. Whatever requests are in flight and however
  they are interleaved: the family of every refresh token in the store began when a code of
  its client and user was exchanged, or with a row the store held at the start, and no rotation
  has moved that instant; and a token that was issued in between expires at most the absolute
  lifetime after it, up to the rounding of the store. The store must give instants back as it read them.
\<close>

theorem session_lifetime_capped:
  assumes "store_contract S absf I nrm" and "I (sy_store s0)" and "serving L p jobs s0"
    and "sys_run S s0 tr s" and "sane_trace tr"
    and "\<And>t. clock_floor \<le> t \<Longrightarrow> r_refresh nrm (r_refresh nrm t) = r_refresh nrm t"
    and "\<And>h rt. a_refresh (absf (sy_store s0)) h = Some rt \<Longrightarrow> r_refresh nrm (began_at rt) = began_at rt"
    and "a_refresh (absf (sy_store s)) h = Some rt"
  shows "\<exists>t. began jobs (absf (sy_store s0)) tr (rt_ClientID rt) (rt_UserID rt) t \<and> began_at rt = r_refresh nrm t \<and>
    (rt_ExpiresAt rt \<le> r_refresh nrm (max t (r_refresh nrm t) + RefreshTokenAbsoluteTTL (cfg p)) \<or>
     (\<exists>rt0. a_refresh (absf (sy_store s0)) h = Some rt0 \<and> rt_ExpiresAt rt = rt_ExpiresAt rt0))"
proof -
  have "steady (r_refresh nrm) (absf (sy_store s0))"
    using assms(6,7) store_contract.nrm_zero [OF assms(1)] store_contract.nrm_pos [OF assms(1)]
      store_contract.nrm_mono(2) [OF assms(1)] by (simp add: steady_def)
  from store_contract.run_dated [OF assms(1,3,2,4,5) this] assms(8)
  show ?thesis by (auto simp: rows_dated_def dated_def)
qed

theorem session_lifetime_capped_witness:
  "\<exists>tr s. sys_run sample_ops (pair_sys sample_refresh_request 0) tr s \<and>
     a_refresh (sample_abs (sy_store s)) (HashSecret drawn) = Some continued \<and>
     began (pair_jobs sample_refresh_request) (sample_abs (sample_store 0)) tr ''app'' ''alice'' (sample_now - hour) \<and>
     rt_ExpiresAt continued \<le> sample_now - hour + 2160 * hour"
proof -
  obtain tr s where run: "sys_run sample_ops (pair_sys sample_refresh_request 0) tr s" "sane_trace tr"
    and rt: "a_refresh (sample_abs (sy_store s)) (HashSecret drawn) = Some continued"
    using sample_rotation by blast
  have old: "began_at continued = sample_now - hour" "rt_ExpiresAt continued = sample_now + 720 * hour"
    by (simp_all add: began_at_def continued_def sample_now_def)
  have "rt_ExpiresAt rt0 \<noteq> rt_ExpiresAt continued" if "a_refresh (sample_abs (sample_store 0)) k = Some rt0" for k rt0
    using that by (auto simp: old mem_abs_def sample_store_def split: if_splits)
  then show ?thesis
    using session_lifetime_capped [OF sample_contract _ pair_serving run _ _ rt] run(1) rt old
    by (fastforce simp: continued_def)
qed

end
