(* ===== verification/Answered.thy ===== *)
theory Answered
  imports Races Race_Properties
begin

text \<open>
  Every request is answered: each endpoint makes at most \<open>max_calls\<close> calls, whatever they answer,
  and a request that is not answered yet can always make its next call. So any number of requests
  in flight are finished after a bounded number of steps, however they are scheduled.
\<close>

section \<open>Calls of one request\<close>

definition max_calls :: nat where "max_calls = 24"

abbreviation within :: "nat \<Rightarrow> event list \<Rightarrow> bool" where
  "within n \<equiv> \<lambda>h. length h \<le> n"

abbreviation whatever :: "'a \<Rightarrow> event list \<Rightarrow> bool" where
  "whatever \<equiv> \<lambda>_ _. True"

lemma within_issue: "length h + 8 \<le> n \<Longrightarrow> along (issueTokenPair L p w prev c u f start) h (within n) whatever"
  by (simp add: handler_defs answer_cases)

lemma within_replay: "length h + 8 \<le> n \<Longrightarrow> along (replayedRefreshToken L p w rt k c now) h (within n) whatever"
  by (simp add: handler_defs Let_def answer_cases split: option.split)

lemma within_code: "length h + 14 \<le> n \<Longrightarrow> along (authorizationCodeGrant L p w r) h (within n) whatever"
  by (auto simp add: authorizationCodeGrant_def randomToken_def Let_def answer_cases within_issue)

lemma within_Token: "along (Token L p r) [] (within max_calls) whatever"
  by (auto simp add: Token_def refreshTokenGrant_def rotate_first_use_def Let_def answer_cases max_calls_def
      within_code within_issue within_replay split: prod.split sum.split)

lemma within_jwks_fetch:
  assumes "\<And>r h'. length h' \<le> length h + 3 \<Longrightarrow> along (k r) h' (within n) whatever" and "length h + 3 \<le> n"
  shows "along (jwks_fetch p k) h (within n) whatever"
  using assms by (simp add: jwks_fetch_def Let_def answer_cases split: sum.split)

lemma within_jwks_key:
  assumes "\<And>r h'. length h' \<le> length h + 7 \<Longrightarrow> along (k r) h' (within n) whatever" and "length h + 7 \<le> n"
  shows "along (jwks_key p kid k) h (within n) whatever"
proof -
  have "along (jwks_refresh p kid known expires k) h' (within n) whatever" if "length h' \<le> length h + 2" for known expires h'
    unfolding jwks_refresh_def
    by (rule within_jwks_fetch) (use assms that in \<open>auto simp: jwks_store_def split: sum.split option.split\<close>)
  then show ?thesis
    using assms by (auto simp: jwks_key_def Let_def split: option.split)
qed

lemma within_exchange:
  assumes "\<And>r h'. length h' \<le> length h + 10 \<Longrightarrow> along (k r) h' (within n) whatever" and "length h + 10 \<le> n"
  shows "along (exchangeGoogleCode L p code k) h (within n) whatever"
proof -
  have "along (verifyGoogleIDToken L p idToken k) h' (within n) whatever" if "length h' \<le> length h + 1" for idToken h'
    using that assms
    by (auto simp: verifyGoogleIDToken_def split: sum.split intro!: within_jwks_key)
  then show ?thesis
    using assms by (simp add: exchangeGoogleCode_def Let_def answer_cases split: sum.split)
qed

lemma within_maybePurge:
  assumes "\<And>h'. length h' \<le> length h + 5 \<Longrightarrow> along k h' (within n) whatever" and "length h + 5 \<le> n"
  shows "along (maybePurge p k) h (within n) whatever"
  using assms by (simp add: maybePurge_def Provider_PurgeExpired_def answer_cases)

lemma within_authorizeConsent: "along (authorizeConsent L p w r) [] (within max_calls) whatever"
  by (auto simp: authorizeConsent_def start_consent_def randomToken_def Let_def answer_cases
      max_calls_def split: sum.split option.split intro!: within_maybePurge)

lemma within_authorizeApprove: "along (authorizeApprove p w r) [] (within max_calls) whatever"
  by (simp add: authorizeApprove_def randomToken_def Let_def answer_cases max_calls_def split: sum.split)

lemma within_finish_login:
  assumes "length h + 18 \<le> n"
  shows "along (finish_login L p w r pending) h (within n) whatever"
  using assms
  by (auto simp: finish_login_def issue_code_def extendClient_def randomToken_def Let_def answer_cases
      split: sum.split intro!: within_exchange)

lemma within_GoogleCallback: "along (GoogleCallback L p r) [] (within max_calls) whatever"
  by (auto simp add: GoogleCallback_def Let_def answer_cases max_calls_def within_finish_login)

lemma within_Register: "along (Register L p r) [] (within max_calls) whatever"
  by (simp add: Register_def allowCORS_def randomToken_def Let_def answer_cases max_calls_def split: sum.split)

lemma within_documents:
  "along (AuthorizationServerMetadata p r) [] (within max_calls) whatever"
  "along (ProtectedResourceMetadata p r) [] (within max_calls) whatever"
  by (simp_all add: AuthorizationServerMetadata_def ProtectedResourceMetadata_def read_document_def allowCORS_def Let_def)

lemma within_serve: "along (serve L p e r) [] (within max_calls) whatever"
  by (cases e) (simp_all add: serve_def Authorize_def within_Token within_authorizeConsent within_authorizeApprove
      within_GoogleCallback within_Register within_documents)

section \<open>Steps of a system\<close>

lemma exec1_None: "exec1 S A P (s, m) = None \<longleftrightarrow> (\<exists>x. P = Ret x)"
  by (cases P) (auto simp: Let_def split: prod.splits)

lemma unanswered_steps:
  assumes "i < length (sy_procs s)" and "\<And>resp. sy_procs s ! i \<noteq> Ret resp"
  shows "\<exists>ev s'. sys_step S s (i, ev) s'"
proof -
  obtain ev P st m where "exec1 S undefined (sy_procs s ! i) (sy_store s, sy_mem s) = Some (ev, P, st, m)"
    using assms(2) exec1_None [of S undefined "sy_procs s ! i" "sy_store s" "sy_mem s"] by force
  then show ?thesis using sys_call [OF assms(1)] by blast
qed

lemma length_threads: "\<forall>l \<in> set tr. fst l < n \<Longrightarrow> length tr = (\<Sum>i<n. length (thread i tr))"
proof (induction tr)
  case (Cons l tr)
  obtain j ev where l: "l = (j, ev)" by force
  have "(\<Sum>i<n. length (thread i (l # tr))) = (\<Sum>i<n. length (thread i tr) + (if i = j then 1 else 0))"
    by (rule sum.cong) (simp_all add: l)
  then show ?case using Cons by (simp add: l sum.distrib)
qed simp

lemma thread_within:
  assumes "serving L p jobs s0" and "sys_run S s0 tr s"
  shows "length (thread i tr) \<le> max_calls"
  using assms(2)
proof (induction tr arbitrary: s rule: rev_induct)
  case (snoc l tr)
  obtain j ev where l: "l = (j, ev)" by force
  from snoc.prems obtain s1 where run: "sys_run S s0 tr s1" by (auto simp: sys_run_snoc)
  have "along (sy_procs s0 ! i) [] (within max_calls) whatever" if "i < length (sy_procs s0)" for i
    using assms(1) that within_serve by (auto simp: serving_def split: prod.split)
  from run_event [OF _ this, of S tr j ev "[]" s] snoc.prems
  have "length (thread j tr @ [ev]) \<le> max_calls" by (simp add: l)
  then show ?case using snoc.IH [OF run] by (cases "i = j") (simp_all add: l)
qed simp

section \<open>Property\<close>

text \<open>
  C18. Requests are answered: with any number of requests in flight to any of the endpoints,
  whatever their calls answer and however they are interleaved, no more than \<open>max_calls\<close>
  calls are made for each, and a request that has no response yet can always go on with its
  next call; so an execution that goes on for as long as it can ends with all of them answered.
\<close>

theorem requests_finish:
  assumes "serving L p jobs s0" and "sys_run S s0 tr s"
  shows "length tr \<le> max_calls * length jobs \<and>
    (\<forall>i < length jobs. (\<exists>resp. sy_procs s ! i = Ret resp) \<or> (\<exists>ev s'. sys_step S s (i, ev) s'))"
proof
  have "\<forall>l \<in> set tr. fst l < length jobs"
    using serving_event(1) [OF assms(1)] assms(2) by (metis prod.collapse split_list)
  then have "length tr = (\<Sum>i<length jobs. length (thread i tr))" by (rule length_threads)
  also have "\<dots> \<le> max_calls * length jobs"
    using sum_bounded_above [of "{..<length jobs}" "\<lambda>i. length (thread i tr)" max_calls] thread_within [OF assms]
    by (simp add: mult.commute)
  finally show "length tr \<le> max_calls * length jobs" .
  have "length (sy_procs s) = length jobs"
    using run_along [OF assms(2) serving_along [OF assms(1)]] assms(1) by (simp add: serving_def)
  then show "\<forall>i < length jobs. (\<exists>resp. sy_procs s ! i = Ret resp) \<or> (\<exists>ev s'. sys_step S s (i, ev) s')"
    using unanswered_steps by metis
qed

theorem requests_finish_witness:
  "\<exists>tr s. sys_run sample_ops (pair_sys sample_refresh_request 0) tr s \<and> tr \<noteq> [] \<and> length tr \<le> max_calls * 2"
proof -
  obtain tr s r0 where run: "sys_run sample_ops (pair_sys sample_refresh_request 0) tr s" and "length tr = 12"
    using revocation_race by blast
  moreover have "length tr \<le> max_calls * 2" using requests_finish [OF pair_serving run] by simp
  ultimately show ?thesis by force
qed

end
