(* ===== verification/Pgstore.thy ===== *)
theory Pgstore
  imports Store
begin

text \<open>
  The PostgreSQL store (\<open>pgstore/pgstore.go\<close>). A table is the list of its rows, and each
  SQL statement of the source is the function its text denotes on the tables; a statement is
  atomic, and it may fail before it took effect (\<open>LostBefore\<close>: the connection is lost, or the
  server refuses a text with a NUL byte) or after it (\<open>LostAfter\<close>). The driver's and the server's
  treatment of instants is a parameter, with what is documented of it in \<open>pg_documented\<close>. The
  list of redirect URIs is stored as itself: JSON text gives back the strings it was made of.
\<close>

section \<open>Instants in the database\<close>

text \<open>
  A \<open>TIMESTAMPTZ\<close> column keeps microseconds, which the driver or the server reaches by
  truncating or by rounding (\<open>pg_keep\<close>). What is scanned (\<open>pg_load\<close>) is the kept
  instant from the year two on; the time zone of the session (\<open>pg_zone\<close>, in seconds east
  of UTC, what it was in year one) may displace earlier ones, by less than a day.
\<close>

record pg_conversion =
  pg_keep :: "time \<Rightarrow> time"
  pg_load :: "time \<Rightarrow> time"
  pg_zone :: int

definition pg_documented :: "pg_conversion \<Rightarrow> bool" where
  "pg_documented D \<longleftrightarrow> mono (pg_keep D) \<and> (\<forall>t. \<bar>pg_keep D t - t\<bar> \<le> 1000) \<and>
     strict_mono (pg_load D) \<and> (\<forall>t. \<bar>pg_load D t - t\<bar> < 24 * hour) \<and>
     (\<forall>t. clock_floor - 1000 \<le> t \<longrightarrow> pg_load D t = t) \<and> \<bar>pg_zone D\<bar> < 86400"

text \<open>\<open>t.Year() <= 1\<close> in the location of the session: year one has 365 days.\<close>

definition year_one :: "pg_conversion \<Rightarrow> time \<Rightarrow> bool" where
  "year_one D t \<longleftrightarrow> t + pg_zone D * second < 365 * 24 * hour"

definition normalizeZeroTime :: "pg_conversion \<Rightarrow> time \<Rightarrow> time" where
  "normalizeZeroTime D t = (if year_one D t then zero_time else t)"

section \<open>Tables and statements\<close>

text \<open>The rows of the first three tables have the columns of the records they store.\<close>

record pg_refresh =
  token_hash :: string
  tok_client_id :: string
  tok_user_id :: string
  family_id :: string
  family_created_at :: time
  family_expires_at :: time
  tok_expires_at :: time
  tok_created_at :: time
  consumed_at :: "time option"

record pg_tables =
  t_clients :: "client list"
  t_codes :: "auth_code list"
  t_pending :: "pending_auth list"
  t_refresh :: "pg_refresh list"

datatype fault = NoFault | LostBefore | LostAfter

record pg_store =
  pg_db :: pg_tables
  pg_faults :: "fault list"

text \<open>The \<open>Store\<close> struct: what the handle does to instants, and the application's user lookup.\<close>

record pgstore =
  conv :: pg_conversion
  userLookup :: "string \<Rightarrow> string option res"

definition select_row :: "('r \<Rightarrow> string) \<Rightarrow> string \<Rightarrow> 'r list \<Rightarrow> 'r option" where
  "select_row key k rows = find (\<lambda>r. key r = k) rows"

definition insert_row :: "('r \<Rightarrow> string) \<Rightarrow> 'r \<Rightarrow> 'r list \<Rightarrow> 'r list res" where
  "insert_row key r rows =
     (if select_row key (key r) rows = None then Inr (rows @ [r])
      else Inl ''duplicate key value violates unique constraint'')"

definition delete_rows :: "('r \<Rightarrow> bool) \<Rightarrow> 'r list \<Rightarrow> 'r list" where
  "delete_rows P rows = filter (\<lambda>r. \<not> P r) rows"

definition update_rows :: "('r \<Rightarrow> bool) \<Rightarrow> ('r \<Rightarrow> 'r) \<Rightarrow> 'r list \<Rightarrow> 'r list" where
  "update_rows P f rows = map (\<lambda>r. if P r then f r else r) rows"

text \<open>\<open>ExecContext\<close> and \<open>QueryRowContext\<close>: one statement, which may be lost on the way.\<close>

definition statement :: "(pg_tables \<Rightarrow> 'a res \<times> pg_tables) \<Rightarrow> pg_store \<Rightarrow> 'a res \<times> pg_store" where
  "statement q s =
     (let (r, d) = q (pg_db s); s' = s\<lparr>pg_faults := tl (pg_faults s)\<rparr>
      in case pg_faults s of
           LostBefore # _ \<Rightarrow> (Inl ''connection lost'', s')
         | LostAfter # _ \<Rightarrow> (Inl ''connection lost'', s'\<lparr>pg_db := d\<rparr>)
         | _ \<Rightarrow> (r, s'\<lparr>pg_db := d\<rparr>))"

definition wrap_error :: "string \<Rightarrow> 'a res \<times> 's \<Rightarrow> 'a res \<times> 's" where
  "wrap_error what = apfst (\<lambda>r. case r of Inl e \<Rightarrow> Inl (what @ '': '' @ e) | Inr x \<Rightarrow> Inr x)"

text \<open>\<open>INSERT\<close> into one table; a duplicate key leaves it as it was.\<close>

definition insert_statement ::
  "('r \<Rightarrow> string) \<Rightarrow> (pg_tables \<Rightarrow> 'r list) \<Rightarrow> ('r list \<Rightarrow> pg_tables \<Rightarrow> pg_tables) \<Rightarrow> 'r \<Rightarrow> pg_tables \<Rightarrow> unit res \<times> pg_tables" where
  "insert_statement key tab set_tab r d =
     (case insert_row key r (tab d) of Inl e \<Rightarrow> (Inl e, d) | Inr rows \<Rightarrow> (Inr (), set_tab rows d))"

section \<open>Operations\<close>

datatype pg_option = NilOption | WithUserLookup "(string \<Rightarrow> string option res) option"

definition pg_New :: "pg_conversion option \<Rightarrow> pg_option list \<Rightarrow> pgstore res" where
  "pg_New db opts =
     (case db of
        None \<Rightarrow> Inl ''pgstore: db is required''
      | Some D \<Rightarrow>
          (case fold (\<lambda>opt lookup. case opt of NilOption \<Rightarrow> lookup | WithUserLookup fn \<Rightarrow> fn) opts None of
             None \<Rightarrow> Inl ''pgstore: WithUserLookup is required''
           | Some fn \<Rightarrow> Inr \<lparr>conv = D, userLookup = fn\<rparr>))"

definition upsert_client :: "client \<Rightarrow> client list \<Rightarrow> client list" where
  \<comment> \<open>\<open>ON CONFLICT (client_id) DO UPDATE SET\<close> without \<open>created_at\<close>\<close>
  "upsert_client c rows =
     (if select_row cl_ClientID (cl_ClientID c) rows = None then rows @ [c]
      else update_rows (\<lambda>r. cl_ClientID r = cl_ClientID c)
             (\<lambda>r. r\<lparr>cl_RedirectURIs := cl_RedirectURIs c, cl_ClientName := cl_ClientName c,
                   cl_ExpiresAt := cl_ExpiresAt c\<rparr>) rows)"

definition kept_client :: "pg_conversion \<Rightarrow> client \<Rightarrow> client" where
  "kept_client D c = c\<lparr>cl_CreatedAt := pg_keep D (cl_CreatedAt c), cl_ExpiresAt := pg_keep D (cl_ExpiresAt c)\<rparr>"

definition scan_client :: "pg_conversion \<Rightarrow> client \<Rightarrow> client" where
  "scan_client D c = c\<lparr>cl_CreatedAt := pg_load D (cl_CreatedAt c), cl_ExpiresAt := pg_load D (cl_ExpiresAt c)\<rparr>"

definition pg_SaveClient :: "pgstore \<Rightarrow> client \<Rightarrow> pg_store \<Rightarrow> unit res \<times> pg_store" where
  [store_defs]: "pg_SaveClient P c s = wrap_error ''pgstore: saving client''
     (statement (\<lambda>d. (Inr (), d\<lparr>t_clients := upsert_client (kept_client (conv P) c) (t_clients d)\<rparr>)) s)"

definition pg_GetClient :: "pgstore \<Rightarrow> string \<Rightarrow> pg_store \<Rightarrow> client option res \<times> pg_store" where
  [store_defs]: "pg_GetClient P clientID s = wrap_error ''pgstore: loading client''
     (statement (\<lambda>d. (Inr (map_option (scan_client (conv P)) (select_row cl_ClientID clientID (t_clients d))), d)) s)"

definition kept_code :: "pg_conversion \<Rightarrow> auth_code \<Rightarrow> auth_code" where
  "kept_code D c = c\<lparr>ac_ExpiresAt := pg_keep D (ac_ExpiresAt c), ac_CreatedAt := pg_keep D (ac_CreatedAt c)\<rparr>"

definition scan_code :: "pg_conversion \<Rightarrow> auth_code \<Rightarrow> auth_code" where
  "scan_code D c = c\<lparr>ac_ExpiresAt := pg_load D (ac_ExpiresAt c), ac_CreatedAt := pg_load D (ac_CreatedAt c)\<rparr>"

definition pg_SaveAuthCode :: "pgstore \<Rightarrow> auth_code \<Rightarrow> pg_store \<Rightarrow> unit res \<times> pg_store" where
  [store_defs]: "pg_SaveAuthCode P code s = wrap_error ''pgstore: saving authorization code''
     (statement (insert_statement ac_CodeHash t_codes (\<lambda>rows d. d\<lparr>t_codes := rows\<rparr>) (kept_code (conv P) code)) s)"

definition pg_ConsumeAuthCode :: "pgstore \<Rightarrow> string \<Rightarrow> pg_store \<Rightarrow> auth_code option res \<times> pg_store" where
  \<comment> \<open>\<open>DELETE ... RETURNING\<close>\<close>
  [store_defs]: "pg_ConsumeAuthCode P codeHash s = wrap_error ''pgstore: consuming authorization code''
     (statement (\<lambda>d. (Inr (map_option (scan_code (conv P)) (select_row ac_CodeHash codeHash (t_codes d))),
        d\<lparr>t_codes := delete_rows (\<lambda>r. ac_CodeHash r = codeHash) (t_codes d)\<rparr>)) s)"

definition kept_pending :: "pg_conversion \<Rightarrow> pending_auth \<Rightarrow> pending_auth" where
  "kept_pending D p = p\<lparr>pa_ExpiresAt := pg_keep D (pa_ExpiresAt p), pa_CreatedAt := pg_keep D (pa_CreatedAt p)\<rparr>"

definition scan_pending :: "pg_conversion \<Rightarrow> pending_auth \<Rightarrow> pending_auth" where
  "scan_pending D p = p\<lparr>pa_ExpiresAt := pg_load D (pa_ExpiresAt p), pa_CreatedAt := pg_load D (pa_CreatedAt p)\<rparr>"

definition pg_SavePendingAuth :: "pgstore \<Rightarrow> pending_auth \<Rightarrow> pg_store \<Rightarrow> unit res \<times> pg_store" where
  [store_defs]: "pg_SavePendingAuth P p s = wrap_error ''pgstore: saving pending authorization''
     (statement (insert_statement pa_StateHash t_pending (\<lambda>rows d. d\<lparr>t_pending := rows\<rparr>) (kept_pending (conv P) p)) s)"

definition pg_ConsumePendingAuth :: "pgstore \<Rightarrow> string \<Rightarrow> pg_store \<Rightarrow> pending_auth option res \<times> pg_store" where
  [store_defs]: "pg_ConsumePendingAuth P stateHash s = wrap_error ''pgstore: consuming pending authorization''
     (statement (\<lambda>d. (Inr (map_option (scan_pending (conv P)) (select_row pa_StateHash stateHash (t_pending d))),
        d\<lparr>t_pending := delete_rows (\<lambda>r. pa_StateHash r = stateHash) (t_pending d)\<rparr>)) s)"

definition kept_refresh :: "pg_conversion \<Rightarrow> refresh_token \<Rightarrow> pg_refresh" where
  \<comment> \<open>the columns of the \<open>INSERT\<close>: \<open>consumed_at\<close> is \<open>NULL\<close> whatever the record says\<close>
  "kept_refresh D rt = \<lparr>token_hash = rt_TokenHash rt, tok_client_id = rt_ClientID rt, tok_user_id = rt_UserID rt,
     family_id = rt_FamilyID rt, family_created_at = pg_keep D (rt_FamilyCreatedAt rt),
     family_expires_at = pg_keep D (rt_FamilyExpiresAt rt), tok_expires_at = pg_keep D (rt_ExpiresAt rt),
     tok_created_at = pg_keep D (rt_CreatedAt rt), consumed_at = None\<rparr>"

definition scanRefreshToken :: "pg_conversion \<Rightarrow> pg_refresh \<Rightarrow> refresh_token" where
  "scanRefreshToken D r = \<lparr>rt_TokenHash = token_hash r, rt_ClientID = tok_client_id r, rt_UserID = tok_user_id r,
     rt_FamilyID = family_id r,
     rt_FamilyCreatedAt = normalizeZeroTime D (pg_load D (family_created_at r)),
     rt_FamilyExpiresAt = normalizeZeroTime D (pg_load D (family_expires_at r)),
     rt_ExpiresAt = normalizeZeroTime D (pg_load D (tok_expires_at r)),
     rt_CreatedAt = normalizeZeroTime D (pg_load D (tok_created_at r)),
     rt_ConsumedAt = (case consumed_at r of None \<Rightarrow> zero_time | Some t \<Rightarrow> normalizeZeroTime D (pg_load D t))\<rparr>"

definition pg_SaveRefreshToken :: "pgstore \<Rightarrow> refresh_token \<Rightarrow> pg_store \<Rightarrow> unit res \<times> pg_store" where
  [store_defs]: "pg_SaveRefreshToken P rt s = wrap_error ''pgstore: saving refresh token''
     (statement (insert_statement token_hash t_refresh (\<lambda>rows d. d\<lparr>t_refresh := rows\<rparr>) (kept_refresh (conv P) rt)) s)"

definition pg_GetRefreshToken :: "pgstore \<Rightarrow> string \<Rightarrow> pg_store \<Rightarrow> refresh_token option res \<times> pg_store" where
  [store_defs]: "pg_GetRefreshToken P tokenHash s = wrap_error ''pgstore: loading refresh token''
     (statement (\<lambda>d. (Inr (map_option (scanRefreshToken (conv P)) (select_row token_hash tokenHash (t_refresh d))), d)) s)"

definition consume_refresh_rows :: "string \<Rightarrow> time \<Rightarrow> pg_refresh list \<Rightarrow> pg_refresh list" where
  \<comment> \<open>the \<open>UPDATE\<close> of \<open>consumeRefreshTokenSQL\<close>\<close>
  "consume_refresh_rows tokenHash consumedAt rows =
     update_rows (\<lambda>r. token_hash r = tokenHash \<and> consumed_at r = None) (\<lambda>r. r\<lparr>consumed_at := Some consumedAt\<rparr>) rows"

definition pg_ConsumeRefreshToken :: "pgstore \<Rightarrow> string \<Rightarrow> time \<Rightarrow> pg_store \<Rightarrow> refresh_token option res \<times> pg_store" where
  [store_defs]: "pg_ConsumeRefreshToken P tokenHash consumedAt s = wrap_error ''pgstore: consuming refresh token''
     (statement (\<lambda>d. (Inr (map_option (scanRefreshToken (conv P)) (select_row token_hash tokenHash (t_refresh d))),
        d\<lparr>t_refresh := consume_refresh_rows tokenHash (pg_keep (conv P) consumedAt) (t_refresh d)\<rparr>)) s)"

definition pg_RevokeRefreshTokensForUser :: "pgstore \<Rightarrow> string \<Rightarrow> pg_store \<Rightarrow> unit res \<times> pg_store" where
  [store_defs]: "pg_RevokeRefreshTokensForUser P userID s =
     (if userID = [] then (Inr (), s)
      else wrap_error ''pgstore: revoking a user's refresh tokens''
        (statement (\<lambda>d. (Inr (), d\<lparr>t_refresh := delete_rows (\<lambda>r. tok_user_id r = userID) (t_refresh d)\<rparr>)) s))"

definition pg_RevokeRefreshTokenFamily :: "pgstore \<Rightarrow> string \<Rightarrow> pg_store \<Rightarrow> unit res \<times> pg_store" where
  [store_defs]: "pg_RevokeRefreshTokenFamily P familyID s =
     (if familyID = [] then (Inr (), s)
      else wrap_error ''pgstore: revoking refresh-token family''
        (statement (\<lambda>d. (Inr (), d\<lparr>t_refresh := delete_rows (\<lambda>r. family_id r = familyID) (t_refresh d)\<rparr>)) s))"

definition purge_statements :: "time \<Rightarrow> (string \<times> (pg_tables \<Rightarrow> pg_tables)) list" where
  "purge_statements before =
     [(''authorization codes'', \<lambda>d. d\<lparr>t_codes := delete_rows (\<lambda>r. ac_ExpiresAt r < before) (t_codes d)\<rparr>),
      (''pending authorizations'', \<lambda>d. d\<lparr>t_pending := delete_rows (\<lambda>r. pa_ExpiresAt r < before) (t_pending d)\<rparr>),
      (''refresh tokens'', \<lambda>d. d\<lparr>t_refresh :=
         delete_rows (\<lambda>r. tok_expires_at r < before \<and> family_expires_at r < before) (t_refresh d)\<rparr>),
      (''clients'', \<lambda>d. d\<lparr>t_clients := delete_rows (\<lambda>r. cl_ExpiresAt r < before) (t_clients d)\<rparr>)]"

fun purge_loop :: "(string \<times> (pg_tables \<Rightarrow> pg_tables)) list \<Rightarrow> pg_store \<Rightarrow> unit res \<times> pg_store" where
  "purge_loop [] s = (Inr (), s)"
| "purge_loop ((what, sql) # stmts) s =
     (case statement (\<lambda>d. (Inr (), sql d)) s of
        (Inl err, s') \<Rightarrow> (Inl (''pgstore: purging expired '' @ what @ '': '' @ err), s')
      | (Inr _, s') \<Rightarrow> purge_loop stmts s')"

definition pg_PurgeExpired :: "pgstore \<Rightarrow> time \<Rightarrow> pg_store \<Rightarrow> unit res \<times> pg_store" where
  "pg_PurgeExpired P before s = purge_loop (purge_statements (pg_keep (conv P) before)) s"

definition pg_FindUserIDByEmail :: "pgstore \<Rightarrow> string \<Rightarrow> pg_store \<Rightarrow> string option res \<times> pg_store" where
  [store_defs]: "pg_FindUserIDByEmail P email s = (userLookup P email, s)"

definition pg_ops :: "pgstore \<Rightarrow> pg_store store_ops" where
  "pg_ops P = \<lparr>
     op_SaveClient = pg_SaveClient P, op_GetClient = pg_GetClient P,
     op_SaveAuthCode = pg_SaveAuthCode P, op_ConsumeAuthCode = pg_ConsumeAuthCode P,
     op_SavePendingAuth = pg_SavePendingAuth P, op_ConsumePendingAuth = pg_ConsumePendingAuth P,
     op_SaveRefreshToken = pg_SaveRefreshToken P, op_GetRefreshToken = pg_GetRefreshToken P,
     op_ConsumeRefreshToken = pg_ConsumeRefreshToken P,
     op_RevokeRefreshTokensForUser = pg_RevokeRefreshTokensForUser P,
     op_RevokeRefreshTokenFamily = pg_RevokeRefreshTokenFamily P,
     op_PurgeExpired = pg_PurgeExpired P,
     op_FindUserIDByEmail = pg_FindUserIDByEmail P\<rparr>"

end
