(* ===== verification/Pgstore_Contract.thy ===== *)
theory Pgstore_Contract
  imports Pgstore
begin

text \<open>
  The PostgreSQL store keeps the store contract, for every documented treatment of instants and
  whatever statements are lost: tables as maps, what instants read back as, one law per method,
  and the interpretations. \<open>pg_server\<close> is a handle whose server is documented;
  \<open>pg_answering\<close> is one that loses no statement.
\<close>

section \<open>Tables as maps\<close>

definition rows_of :: "('r \<Rightarrow> string) \<Rightarrow> ('r \<Rightarrow> 'v) \<Rightarrow> 'r list \<Rightarrow> string \<rightharpoonup> 'v" where
  "rows_of key f rows k = map_option f (select_row key k rows)"

lemma select_row_simps [simp]:
  "select_row key k [] = None"
  "select_row key k (r # rows) = (if key r = k then Some r else select_row key k rows)"
  by (simp_all add: select_row_def)

lemma select_row_None: "select_row key k rows = None \<longleftrightarrow> k \<notin> key ` set rows"
  by (induction rows) auto

lemma select_row_Some: "select_row key k rows = Some r \<Longrightarrow> r \<in> set rows \<and> key r = k"
  by (induction rows) (auto split: if_splits)

lemma select_row_append: "select_row key k (rows @ [r]) =
    (case select_row key k rows of None \<Rightarrow> (if key r = k then Some r else None) | Some x \<Rightarrow> Some x)"
  by (induction rows) auto

lemma select_row_filter:
  "distinct (map key rows) \<Longrightarrow> select_row key k (filter P rows) =
    (case select_row key k rows of None \<Rightarrow> None | Some r \<Rightarrow> if P r then Some r else None)"
  by (induction rows) (auto simp: select_row_None split: option.split dest!: select_row_Some intro: rev_image_eqI)

lemma rows_of_insert:
  "select_row key (key r) rows = None \<Longrightarrow> rows_of key f (rows @ [r]) = (rows_of key f rows)(key r \<mapsto> f r)"
  by (rule ext) (auto simp: rows_of_def select_row_append split: option.split)

lemma rows_of_delete_key:
  "distinct (map key rows) \<Longrightarrow> rows_of key f (delete_rows (\<lambda>r. key r = k) rows) = (rows_of key f rows)(k := None)"
  by (rule ext) (auto simp: rows_of_def delete_rows_def select_row_filter split: option.split dest: select_row_Some)

lemma rows_of_delete:
  assumes "distinct (map key rows)" and "\<And>r. r \<in> set rows \<Longrightarrow> P r \<longleftrightarrow> \<not> Q (f r)"
  shows "rows_of key f (delete_rows P rows) = keep_rows Q (rows_of key f rows)"
proof (rule ext)
  fix k
  show "rows_of key f (delete_rows P rows) k = keep_rows Q (rows_of key f rows) k"
    using assms(2) by (auto simp: rows_of_def delete_rows_def select_row_filter [OF assms(1)] keep_rows_def
        split: option.split dest: select_row_Some)
qed

lemma select_row_update:
  assumes "\<And>r. key (g r) = key r"
  shows "select_row key k (update_rows P g rows) = map_option (\<lambda>r. if P r then g r else r) (select_row key k rows)"
  using assms by (induction rows) (auto simp: update_rows_def)

lemma map_key_update: "(\<And>r. key (g r) = key r) \<Longrightarrow> map key (update_rows P g rows) = map key rows"
  by (simp add: update_rows_def)

lemma distinct_delete_rows: "distinct (map key rows) \<Longrightarrow> distinct (map key (delete_rows P rows))"
  by (simp add: delete_rows_def distinct_map_filter)

lemma distinct_insert_row:
  "distinct (map key rows) \<Longrightarrow> select_row key (key r) rows = None \<Longrightarrow> distinct (map key (rows @ [r]))"
  by (auto simp: select_row_None)

section \<open>What instants read back as\<close>

definition pg_rounding :: "pg_conversion \<Rightarrow> rounding" where
  "pg_rounding D = \<lparr>r_row = (\<lambda>t. pg_load D (pg_keep D t)),
     r_refresh = (\<lambda>t. normalizeZeroTime D (pg_load D (pg_keep D t)))\<rparr>"

lemma pg_rounding_simps [simp]:
  "r_row (pg_rounding D) t = pg_load D (pg_keep D t)"
  "r_refresh (pg_rounding D) t = normalizeZeroTime D (pg_load D (pg_keep D t))"
  by (simp_all add: pg_rounding_def)

lemma documented:
  assumes "pg_documented D"
  shows "t \<le> t' \<Longrightarrow> pg_keep D t \<le> pg_keep D t'" and "\<bar>pg_keep D t - t\<bar> \<le> 1000"
    and "pg_load D t < pg_load D t' \<longleftrightarrow> t < t'" and "pg_load D t \<le> pg_load D t' \<longleftrightarrow> t \<le> t'"
    and "\<bar>pg_load D t - t\<bar> < 24 * hour" and "clock_floor - 1000 \<le> t \<Longrightarrow> pg_load D t = t"
    and "\<bar>pg_zone D\<bar> < 86400"
  using assms by (auto simp: pg_documented_def mono_def strict_mono_less strict_mono_less_eq)

lemma normalize_late:
  assumes "pg_documented D" and "clock_floor - 1000 \<le> t"
  shows "normalizeZeroTime D t = t"
  using assms documented(7) [OF assms(1)] by (simp add: normalizeZeroTime_def year_one_def)

lemma pg_round_late:
  assumes "pg_documented D" and "clock_floor \<le> t"
  shows "pg_load D (pg_keep D t) = pg_keep D t" and "normalizeZeroTime D (pg_keep D t) = pg_keep D t"
    and "clock_floor - 1000 \<le> pg_keep D t"
proof -
  show "clock_floor - 1000 \<le> pg_keep D t" using documented(2) [OF assms(1), of t] assms(2) by arith
  then show "pg_load D (pg_keep D t) = pg_keep D t" "normalizeZeroTime D (pg_keep D t) = pg_keep D t"
    using documented(6) [OF assms(1)] normalize_late [OF assms(1)] by simp_all
qed

lemma normalize_mono:
  assumes "pg_documented D" and "t \<le> t'"
  shows "normalizeZeroTime D t \<le> normalizeZeroTime D t'"
proof -
  have "pg_zone D * second < 86400 * second" using documented(7) [OF assms(1)] by simp
  then show ?thesis using assms(2) by (auto simp: normalizeZeroTime_def year_one_def)
qed

lemma normalize_zero:
  assumes "pg_documented D"
  shows "normalizeZeroTime D (pg_load D (pg_keep D 0)) = 0"
proof -
  have "pg_keep D 0 \<le> 1000" using documented(2) [OF assms, of 0] by linarith
  moreover have "pg_load D (pg_keep D 0) < pg_keep D 0 + 24 * hour" using documented(5) [OF assms, of "pg_keep D 0"] by linarith
  moreover have "pg_zone D * second < 86400 * second" using documented(7) [OF assms] by simp
  ultimately have "pg_load D (pg_keep D 0) + pg_zone D * second < 365 * 24 * hour" by linarith
  then show ?thesis by (simp add: normalizeZeroTime_def year_one_def)
qed

text \<open>A comparison in the database and the comparison of what is read back agree.\<close>

lemma expired_read_back:
  assumes "pg_documented D" and "clock_floor \<le> b"
  shows "normalizeZeroTime D (pg_load D t) < pg_keep D b \<longleftrightarrow> t < pg_keep D b"
proof (cases "year_one D (pg_load D t)")
  case True
  then have "pg_load D t < clock_floor - 1000"
    using documented(7) [OF assms(1)] by (simp add: year_one_def)
  then have "pg_load D t < pg_load D (pg_keep D b)" using pg_round_late [OF assms] by simp
  then have "t < pg_keep D b" using documented(3) [OF assms(1)] by simp
  moreover have "0 < pg_keep D b" using pg_round_late(3) [OF assms] by simp
  ultimately show ?thesis using True by (simp add: normalizeZeroTime_def)
next
  case False
  then show ?thesis
    using documented(3) [OF assms(1), of t "pg_keep D b"] pg_round_late(1) [OF assms] by (simp add: normalizeZeroTime_def)
qed

section \<open>The store contract\<close>

definition pg_abs :: "pgstore \<Rightarrow> pg_store \<Rightarrow> astore" where
  "pg_abs P s = \<lparr>
     a_clients = rows_of cl_ClientID (scan_client (conv P)) (t_clients (pg_db s)),
     a_codes = rows_of ac_CodeHash (scan_code (conv P)) (t_codes (pg_db s)),
     a_pending = rows_of pa_StateHash (scan_pending (conv P)) (t_pending (pg_db s)),
     a_refresh = rows_of token_hash (scanRefreshToken (conv P)) (t_refresh (pg_db s)),
     a_users = (\<lambda>e. case userLookup P e of Inl _ \<Rightarrow> None | Inr x \<Rightarrow> x)\<rparr>"

text \<open>Primary keys, and no stamp that would read back as no stamp.\<close>

definition pg_inv :: "pgstore \<Rightarrow> pg_store \<Rightarrow> bool" where
  "pg_inv P s \<longleftrightarrow> distinct (map cl_ClientID (t_clients (pg_db s))) \<and> distinct (map ac_CodeHash (t_codes (pg_db s))) \<and>
     distinct (map pa_StateHash (t_pending (pg_db s))) \<and> distinct (map token_hash (t_refresh (pg_db s))) \<and>
     (\<forall>r \<in> set (t_refresh (pg_db s)). \<forall>t. consumed_at r = Some t \<longrightarrow>
        normalizeZeroTime (conv P) (pg_load (conv P) t) \<noteq> 0)"

text \<open>A statement that may be lost: its effect or none, and its result unless it failed.\<close>

lemma statement_cases:
  assumes "wrap_error what (statement q s) = (r, s')"
  shows "(pg_db s' = snd (q (pg_db s)) \<or> (\<not> is_ok r \<and> pg_db s' = pg_db s)) \<and>
    (\<forall>x. r = Inr x \<longrightarrow> fst (q (pg_db s)) = Inr x) \<and>
    (pg_faults s = [] \<longrightarrow> pg_faults s' = [] \<and> (is_ok r \<longleftrightarrow> is_ok (fst (q (pg_db s)))))"
  using assms
  by (cases "pg_faults s"; cases "hd (pg_faults s)")
     (auto simp: statement_def wrap_error_def Let_def split: prod.splits sum.splits)

lemma insert_cases:
  assumes "wrap_error what (statement (insert_statement key tab set_tab row) s) = (r, s')"
  shows "(select_row key (key row) (tab (pg_db s)) = None \<and> pg_db s' = set_tab (tab (pg_db s) @ [row]) (pg_db s)) \<or>
    (\<not> is_ok r \<and> pg_db s' = pg_db s)"
  using statement_cases [OF assms]
  by (cases "select_row key (key row) (tab (pg_db s)) = None"; cases r) (auto simp: insert_statement_def insert_row_def)

lemma rows_of_upsert:
  assumes "distinct (map cl_ClientID rows)"
  obtains c' where "rows_of cl_ClientID (scan_client D) (upsert_client (kept_client D c) rows) =
      (rows_of cl_ClientID (scan_client D) rows)(cl_ClientID c \<mapsto> c')"
    and "client_row (pg_rounding D) c c'" and "cl_ClientID c' = cl_ClientID c"
    and "distinct (map cl_ClientID (upsert_client (kept_client D c) rows))"
proof (cases "select_row cl_ClientID (cl_ClientID c) rows")
  case None
  then show ?thesis
    using assms rows_of_insert [of cl_ClientID "kept_client D c" rows "scan_client D"]
    by (intro that [of "scan_client D (kept_client D c)"])
       (auto simp: upsert_client_def kept_client_def scan_client_def client_row_def nrm_client_def select_row_None)
next
  case (Some old)
  let ?upd = "\<lambda>r. r\<lparr>cl_RedirectURIs := cl_RedirectURIs c, cl_ClientName := cl_ClientName c,
    cl_ExpiresAt := pg_keep D (cl_ExpiresAt c)\<rparr>"
  have rows: "upsert_client (kept_client D c) rows = update_rows (\<lambda>r. cl_ClientID r = cl_ClientID c) ?upd rows"
    using Some by (simp add: upsert_client_def kept_client_def)
  show ?thesis
  proof (rule that [of "scan_client D (?upd old)"])
    show "rows_of cl_ClientID (scan_client D) (upsert_client (kept_client D c) rows) =
        (rows_of cl_ClientID (scan_client D) rows)(cl_ClientID c \<mapsto> scan_client D (?upd old))"
    proof (rule ext)
      fix k
      show "rows_of cl_ClientID (scan_client D) (upsert_client (kept_client D c) rows) k =
          ((rows_of cl_ClientID (scan_client D) rows)(cl_ClientID c \<mapsto> scan_client D (?upd old))) k"
        unfolding rows using Some
        by (cases "select_row cl_ClientID k rows") (auto simp: rows_of_def select_row_update dest: select_row_Some)
    qed
  qed (use Some assms in \<open>auto simp: rows map_key_update scan_client_def client_row_def nrm_client_def dest: select_row_Some\<close>)
qed

lemma pg_save_client:
  assumes "pg_inv P s" and "pg_SaveClient P c s = (r, s')"
  shows "pg_inv P s' \<and> ((\<exists>c'. client_row (pg_rounding (conv P)) c c' \<and> pg_abs P s' = put_client c' (pg_abs P s)) \<or>
    (\<not> is_ok r \<and> pg_abs P s' = pg_abs P s))"
proof -
  let ?D = "conv P" and ?rows = "t_clients (pg_db s)"
  obtain c' where c': "rows_of cl_ClientID (scan_client ?D) (upsert_client (kept_client ?D c) ?rows) =
      (rows_of cl_ClientID (scan_client ?D) ?rows)(cl_ClientID c \<mapsto> c')"
    "client_row (pg_rounding ?D) c c'" "cl_ClientID c' = cl_ClientID c"
    "distinct (map cl_ClientID (upsert_client (kept_client ?D c) ?rows))"
    using rows_of_upsert [of ?rows ?D c] assms(1) by (auto simp: pg_inv_def)
  from statement_cases [OF assms(2) [unfolded pg_SaveClient_def]]
  have "pg_db s' = (pg_db s)\<lparr>t_clients := upsert_client (kept_client ?D c) ?rows\<rparr> \<or> (\<not> is_ok r \<and> pg_db s' = pg_db s)"
    by auto
  then show ?thesis
    using assms(1) c' by (elim disjE) (auto simp: pg_inv_def pg_abs_def put_client_def)
qed

lemma pg_save_code:
  assumes "pg_inv P s" and "pg_SaveAuthCode P c s = (r, s')"
  shows "pg_inv P s' \<and> (pg_abs P s' = put_code (nrm_code (pg_rounding (conv P)) c) (pg_abs P s) \<or>
    (\<not> is_ok r \<and> pg_abs P s' = pg_abs P s))"
  using insert_cases [OF assms(2) [unfolded pg_SaveAuthCode_def]] assms(1)
    rows_of_insert [of ac_CodeHash "kept_code (conv P) c" "t_codes (pg_db s)" "scan_code (conv P)"]
  by (auto simp: pg_inv_def pg_abs_def put_code_def kept_code_def scan_code_def nrm_code_def select_row_None)

lemma pg_save_pending:
  assumes "pg_inv P s" and "pg_SavePendingAuth P p s = (r, s')"
  shows "pg_inv P s' \<and> (pg_abs P s' = put_pending (nrm_pending (pg_rounding (conv P)) p) (pg_abs P s) \<or>
    (\<not> is_ok r \<and> pg_abs P s' = pg_abs P s))"
  using insert_cases [OF assms(2) [unfolded pg_SavePendingAuth_def]] assms(1)
    rows_of_insert [of pa_StateHash "kept_pending (conv P) p" "t_pending (pg_db s)" "scan_pending (conv P)"]
  by (auto simp: pg_inv_def pg_abs_def put_pending_def kept_pending_def scan_pending_def nrm_pending_def select_row_None)

lemma scan_refresh_key: "rt_TokenHash (scanRefreshToken D r) = token_hash r"
  by (simp add: scanRefreshToken_def)

lemma scan_kept_refresh:
  assumes "pg_documented D"
  shows "refresh_row (pg_rounding D) rt (scanRefreshToken D (kept_refresh D rt))"
  using normalize_zero [OF assms]
  by (cases "IsZero (rt_ConsumedAt rt)") (auto simp: refresh_row_def scanRefreshToken_def kept_refresh_def nrm_refresh_def)

lemma pg_save_refresh:
  assumes "pg_documented (conv P)" and "pg_inv P s" and "pg_SaveRefreshToken P rt s = (r, s')"
  shows "pg_inv P s' \<and> ((\<exists>rt'. refresh_row (pg_rounding (conv P)) rt rt' \<and> pg_abs P s' = put_refresh rt' (pg_abs P s)) \<or>
    (\<not> is_ok r \<and> pg_abs P s' = pg_abs P s))"
  using insert_cases [OF assms(3) [unfolded pg_SaveRefreshToken_def]]
proof (elim disjE conjE)
  let ?row = "kept_refresh (conv P) rt"
  assume new: "select_row token_hash (token_hash ?row) (t_refresh (pg_db s)) = None"
    and db: "pg_db s' = (pg_db s)\<lparr>t_refresh := t_refresh (pg_db s) @ [?row]\<rparr>"
  have "pg_inv P s'"
    using assms(2) new by (auto simp: pg_inv_def db kept_refresh_def select_row_None)
  moreover have "pg_abs P s' = put_refresh (scanRefreshToken (conv P) ?row) (pg_abs P s)"
    using rows_of_insert [OF new, of "scanRefreshToken (conv P)"]
    by (simp add: pg_abs_def put_refresh_def db scan_refresh_key)
  ultimately show ?thesis using scan_kept_refresh [OF assms(1)] by blast
qed (use assms(2) in \<open>auto simp: pg_inv_def pg_abs_def\<close>)

lemma pg_reads:
  assumes "pg_inv P s"
  shows "pg_GetClient P i s = (r, s') \<Longrightarrow> pg_inv P s' \<and> pg_abs P s' = pg_abs P s \<and>
      (\<forall>x. r = Inr x \<longrightarrow> x = a_clients (pg_abs P s) i)"
    and "pg_GetRefreshToken P h s = (q, s') \<Longrightarrow> pg_inv P s' \<and> pg_abs P s' = pg_abs P s \<and>
      (\<forall>x. q = Inr x \<longrightarrow> x = a_refresh (pg_abs P s) h)"
  using assms unfolding pg_GetClient_def pg_GetRefreshToken_def
  by (auto simp: pg_inv_def pg_abs_def rows_of_def dest!: statement_cases)

lemma pg_consume_code:
  assumes "pg_inv P s" and "pg_ConsumeAuthCode P h s = (r, s')"
  shows "pg_inv P s' \<and> (pg_abs P s' = del_code h (pg_abs P s) \<or> (\<not> is_ok r \<and> pg_abs P s' = pg_abs P s)) \<and>
    (\<forall>x. r = Inr x \<longrightarrow> x = a_codes (pg_abs P s) h)"
  using statement_cases [OF assms(2) [unfolded pg_ConsumeAuthCode_def]] assms(1)
  by (auto simp: pg_inv_def pg_abs_def del_code_def rows_of_delete_key distinct_delete_rows) (auto simp: rows_of_def)

lemma pg_consume_pending:
  assumes "pg_inv P s" and "pg_ConsumePendingAuth P h s = (r, s')"
  shows "pg_inv P s' \<and> (pg_abs P s' = del_pending h (pg_abs P s) \<or> (\<not> is_ok r \<and> pg_abs P s' = pg_abs P s)) \<and>
    (\<forall>x. r = Inr x \<longrightarrow> x = a_pending (pg_abs P s) h)"
  using statement_cases [OF assms(2) [unfolded pg_ConsumePendingAuth_def]] assms(1)
  by (auto simp: pg_inv_def pg_abs_def del_pending_def rows_of_delete_key distinct_delete_rows) (auto simp: rows_of_def)

lemma pg_consume_refresh:
  assumes "pg_documented (conv P)" and "pg_inv P s" and "clock_floor \<le> t" and "pg_ConsumeRefreshToken P h t s = (r, s')"
  shows "pg_inv P s' \<and> (pg_abs P s' = stamp_refresh h (r_refresh (pg_rounding (conv P)) t) (pg_abs P s) \<or>
      (\<not> is_ok r \<and> pg_abs P s' = pg_abs P s)) \<and> (\<forall>x. r = Inr x \<longrightarrow> x = a_refresh (pg_abs P s) h)"
proof -
  let ?D = "conv P" and ?rows = "t_refresh (pg_db s)"
  let ?t = "pg_keep ?D t" and ?rows' = "consume_refresh_rows h (pg_keep (conv P) t) (t_refresh (pg_db s))"
  have late: "normalizeZeroTime ?D (pg_load ?D ?t) = ?t" "0 < ?t"
    using pg_round_late [OF assms(1,3)] by simp_all
  have keys: "map token_hash ?rows' = map token_hash ?rows"
    by (simp add: consume_refresh_rows_def map_key_update)
  have stamps: "\<forall>r \<in> set ?rows'. \<forall>u. consumed_at r = Some u \<longrightarrow> normalizeZeroTime ?D (pg_load ?D u) \<noteq> 0"
    using assms(2) late by (auto simp: consume_refresh_rows_def update_rows_def pg_inv_def)
  have rows: "rows_of token_hash (scanRefreshToken ?D) ?rows' = stamp h ?t (rows_of token_hash (scanRefreshToken ?D) ?rows)"
  proof (rule ext)
    fix k
    show "rows_of token_hash (scanRefreshToken ?D) ?rows' k = stamp h ?t (rows_of token_hash (scanRefreshToken ?D) ?rows) k"
    proof (cases "select_row token_hash k ?rows")
      case None
      then show ?thesis
        by (cases "k = h") (simp_all add: rows_of_def consume_refresh_rows_def select_row_update stamp_same)
    next
      case (Some row)
      then have row: "row \<in> set ?rows" "token_hash row = k" by (auto dest: select_row_Some)
      have "IsZero (rt_ConsumedAt (scanRefreshToken ?D row)) \<longleftrightarrow> consumed_at row = None"
        using assms(2) row(1) by (auto simp: pg_inv_def scanRefreshToken_def split: option.splits)
      moreover have "scanRefreshToken ?D (row\<lparr>consumed_at := Some ?t\<rparr>) = (scanRefreshToken ?D row)\<lparr>rt_ConsumedAt := ?t\<rparr>"
        by (simp add: scanRefreshToken_def late)
      ultimately show ?thesis
        using Some row(2)
        by (cases "k = h") (simp_all add: rows_of_def consume_refresh_rows_def select_row_update stamp_same)
    qed
  qed
  have eff: "pg_inv P s' \<and> pg_abs P s' = stamp_refresh h ?t (pg_abs P s)"
    if "pg_db s' = (pg_db s)\<lparr>t_refresh := ?rows'\<rparr>"
    using assms(2) stamps keys that by (simp add: pg_inv_def pg_abs_def stamp_refresh_def rows)
  show ?thesis
    using statement_cases [OF assms(4) [unfolded pg_ConsumeRefreshToken_def]] eff assms(2) late
    by (auto simp: pg_inv_def pg_abs_def rows_of_def)
qed

lemma pg_delete_refresh:
  assumes "pg_inv P s" and "wrap_error what (statement (\<lambda>d. (Inr (), d\<lparr>t_refresh := delete_rows C (t_refresh d)\<rparr>)) s) = (r, s')"
    and "\<And>row. C row \<longleftrightarrow> \<not> Q (scanRefreshToken (conv P) row)"
  shows "pg_inv P s' \<and> (pg_abs P s' = (pg_abs P s)\<lparr>a_refresh := keep_rows Q (a_refresh (pg_abs P s))\<rparr> \<or>
    (\<not> is_ok r \<and> pg_abs P s' = pg_abs P s))"
  using statement_cases [OF assms(2)] assms(1) rows_of_delete [of token_hash "t_refresh (pg_db s)" C Q "scanRefreshToken (conv P)"] assms(3)
  by (auto simp: pg_inv_def pg_abs_def distinct_delete_rows) (auto simp: delete_rows_def)

lemma pg_revoke_user:
  assumes "pg_inv P s" and "u \<noteq> []" and "pg_RevokeRefreshTokensForUser P u s = (r, s')"
  shows "pg_inv P s' \<and> (pg_abs P s' = revoke_user u (pg_abs P s) \<or> (\<not> is_ok r \<and> pg_abs P s' = pg_abs P s))"
  unfolding revoke_user_def
  by (rule pg_delete_refresh [OF assms(1)])
     (use assms(2,3) in \<open>auto simp: pg_RevokeRefreshTokensForUser_def scanRefreshToken_def\<close>)

lemma pg_revoke_family:
  assumes "pg_inv P s" and "pg_RevokeRefreshTokenFamily P f s = (r, s')"
  shows "pg_inv P s' \<and> (pg_abs P s' = revoke_family f (pg_abs P s) \<or> (\<not> is_ok r \<and> pg_abs P s' = pg_abs P s))"
proof (cases "f = []")
  case False
  then show ?thesis
    unfolding revoke_family_def if_not_P [OF False]
    by (intro pg_delete_refresh [OF assms(1)])
       (use assms(2) in \<open>auto simp: pg_RevokeRefreshTokenFamily_def scanRefreshToken_def\<close>)
qed (use assms in \<open>auto simp: pg_RevokeRefreshTokenFamily_def revoke_family_def\<close>)

text \<open>A purge stopped by an error has run the first statements only.\<close>

lemma statement_result:
  assumes "statement q s = (r, s')"
  shows "(pg_db s' = snd (q (pg_db s)) \<or> (\<not> is_ok r \<and> pg_db s' = pg_db s)) \<and>
    (pg_faults s = [] \<longrightarrow> pg_faults s' = [] \<and> r = fst (q (pg_db s)))"
  using assms
  by (cases "pg_faults s"; cases "hd (pg_faults s)") (auto simp: statement_def Let_def split: prod.splits)

lemma purge_loop_prefix:
  "purge_loop stmts s = (r, s') \<Longrightarrow>
     \<exists>n \<le> length stmts. pg_db s' = fold snd (take n stmts) (pg_db s) \<and> (is_ok r \<longrightarrow> n = length stmts) \<and>
       (pg_faults s = [] \<longrightarrow> is_ok r \<and> pg_faults s' = [])"
proof (induction stmts arbitrary: s)
  case (Cons st stmts)
  obtain what sql where st: "st = (what, sql)" by force
  obtain q s1 where q: "statement (\<lambda>d. (Inr (), sql d)) s = (q, s1)" by force
  note e = statement_result [OF q]
  show ?case
  proof (cases q)
    case (Inl err)
    with Cons.prems q have "s' = s1" "\<not> is_ok r" by (auto simp: st)
    have f: "pg_faults s \<noteq> []" using e Inl by auto
    from e have "pg_db s1 = sql (pg_db s) \<or> pg_db s1 = pg_db s" by auto
    then show ?thesis
    proof
      assume "pg_db s1 = sql (pg_db s)"
      then show ?thesis by (intro exI [of _ 1]) (use \<open>s' = s1\<close> \<open>\<not> is_ok r\<close> f in \<open>simp add: st\<close>)
    next
      assume "pg_db s1 = pg_db s"
      then show ?thesis by (intro exI [of _ 0]) (use \<open>s' = s1\<close> \<open>\<not> is_ok r\<close> f in simp)
    qed
  next
    case (Inr u)
    with Cons.prems q have "purge_loop stmts s1 = (r, s')" by (simp add: st)
    from Cons.IH [OF this] obtain n where "n \<le> length stmts" "pg_db s' = fold snd (take n stmts) (pg_db s1)"
      "is_ok r \<longrightarrow> n = length stmts" "pg_faults s1 = [] \<longrightarrow> is_ok r \<and> pg_faults s' = []" by blast
    with e Inr show ?thesis by (intro exI [of _ "Suc n"]) (auto simp: st)
  qed
qed auto

lemma purge_statements_length: "length (purge_statements b) = 4"
  by (simp add: purge_statements_def)

definition purged_tables :: "nat \<Rightarrow> time \<Rightarrow> pg_tables \<Rightarrow> pg_tables" where
  "purged_tables n b d = fold snd (take n (purge_statements b)) d"

lemma purged_tables_simps:
  "t_codes (purged_tables n b d) = (if n < 1 then t_codes d else delete_rows (\<lambda>r. ac_ExpiresAt r < b) (t_codes d))"
  "t_pending (purged_tables n b d) = (if n < 2 then t_pending d else delete_rows (\<lambda>r. pa_ExpiresAt r < b) (t_pending d))"
  "t_refresh (purged_tables n b d) = (if n < 3 then t_refresh d
     else delete_rows (\<lambda>r. tok_expires_at r < b \<and> family_expires_at r < b) (t_refresh d))"
  "t_clients (purged_tables n b d) = (if n < 4 then t_clients d else delete_rows (\<lambda>r. cl_ExpiresAt r < b) (t_clients d))"
  by (auto simp: purged_tables_def purge_statements_def take_Cons' numeral_eq_Suc)

text \<open>What each of the four statements leaves is what the contract's purge leaves of that table.\<close>

lemma purged_rows:
  assumes "pg_documented (conv P)" and "pg_inv P s" and "clock_floor \<le> b"
  defines "D \<equiv> conv P" and "k \<equiv> pg_keep (conv P) b"
  shows "rows_of ac_CodeHash (scan_code D) (delete_rows (\<lambda>r. ac_ExpiresAt r < k) (t_codes (pg_db s))) =
      keep_rows (\<lambda>c. \<not> ac_ExpiresAt c < k) (rows_of ac_CodeHash (scan_code D) (t_codes (pg_db s)))"
    and "rows_of pa_StateHash (scan_pending D) (delete_rows (\<lambda>r. pa_ExpiresAt r < k) (t_pending (pg_db s))) =
      keep_rows (\<lambda>p. \<not> pa_ExpiresAt p < k) (rows_of pa_StateHash (scan_pending D) (t_pending (pg_db s)))"
    and "rows_of cl_ClientID (scan_client D) (delete_rows (\<lambda>r. cl_ExpiresAt r < k) (t_clients (pg_db s))) =
      keep_rows (\<lambda>c. \<not> cl_ExpiresAt c < k) (rows_of cl_ClientID (scan_client D) (t_clients (pg_db s)))"
    and "rows_of token_hash (scanRefreshToken D)
        (delete_rows (\<lambda>r. tok_expires_at r < k \<and> family_expires_at r < k) (t_refresh (pg_db s))) =
      keep_rows (retained k) (rows_of token_hash (scanRefreshToken D) (t_refresh (pg_db s)))"
proof -
  have "pg_load D k = k" unfolding D_def k_def using pg_round_late [OF assms(1,3)] by simp
  then have lt: "pg_load D t < k \<longleftrightarrow> t < k" for t unfolding D_def using documented(3) [OF assms(1), of t k] by simp
  note inv = assms(2) [unfolded pg_inv_def, folded D_def]
  show "rows_of ac_CodeHash (scan_code D) (delete_rows (\<lambda>r. ac_ExpiresAt r < k) (t_codes (pg_db s))) =
      keep_rows (\<lambda>c. \<not> ac_ExpiresAt c < k) (rows_of ac_CodeHash (scan_code D) (t_codes (pg_db s)))"
    by (rule rows_of_delete) (use inv in \<open>simp_all add: scan_code_def lt\<close>)
  show "rows_of pa_StateHash (scan_pending D) (delete_rows (\<lambda>r. pa_ExpiresAt r < k) (t_pending (pg_db s))) =
      keep_rows (\<lambda>p. \<not> pa_ExpiresAt p < k) (rows_of pa_StateHash (scan_pending D) (t_pending (pg_db s)))"
    by (rule rows_of_delete) (use inv in \<open>simp_all add: scan_pending_def lt\<close>)
  show "rows_of cl_ClientID (scan_client D) (delete_rows (\<lambda>r. cl_ExpiresAt r < k) (t_clients (pg_db s))) =
      keep_rows (\<lambda>c. \<not> cl_ExpiresAt c < k) (rows_of cl_ClientID (scan_client D) (t_clients (pg_db s)))"
    by (rule rows_of_delete) (use inv in \<open>simp_all add: scan_client_def lt\<close>)
  show "rows_of token_hash (scanRefreshToken D)
        (delete_rows (\<lambda>r. tok_expires_at r < k \<and> family_expires_at r < k) (t_refresh (pg_db s))) =
      keep_rows (retained k) (rows_of token_hash (scanRefreshToken D) (t_refresh (pg_db s)))"
    by (rule rows_of_delete)
      (use inv expired_read_back [OF assms(1,3)] in \<open>simp_all add: D_def k_def scanRefreshToken_def retained_def\<close>)
qed

lemma pg_purge:
  assumes "pg_documented (conv P)" and "pg_inv P s" and "clock_floor \<le> b" and "pg_PurgeExpired P b s = (r, s')"
  shows "pg_inv P s' \<and> (pg_abs P s' = purge (r_row (pg_rounding (conv P)) b) (pg_abs P s) \<or>
    (\<not> is_ok r \<and> purge_partly (r_row (pg_rounding (conv P)) b) (pg_abs P s) (pg_abs P s')))"
proof -
  let ?d = "pg_db s" and ?b = "pg_keep (conv P) b"
  note rows = purged_rows [OF assms(1-3)]
  from purge_loop_prefix [OF assms(4) [unfolded pg_PurgeExpired_def]]
  obtain n where d: "pg_db s' = purged_tables n ?b ?d" and n: "is_ok r \<longrightarrow> n = 4"
    by (auto simp: purged_tables_def purge_statements_length)
  have "pg_inv P s'"
    using assms(2) by (auto simp: pg_inv_def d purged_tables_simps distinct_delete_rows) (auto simp: delete_rows_def)
  moreover have "pg_abs P s' = purge ?b (pg_abs P s)" if "n = 4"
    using that by (simp add: pg_abs_def purge_def d purged_tables_simps rows)
  moreover have "purge_partly ?b (pg_abs P s) (pg_abs P s')"
    by (simp add: purge_partly_def pg_abs_def purge_def d purged_tables_simps rows)
  ultimately show ?thesis using n pg_round_late [OF assms(1,3)] by auto
qed

text \<open>
  A single statement of the purge, on whatever the tables hold when its turn comes, is a purge
  that failed: another request between two of them sees what it sees after such a purge.
\<close>

lemma purge_statement_partly:
  assumes "pg_documented (conv P)" and "pg_inv P s" and "clock_floor \<le> b"
    and "(what, sql) \<in> set (purge_statements (pg_keep (conv P) b))" and "pg_db s' = sql (pg_db s)"
  shows "pg_inv P s' \<and> purge_partly (r_row (pg_rounding (conv P)) b) (pg_abs P s) (pg_abs P s')"
proof -
  have "pg_inv P s'"
    using assms(2,4,5) by (auto simp: pg_inv_def purge_statements_def distinct_delete_rows) (auto simp: delete_rows_def)
  moreover have "purge_partly (pg_keep (conv P) b) (pg_abs P s) (pg_abs P s')"
    using assms(4,5) by (auto simp: purge_partly_def pg_abs_def purge_def purge_statements_def purged_rows [OF assms(1-3)])
  ultimately show ?thesis using pg_round_late [OF assms(1,3)] by simp
qed

text \<open>
  The contract holds for every documented treatment of instants: a server is a handle with one.
\<close>

lemma pg_op [simp]:
  "op_SaveClient (pg_ops P) = pg_SaveClient P" "op_GetClient (pg_ops P) = pg_GetClient P"
  "op_SaveAuthCode (pg_ops P) = pg_SaveAuthCode P" "op_ConsumeAuthCode (pg_ops P) = pg_ConsumeAuthCode P"
  "op_SavePendingAuth (pg_ops P) = pg_SavePendingAuth P" "op_ConsumePendingAuth (pg_ops P) = pg_ConsumePendingAuth P"
  "op_SaveRefreshToken (pg_ops P) = pg_SaveRefreshToken P" "op_GetRefreshToken (pg_ops P) = pg_GetRefreshToken P"
  "op_ConsumeRefreshToken (pg_ops P) = pg_ConsumeRefreshToken P"
  "op_RevokeRefreshTokensForUser (pg_ops P) = pg_RevokeRefreshTokensForUser P"
  "op_RevokeRefreshTokenFamily (pg_ops P) = pg_RevokeRefreshTokenFamily P"
  "op_PurgeExpired (pg_ops P) = pg_PurgeExpired P" "op_FindUserIDByEmail (pg_ops P) = pg_FindUserIDByEmail P"
  by (simp_all add: pg_ops_def)

locale pg_server =
  fixes P :: pgstore
  assumes conversion: "pg_documented (conv P)"

sublocale pg_server \<subseteq> store: store_contract "pg_ops P" "pg_abs P" "pg_inv P" "pg_rounding (conv P)"
proof
  show "r_refresh (pg_rounding (conv P)) 0 = 0" using normalize_zero [OF conversion] by simp
  show "0 < r_refresh (pg_rounding (conv P)) t" if "clock_floor \<le> t" for t
    using pg_round_late [OF conversion that] by simp
next
  fix t t' :: time assume "t \<le> t'"
  then have "pg_load (conv P) (pg_keep (conv P) t) \<le> pg_load (conv P) (pg_keep (conv P) t')"
    using documented(1,4) [OF conversion] by simp
  then show "r_row (pg_rounding (conv P)) t \<le> r_row (pg_rounding (conv P)) t'"
    and "r_refresh (pg_rounding (conv P)) t \<le> r_refresh (pg_rounding (conv P)) t'"
    using normalize_mono [OF conversion] by simp_all
next
  fix e s r s' assume "pg_inv P s" "op_FindUserIDByEmail (pg_ops P) e s = (r, s')"
  then show "pg_inv P s' \<and> pg_abs P s' = pg_abs P s \<and> (\<forall>x. r = Inr x \<longrightarrow> x = a_users (pg_abs P s) e)"
    by (auto simp: pg_ops_def pg_FindUserIDByEmail_def pg_abs_def)
qed (unfold pg_op, (rule pg_save_client pg_save_code pg_save_pending pg_save_refresh [OF conversion] pg_consume_code
  pg_consume_pending pg_consume_refresh [OF conversion] pg_revoke_user pg_revoke_family pg_purge [OF conversion] pg_reads;
  assumption)+)

context pg_server
begin

lemma keeps: "store_contract (pg_ops P) (pg_abs P) (pg_inv P) (pg_rounding (conv P))"
  by unfold_locales

end

section \<open>A server that answers\<close>

text \<open>
  When no statement is lost and the application's lookup answers, no method fails, an insertion
  of a hash that is taken apart.
\<close>

definition pg_calm :: "pgstore \<Rightarrow> pg_store \<Rightarrow> bool" where
  "pg_calm P s \<longleftrightarrow> pg_inv P s \<and> pg_faults s = []"

lemma statement_calm:
  assumes "pg_faults s = []"
  shows "pg_faults (snd (wrap_error what (statement q s))) = []"
    and "is_ok (fst (wrap_error what (statement q s))) \<longleftrightarrow> is_ok (fst (q (pg_db s)))"
  using assms by (auto simp: statement_def wrap_error_def Let_def split: prod.splits sum.splits)

lemma purge_calm:
  assumes "pg_faults s = []"
  shows "pg_faults (snd (pg_PurgeExpired P b s)) = []" and "is_ok (fst (pg_PurgeExpired P b s))"
proof -
  obtain r s' where "pg_PurgeExpired P b s = (r, s')" by force
  with purge_loop_prefix [of "purge_statements (pg_keep (conv P) b)" s r s'] assms
  show "pg_faults (snd (pg_PurgeExpired P b s)) = []" and "is_ok (fst (pg_PurgeExpired P b s))"
    by (auto simp: pg_PurgeExpired_def)
qed

lemma calm_after:
  "wrap_error what (statement q s) = (r, s') \<Longrightarrow> pg_faults s = [] \<Longrightarrow> pg_faults s' = []"
  "pg_PurgeExpired P b s = (purged, s') \<Longrightarrow> pg_faults s = [] \<Longrightarrow> pg_faults s' = []"
  using statement_calm(1) [of s what q] purge_calm(1) [of s P b] by auto

lemma insert_calm:
  "is_ok (fst (insert_statement key tab set_tab row d)) \<longleftrightarrow> select_row key (key row) (tab d) = None"
  by (simp add: insert_statement_def insert_row_def)

locale pg_answering = pg_server +
  assumes lookup: "\<And>e. is_ok (userLookup P e)"

sublocale pg_answering \<subseteq> calm: reliable_store "pg_ops P" "pg_abs P" "pg_calm P" "pg_rounding (conv P)"
proof (intro reliable_store.intro store.with_invariant [of "\<lambda>s. pg_faults s = []", folded pg_calm_def])
  show "reliable_store_axioms (pg_ops P) (pg_abs P) (pg_calm P)"
    by unfold_locales
       (auto simp: pg_calm_def store_defs statement_calm purge_calm insert_calm lookup pg_abs_def rows_of_def
          kept_code_def kept_pending_def kept_refresh_def)
qed (auto simp: preserves_def store_defs dest: calm_after split: if_splits)

context pg_answering
begin

lemma answers: "reliable_store (pg_ops P) (pg_abs P) (pg_calm P) (pg_rounding (conv P))"
  by unfold_locales

end

section \<open>Two deployments\<close>

text \<open>
  A driver that truncates to microseconds with a session in UTC, and a server that rounds to the
  nearest microsecond with a session in New York, whose local mean time was 17762 seconds
  behind.
\<close>

definition utc_truncating :: pg_conversion where
  "utc_truncating = \<lparr>pg_keep = (\<lambda>t. t div 1000 * 1000), pg_load = (\<lambda>t. t), pg_zone = 0\<rparr>"

definition new_york_rounding :: pg_conversion where
  "new_york_rounding = \<lparr>pg_keep = (\<lambda>t. (t + 500) div 1000 * 1000), pg_load = (\<lambda>t. t), pg_zone = - 17762\<rparr>"

lemma micros_mono: "mono (\<lambda>t :: int. (t + c) div 1000 * 1000)"
  by (auto intro!: monoI mult_right_mono zdiv_mono1)

lemma micros_near: "(t + c) div 1000 * 1000 \<le> t + c" "t + c < (t + c) div 1000 * 1000 + 1000" for t c :: int
  by (simp_all add: minus_mod_eq_div_mult [symmetric])

lemma utc_truncating_documented: "pg_documented utc_truncating"
  using micros_mono [of 0] micros_near [where c = 0]
  by (auto simp: pg_documented_def utc_truncating_def strict_mono_def abs_if not_less intro: less_imp_le)

lemma new_york_rounding_documented: "pg_documented new_york_rounding"
proof -
  have "\<bar>(t + 500) div 1000 * 1000 - t\<bar> \<le> 1000" for t :: int using micros_near [of t 500] by linarith
  then show ?thesis
    using micros_mono [of 500] by (simp add: pg_documented_def new_york_rounding_def strict_mono_def)
qed

interpretation utc: pg_answering "\<lparr>conv = utc_truncating, userLookup = (\<lambda>e. Inr None)\<rparr>"
  by unfold_locales (simp_all add: utc_truncating_documented)

interpretation ny: pg_server "\<lparr>conv = new_york_rounding, userLookup = lookup\<rparr>"
  by unfold_locales (simp add: new_york_rounding_documented)

end
