(* ===== verification/Pg_Properties.thy ===== *)
theory Pg_Properties
  imports Pgstore_Contract
begin

text \<open>
  Properties of the PostgreSQL store: it keeps the contract the handlers rely on, instants come
  back to the microsecond, the first stamp of a refresh token is the one that stays, an insertion
  never overwrites the reuse ledger, and a purge that was interrupted is completed by the next.
\<close>

section \<open>A sample table\<close>

definition sample_pg :: "pg_conversion \<Rightarrow> pgstore" where
  "sample_pg D = \<lparr>conv = D, userLookup = (\<lambda>e. Inr None)\<rparr>"

definition sample_token :: refresh_token where
  "sample_token = \<lparr>rt_TokenHash = ''hash'', rt_ClientID = ''client'', rt_UserID = ''user'', rt_FamilyID = ''family'',
     rt_FamilyCreatedAt = 0, rt_FamilyExpiresAt = clock_floor + 2 * hour + 1, rt_ExpiresAt = clock_floor + hour + 999,
     rt_CreatedAt = clock_floor, rt_ConsumedAt = 0\<rparr>"

definition sample_rows :: "fault list \<Rightarrow> pg_store" where
  "sample_rows faults = \<lparr>pg_db = \<lparr>t_clients = [], t_codes = [], t_pending = [],
     t_refresh = [kept_refresh utc_truncating sample_token]\<rparr>, pg_faults = faults\<rparr>"

lemma sample_pg_simps [simp]: "conv (sample_pg D) = D" "userLookup (sample_pg D) e = Inr None"
  by (simp_all add: sample_pg_def)

lemma sample_row_found: "select_row token_hash ''hash'' (t_refresh (pg_db (sample_rows faults))) =
    Some (kept_refresh utc_truncating sample_token)"
  by (simp add: sample_rows_def kept_refresh_def sample_token_def)

section \<open>Helper lemmas\<close>

lemma statement_no_fault: "pg_faults s = [] \<Longrightarrow> statement q s = (fst (q (pg_db s)), s\<lparr>pg_db := snd (q (pg_db s))\<rparr>)"
  by (simp add: statement_def split_beta)

lemma wrap_error_Inr [simp]: "wrap_error what (r, s) = (Inr x, s') \<longleftrightarrow> r = Inr x \<and> s' = s"
  by (auto simp: wrap_error_def split: sum.splits)

lemma wrap_error_ok [simp]: "wrap_error what (Inr x, s) = (Inr x, s)"
  by simp

lemma lookup_delete_twice [simp]: "delete_rows A (delete_rows A rows) = delete_rows A rows"
  by (simp add: delete_rows_def)

definition usual_instant :: "time \<Rightarrow> bool" where
  "usual_instant t \<longleftrightarrow> IsZero t \<or> clock_floor \<le> t"

definition same_instant :: "time \<Rightarrow> time \<Rightarrow> bool" where
  "same_instant t t' \<longleftrightarrow> (if IsZero t then IsZero t' else \<bar>t' - t\<bar> \<le> 1000)"

lemma instant_read_back:
  assumes "pg_documented D" and "usual_instant t"
  shows "same_instant t (normalizeZeroTime D (pg_load D (pg_keep D t)))"
  using assms normalize_zero [OF assms(1)] pg_round_late [OF assms(1)] documented(2) [OF assms(1), of t]
  by (auto simp: usual_instant_def same_instant_def)

lemma insert_refused:
  assumes "select_row token_hash (rt_TokenHash rt) (t_refresh (pg_db s)) = Some row" and "pg_SaveRefreshToken P rt s = (r, s')"
  shows "\<not> is_ok r \<and> pg_db s' = pg_db s"
  using insert_cases [OF assms(2) [unfolded pg_SaveRefreshToken_def]] assms(1) by (auto simp: kept_refresh_def)

text \<open>A token presented several times.\<close>

fun consume_all :: "pgstore \<Rightarrow> string \<Rightarrow> time list \<Rightarrow> pg_store \<Rightarrow> refresh_token option res list" where
  "consume_all P h [] s = []"
| "consume_all P h (t # ts) s =
     (case pg_ConsumeRefreshToken P h t s of (r, s') \<Rightarrow> r # consume_all P h ts s')"

lemma consume_once:
  assumes "pg_faults s = []" and "select_row token_hash h (t_refresh (pg_db s)) = Some row"
  obtains s' where "pg_ConsumeRefreshToken P h t s = (Inr (Some (scanRefreshToken (conv P) row)), s')"
    and "pg_faults s' = []"
    and "select_row token_hash h (t_refresh (pg_db s')) =
      Some (if consumed_at row = None then row\<lparr>consumed_at := Some (pg_keep (conv P) t)\<rparr> else row)"
proof (rule that)
  let ?s' = "s\<lparr>pg_db := (pg_db s)\<lparr>t_refresh := consume_refresh_rows h (pg_keep (conv P) t) (t_refresh (pg_db s))\<rparr>\<rparr>"
  show "pg_ConsumeRefreshToken P h t s = (Inr (Some (scanRefreshToken (conv P) row)), ?s')"
    using assms by (simp add: pg_ConsumeRefreshToken_def statement_no_fault)
  show "pg_faults ?s' = []" using assms(1) by simp
  show "select_row token_hash h (t_refresh (pg_db ?s')) =
      Some (if consumed_at row = None then row\<lparr>consumed_at := Some (pg_keep (conv P) t)\<rparr> else row)"
    using assms(2) by (auto simp: consume_refresh_rows_def select_row_update dest: select_row_Some)
qed

lemma consume_spent:
  assumes "pg_faults s = []" and "select_row token_hash h (t_refresh (pg_db s)) = Some row" and "consumed_at row \<noteq> None"
  shows "consume_all P h ts s = map (\<lambda>_. Inr (Some (scanRefreshToken (conv P) row))) ts"
  using assms
proof (induction ts arbitrary: s)
  case (Cons t ts)
  obtain s' where "pg_ConsumeRefreshToken P h t s = (Inr (Some (scanRefreshToken (conv P) row)), s')"
    "pg_faults s' = []" "select_row token_hash h (t_refresh (pg_db s')) = Some row"
    using consume_once [OF Cons.prems(1,2), of P t] Cons.prems(3) by auto
  then show ?case using Cons.IH [of s'] Cons.prems(3) by simp
qed simp

text \<open>What a purge may not take: the rows that have not expired.\<close>

definition live_kept :: "time \<Rightarrow> pg_tables \<Rightarrow> pg_tables \<Rightarrow> bool" where
  "live_kept b d d' \<longleftrightarrow>
     (\<forall>r \<in> set (t_codes d). \<not> ac_ExpiresAt r < b \<longrightarrow> r \<in> set (t_codes d')) \<and>
     (\<forall>r \<in> set (t_pending d). \<not> pa_ExpiresAt r < b \<longrightarrow> r \<in> set (t_pending d')) \<and>
     (\<forall>r \<in> set (t_refresh d). \<not> (tok_expires_at r < b \<and> family_expires_at r < b) \<longrightarrow> r \<in> set (t_refresh d')) \<and>
     (\<forall>r \<in> set (t_clients d). \<not> cl_ExpiresAt r < b \<longrightarrow> r \<in> set (t_clients d'))"

lemma purge_prefix:
  assumes "pg_PurgeExpired P b s = (r, s')"
  obtains n where "n \<le> 4" and "pg_db s' = purged_tables n (pg_keep (conv P) b) (pg_db s)"
    and "is_ok r \<Longrightarrow> n = 4" and "pg_faults s = [] \<Longrightarrow> is_ok r \<and> pg_faults s' = []"
  using purge_loop_prefix [OF assms [unfolded pg_PurgeExpired_def]]
  by (auto simp: purged_tables_def purge_statements_length)

lemma purge_no_fault:
  assumes "pg_faults s = []"
  shows "pg_PurgeExpired P b s = (Inr (), s\<lparr>pg_db := purged_tables 4 (pg_keep (conv P) b) (pg_db s)\<rparr>)"
proof -
  obtain r s' where r: "pg_PurgeExpired P b s = (r, s')" by force
  then obtain n where "pg_db s' = purged_tables n (pg_keep (conv P) b) (pg_db s)" "is_ok r \<Longrightarrow> n = 4" "is_ok r \<and> pg_faults s' = []"
    using assms by (metis purge_prefix)
  then show ?thesis using r assms by (cases r) (auto intro: pg_store.equality)
qed

lemma purge_after_prefix: "purged_tables 4 b (purged_tables n b d) = purged_tables 4 b d"
  by (rule pg_tables.equality) (simp_all add: purged_tables_simps)

section \<open>Properties\<close>

text \<open>
  C12. The PostgreSQL store keeps the store contract - atomic consumption of a code, a pending
  record or a refresh token, the first stamp kept, rows read back as saved, nothing but expired
  rows purged - for every documented treatment of instants and whichever statements fail; when
  none does and the application's lookup answers, no method fails but the insertion of a hash
  that is taken. So every property of the handlers holds on it.
\<close>

theorem pgstore_keeps_contract:
  assumes "pg_documented (conv P)"
  shows "store_contract (pg_ops P) (pg_abs P) (pg_inv P) (pg_rounding (conv P)) \<and>
    ((\<forall>e. is_ok (userLookup P e)) \<longrightarrow> reliable_store (pg_ops P) (pg_abs P) (pg_calm P) (pg_rounding (conv P)))"
proof -
  have server: "pg_server P" using assms by (rule pg_server.intro)
  then have "reliable_store (pg_ops P) (pg_abs P) (pg_calm P) (pg_rounding (conv P))" if "\<forall>e. is_ok (userLookup P e)"
    using that server by (intro pg_answering.answers pg_answering.intro pg_answering_axioms.intro) auto
  with pg_server.keeps [OF server] show ?thesis by blast
qed

theorem pgstore_keeps_contract_witness:
  "reliable_store (pg_ops (sample_pg new_york_rounding)) (pg_abs (sample_pg new_york_rounding))
     (pg_calm (sample_pg new_york_rounding)) (pg_rounding new_york_rounding)"
  using pgstore_keeps_contract [of "sample_pg new_york_rounding"] by (simp add: new_york_rounding_documented)

text \<open>
  C24. A saved refresh token is read back with its client, user and family, every instant of a
  sane clock to the microsecond and every zero instant as the zero time, in every time zone a
  session may be in, and not consumed, whatever the record handed over said.
\<close>

theorem refresh_token_roundtrip:
  assumes "pg_documented (conv P)" and "pg_SaveRefreshToken P rt s = (Inr (), s')" and "pg_faults s' = []"
    and "usual_instant (rt_FamilyCreatedAt rt)" and "usual_instant (rt_FamilyExpiresAt rt)"
    and "usual_instant (rt_ExpiresAt rt)" and "usual_instant (rt_CreatedAt rt)"
  shows "\<exists>rt'. pg_GetRefreshToken P (rt_TokenHash rt) s' = (Inr (Some rt'), s') \<and>
    rt_TokenHash rt' = rt_TokenHash rt \<and> rt_ClientID rt' = rt_ClientID rt \<and> rt_UserID rt' = rt_UserID rt \<and>
    rt_FamilyID rt' = rt_FamilyID rt \<and> same_instant (rt_FamilyCreatedAt rt) (rt_FamilyCreatedAt rt') \<and>
    same_instant (rt_FamilyExpiresAt rt) (rt_FamilyExpiresAt rt') \<and> same_instant (rt_ExpiresAt rt) (rt_ExpiresAt rt') \<and>
    same_instant (rt_CreatedAt rt) (rt_CreatedAt rt') \<and> IsZero (rt_ConsumedAt rt')"
proof -
  let ?row = "kept_refresh (conv P) rt"
  have "select_row token_hash (token_hash ?row) (t_refresh (pg_db s)) = None"
    and db: "pg_db s' = (pg_db s)\<lparr>t_refresh := t_refresh (pg_db s) @ [?row]\<rparr>"
    using insert_cases [OF assms(2) [unfolded pg_SaveRefreshToken_def]] by simp_all
  then have "select_row token_hash (rt_TokenHash rt) (t_refresh (pg_db s')) = Some ?row"
    by (simp add: select_row_append kept_refresh_def)
  then have "pg_GetRefreshToken P (rt_TokenHash rt) s' = (Inr (Some (scanRefreshToken (conv P) ?row)), s')"
    by (simp add: pg_GetRefreshToken_def statement_no_fault assms(3))
  then show ?thesis
    using assms(4-7) instant_read_back [OF assms(1)] by (auto simp: scanRefreshToken_def kept_refresh_def)
qed

theorem refresh_token_roundtrip_witness:
  "\<exists>s' rt'. pg_SaveRefreshToken (sample_pg new_york_rounding) (sample_token\<lparr>rt_TokenHash := ''next''\<rparr>) (sample_rows []) = (Inr (), s') \<and>
     pg_GetRefreshToken (sample_pg new_york_rounding) ''next'' s' = (Inr (Some rt'), s') \<and>
     IsZero (rt_FamilyCreatedAt rt') \<and> \<bar>rt_ExpiresAt rt' - (clock_floor + hour + 999)\<bar> \<le> 1000"
proof -
  let ?P = "sample_pg new_york_rounding" and ?rt = "sample_token\<lparr>rt_TokenHash := ''next''\<rparr>"
  obtain s' where s': "pg_SaveRefreshToken ?P ?rt (sample_rows []) = (Inr (), s')" "pg_faults s' = []"
    by (auto simp: pg_SaveRefreshToken_def statement_def insert_statement_def insert_row_def sample_rows_def
        kept_refresh_def sample_token_def)
  obtain rt' where "pg_GetRefreshToken ?P (rt_TokenHash ?rt) s' = (Inr (Some rt'), s') \<and>
      same_instant (rt_FamilyCreatedAt ?rt) (rt_FamilyCreatedAt rt') \<and> same_instant (rt_ExpiresAt ?rt) (rt_ExpiresAt rt')"
    using refresh_token_roundtrip [OF _ s'] by (auto simp: new_york_rounding_documented sample_token_def usual_instant_def)
  then show ?thesis using s'(1) by (auto simp: same_instant_def sample_token_def)
qed

text \<open>
  C22. The stamp of the first consumption stays: a token that is presented any number of times is
  first returned as not consumed, and every later time with the instant of the first, to the
  microsecond, whatever instants the later calls hand over. So the grace window does not roll.
\<close>

theorem first_stamp_stays:
  assumes "pg_documented (conv P)" and "pg_faults s = []" and "clock_floor \<le> t"
    and "select_row token_hash h (t_refresh (pg_db s)) = Some row" and "consumed_at row = None"
  shows "\<exists>rt t'. consume_all P h (t # ts) s =
      Inr (Some rt) # map (\<lambda>_. Inr (Some (rt\<lparr>rt_ConsumedAt := t'\<rparr>))) ts \<and>
    IsZero (rt_ConsumedAt rt) \<and> rt_TokenHash rt = h \<and> same_instant t t'"
proof -
  let ?D = "conv P" and ?row = "row\<lparr>consumed_at := Some (pg_keep (conv P) t)\<rparr>"
  obtain s' where "pg_ConsumeRefreshToken P h t s = (Inr (Some (scanRefreshToken ?D row)), s')" "pg_faults s' = []"
    "select_row token_hash h (t_refresh (pg_db s')) = Some ?row"
    using consume_once [OF assms(2,4), of P t] assms(5) by auto
  then have "consume_all P h (t # ts) s = Inr (Some (scanRefreshToken ?D row)) # map (\<lambda>_. Inr (Some (scanRefreshToken ?D ?row))) ts"
    using consume_spent [of s' h ?row P ts] by simp
  moreover have "scanRefreshToken ?D ?row = (scanRefreshToken ?D row)\<lparr>rt_ConsumedAt := pg_keep ?D t\<rparr>"
    using pg_round_late [OF assms(1,3)] by (simp add: scanRefreshToken_def)
  moreover have "same_instant t (pg_keep ?D t)"
    using assms(3) documented(2) [OF assms(1)] by (simp add: same_instant_def)
  ultimately show ?thesis
    using assms(4,5) by (intro exI [of _ "scanRefreshToken ?D row"] exI [of _ "pg_keep ?D t"])
      (auto simp: scanRefreshToken_def dest: select_row_Some)
qed

theorem first_stamp_stays_witness:
  "\<exists>rt t'. consume_all (sample_pg utc_truncating) ''hash'' [clock_floor + 1, clock_floor + hour, clock_floor + 2 * hour] (sample_rows []) =
     [Inr (Some rt), Inr (Some (rt\<lparr>rt_ConsumedAt := t'\<rparr>)), Inr (Some (rt\<lparr>rt_ConsumedAt := t'\<rparr>))] \<and>
     IsZero (rt_ConsumedAt rt) \<and> \<bar>t' - (clock_floor + 1)\<bar> \<le> 1000"
  using first_stamp_stays [of "sample_pg utc_truncating" "sample_rows []" "clock_floor + 1" "''hash''" _ "[clock_floor + hour, clock_floor + 2 * hour]",
      OF _ _ _ sample_row_found]
  by (simp add: utc_truncating_documented same_instant_def) (auto simp: sample_rows_def kept_refresh_def)

text \<open>
  Saving a refresh token under a hash that is already stored is refused and changes no row,
  so a consumed row is never reset to a fresh one by an insertion.
\<close>

theorem ledger_not_overwritten:
  assumes "select_row token_hash (rt_TokenHash rt) (t_refresh (pg_db s)) = Some row"
    and "pg_SaveRefreshToken P rt s = (r, s')"
  shows "(\<exists>e. r = Inl e) \<and> pg_db s' = pg_db s"
  using insert_refused [OF assms] by (cases r) simp_all

theorem ledger_not_overwritten_witness:
  "\<exists>e s'. pg_SaveRefreshToken (sample_pg utc_truncating) sample_token (sample_rows [NoFault]) = (Inl e, s') \<and>
     pg_db s' = pg_db (sample_rows [])"
proof -
  obtain r s' where r: "pg_SaveRefreshToken (sample_pg utc_truncating) sample_token (sample_rows [NoFault]) = (r, s')" by force
  have "rt_TokenHash sample_token = ''hash''" by (simp add: sample_token_def)
  with ledger_not_overwritten [OF _ r] sample_row_found [of "[NoFault]"] r show ?thesis
    by (auto simp: sample_rows_def)
qed

text \<open>
  C23. A purge that fails half-way has deleted nothing but expired rows - a refresh token only
  when its own expiry and its family's have both passed - and the next purge with the same
  instant brings the tables to where a purge without failure would have brought them.
\<close>

theorem purge_resumes:
  assumes "pg_PurgeExpired P b s = (r, s')"
  shows "live_kept (pg_keep (conv P) b) (pg_db s) (pg_db s') \<and>
    fst (pg_PurgeExpired P b (s'\<lparr>pg_faults := []\<rparr>)) = Inr () \<and>
    pg_db (snd (pg_PurgeExpired P b (s'\<lparr>pg_faults := []\<rparr>))) = pg_db (snd (pg_PurgeExpired P b (s\<lparr>pg_faults := []\<rparr>)))"
proof -
  obtain n where "pg_db s' = purged_tables n (pg_keep (conv P) b) (pg_db s)" using purge_prefix [OF assms] by metis
  then show ?thesis
    by (simp add: purge_no_fault purge_after_prefix) (auto simp: live_kept_def purged_tables_simps delete_rows_def)
qed

theorem purge_resumes_witness:
  "\<exists>e s'. pg_PurgeExpired (sample_pg utc_truncating) (clock_floor + 3 * hour) (sample_rows [NoFault, NoFault, LostBefore]) = (Inl e, s') \<and>
     t_refresh (pg_db s') \<noteq> [] \<and>
     t_refresh (pg_db (snd (pg_PurgeExpired (sample_pg utc_truncating) (clock_floor + 3 * hour) (s'\<lparr>pg_faults := []\<rparr>)))) = []"
proof -
  let ?purge = "pg_PurgeExpired (sample_pg utc_truncating) (clock_floor + 3 * hour)"
  obtain e s' where s': "?purge (sample_rows [NoFault, NoFault, LostBefore]) = (Inl e, s')" "t_refresh (pg_db s') \<noteq> []"
    by (auto simp: pg_PurgeExpired_def purge_statements_def statement_def sample_rows_def)
  have "t_refresh (pg_db (snd (?purge ((sample_rows [NoFault, NoFault, LostBefore])\<lparr>pg_faults := []\<rparr>)))) = []"
    by (subst purge_no_fault)
      (simp_all add: purged_tables_simps sample_rows_def delete_rows_def kept_refresh_def utc_truncating_def sample_token_def)
  with s' purge_resumes [OF s'(1)] show ?thesis by auto
qed

text \<open>
  A store is only ever built on a database handle, and its user lookup is the one of the last
  option that is not nil; without both there is an error and no store.
\<close>

theorem store_has_lookup:
  assumes "pg_New db opts = Inr P"
  shows "db = Some (conv P) \<and>
    (\<exists>before after. opts = before @ WithUserLookup (Some (userLookup P)) # after \<and> (\<forall>x \<in> set after. x = NilOption))"
proof -
  let ?apply = "\<lambda>opt lookup. case opt of NilOption \<Rightarrow> lookup | WithUserLookup fn \<Rightarrow> fn"
  have last: "\<exists>before after. os = before @ WithUserLookup (Some fn) # after \<and> (\<forall>x \<in> set after. x = NilOption)"
    if "fold ?apply os None = Some fn" for os fn
    using that
  proof (induction os rule: rev_induct)
    case (snoc x os)
    show ?case
    proof (cases x)
      case NilOption
      with snoc obtain before after where "os = before @ WithUserLookup (Some fn) # after" "\<forall>x \<in> set after. x = NilOption"
        by auto
      with NilOption show ?thesis by (intro exI [of _ before] exI [of _ "after @ [x]"]) simp
    next
      case (WithUserLookup f)
      with snoc.prems show ?thesis by (intro exI [of _ os] exI [of _ "[]"]) simp
    qed
  qed simp
  from assms show ?thesis by (auto simp: pg_New_def split: option.splits) (drule last, blast)
qed

theorem store_has_lookup_witness:
  "pg_New (Some utc_truncating) [NilOption, WithUserLookup None, WithUserLookup (Some (\<lambda>e. Inr None)), NilOption] =
     Inr (sample_pg utc_truncating) \<and>
   (\<exists>before after. [NilOption, WithUserLookup None, WithUserLookup (Some (\<lambda>e. Inr None)), NilOption] =
     before @ WithUserLookup (Some (userLookup (sample_pg utc_truncating))) # after)"
proof -
  have "pg_New (Some utc_truncating) [NilOption, WithUserLookup None, WithUserLookup (Some (\<lambda>e. Inr None)), NilOption] =
      Inr (sample_pg utc_truncating)"
    by (simp add: pg_New_def sample_pg_def)
  with store_has_lookup [OF this] show ?thesis by blast
qed

end
