(* ===== verification/Schema.thy ===== *)
theory Schema
  imports Prelude
begin

text \<open>
  The PostgreSQL schema and its migrations (\<open>pgstore/schema.go\<close>): the DDL statements over
  a catalog of tables with their columns, the versioned steps, and the transaction of
  \<open>EnsureSchema\<close>. The advisory lock makes concurrent calls run one after the other, so a call
  is one function on the catalog. Which call of the transaction fails is a parameter.
\<close>

section \<open>Catalog and DDL\<close>

type_synonym columns = "(string \<times> string) list"

record catalog =
  cat_tables :: "(string \<times> columns) list"
  cat_indexes :: "string list"
  cat_version :: "int option"  \<comment> \<open>the row of \<open>mcp_oauth_schema_version\<close>\<close>

datatype ddl =
    CreateTable string columns
  | CreateIndex string string "string list"
  | DropColumn string string

definition has_columns :: "catalog \<Rightarrow> string \<Rightarrow> string list \<Rightarrow> bool" where
  "has_columns c t cols \<longleftrightarrow>
     (case map_of (cat_tables c) t of None \<Rightarrow> False | Some cs \<Rightarrow> list_all (\<lambda>n. n \<in> fst ` set cs) cols)"

fun run_ddl :: "ddl \<Rightarrow> catalog \<Rightarrow> catalog res" where
  \<comment> \<open>\<open>CREATE TABLE IF NOT EXISTS\<close>\<close>
  "run_ddl (CreateTable t cols) c =
     (if map_of (cat_tables c) t = None then Inr (c\<lparr>cat_tables := cat_tables c @ [(t, cols)]\<rparr>) else Inr c)"
  \<comment> \<open>\<open>CREATE INDEX IF NOT EXISTS\<close>\<close>
| "run_ddl (CreateIndex i t cols) c =
     (if i \<in> set (cat_indexes c) then Inr c
      else if has_columns c t cols then Inr (c\<lparr>cat_indexes := cat_indexes c @ [i]\<rparr>)
      else Inl ''column does not exist'')"
  \<comment> \<open>\<open>ALTER TABLE ... DROP COLUMN IF EXISTS\<close>\<close>
| "run_ddl (DropColumn t col) c =
     (case map_of (cat_tables c) t of
        None \<Rightarrow> Inl ''relation does not exist''
      | Some cs \<Rightarrow> Inr (c\<lparr>cat_tables :=
          map (\<lambda>(n, ks). (n, if n = t then filter (\<lambda>(k, ty). k \<noteq> col) ks else ks)) (cat_tables c)\<rparr>))"

fun run_script :: "ddl list \<Rightarrow> catalog \<Rightarrow> catalog res" where
  "run_script [] c = Inr c"
| "run_script (s # ss) c = (case run_ddl s c of Inl e \<Rightarrow> Inl e | Inr c' \<Rightarrow> run_script ss c')"

definition SchemaSQL :: "ddl list" where
  "SchemaSQL =
    [CreateTable ''mcp_oauth_clients''
       [(''client_id'', ''TEXT PRIMARY KEY''), (''redirect_uris'', ''JSONB NOT NULL''),
        (''client_name'', ''TEXT NOT NULL DEFAULT '' @ [CHR 0x27, CHR 0x27]), (''created_at'', ''TIMESTAMPTZ NOT NULL''),
        (''expires_at'', ''TIMESTAMPTZ NOT NULL'')],
     CreateTable ''mcp_oauth_auth_codes''
       [(''code_hash'', ''TEXT PRIMARY KEY''), (''client_id'', ''TEXT NOT NULL''), (''user_id'', ''TEXT NOT NULL''),
        (''redirect_uri'', ''TEXT NOT NULL''), (''code_challenge'', ''TEXT NOT NULL''),
        (''expires_at'', ''TIMESTAMPTZ NOT NULL''), (''created_at'', ''TIMESTAMPTZ NOT NULL'')],
     CreateTable ''mcp_oauth_pending_auth''
       [(''state_hash'', ''TEXT PRIMARY KEY''), (''client_id'', ''TEXT NOT NULL''), (''redirect_uri'', ''TEXT NOT NULL''),
        (''code_challenge'', ''TEXT NOT NULL''), (''client_state'', ''TEXT NOT NULL DEFAULT '' @ [CHR 0x27, CHR 0x27]),
        (''binder_hash'', ''TEXT NOT NULL''), (''approved'', ''BOOLEAN NOT NULL DEFAULT FALSE''),
        (''expires_at'', ''TIMESTAMPTZ NOT NULL''), (''created_at'', ''TIMESTAMPTZ NOT NULL'')],
     CreateTable ''mcp_oauth_refresh_tokens''
       [(''token_hash'', ''TEXT PRIMARY KEY''), (''client_id'', ''TEXT NOT NULL''), (''user_id'', ''TEXT NOT NULL''),
        (''family_id'', ''TEXT NOT NULL''), (''family_created_at'', ''TIMESTAMPTZ NOT NULL''),
        (''family_expires_at'', ''TIMESTAMPTZ NOT NULL''), (''expires_at'', ''TIMESTAMPTZ NOT NULL''),
        (''created_at'', ''TIMESTAMPTZ NOT NULL''), (''consumed_at'', ''TIMESTAMPTZ'')],
     CreateIndex ''mcp_oauth_refresh_tokens_family_id_idx'' ''mcp_oauth_refresh_tokens'' [''family_id''],
     CreateIndex ''mcp_oauth_refresh_tokens_expires_at_family_expires_at_idx'' ''mcp_oauth_refresh_tokens''
       [''expires_at'', ''family_expires_at''],
     CreateTable ''mcp_oauth_schema_version''
       [(''singleton'', ''BOOLEAN PRIMARY KEY DEFAULT TRUE CHECK (singleton)''), (''version'', ''INTEGER NOT NULL''),
        (''updated_at'', ''TIMESTAMPTZ NOT NULL DEFAULT now()'')]]"

record schema_step =
  step_version :: int
  step_sql :: ddl

definition schemaSteps :: "schema_step list" where
  "schemaSteps = [\<lparr>step_version = 1, step_sql = DropColumn ''mcp_oauth_refresh_tokens'' ''successor_sealed''\<rparr>]"

section \<open>The transaction\<close>

text \<open>
  \<open>tx_lost\<close> says for the calls still to come whether each is lost; an error ends the
  transaction, and the deferred rollback undoes it.
\<close>

record tx_state =
  tx_catalog :: catalog
  tx_lost :: "bool list"

type_synonym 'a tx = "tx_state \<Rightarrow> 'a res \<times> tx_state"

definition loses :: "tx_state \<Rightarrow> bool" where
  "loses s \<longleftrightarrow> tx_lost s \<noteq> [] \<and> hd (tx_lost s)"

definition tx_call :: "string \<Rightarrow> (catalog \<Rightarrow> ('a \<times> catalog) res) \<Rightarrow> 'a tx" where
  "tx_call what f s =
     (let s' = s\<lparr>tx_lost := tl (tx_lost s)\<rparr>
      in if loses s then (Inl (what @ '': connection lost''), s')
         else (case f (tx_catalog s) of
             Inl e \<Rightarrow> (Inl (what @ '': '' @ e), s')
           | Inr (x, c) \<Rightarrow> (Inr x, s'\<lparr>tx_catalog := c\<rparr>)))"

definition tx_then :: "'a tx \<Rightarrow> ('a \<Rightarrow> 'b tx) \<Rightarrow> 'b tx" where
  "tx_then m k s = (case m s of (Inl e, s') \<Rightarrow> (Inl e, s') | (Inr x, s') \<Rightarrow> k x s')"

definition tx_return :: "'a \<Rightarrow> 'a tx" where
  "tx_return x s = (Inr x, s)"

definition ddl_call :: "ddl list \<Rightarrow> catalog \<Rightarrow> (unit \<times> catalog) res" where
  "ddl_call script c = (case run_script script c of Inl e \<Rightarrow> Inl e | Inr c' \<Rightarrow> Inr ((), c'))"

definition read_version :: "catalog \<Rightarrow> (int option \<times> catalog) res" where
  "read_version c =
     (if has_columns c ''mcp_oauth_schema_version'' [''version''] then Inr (cat_version c, c)
      else Inl ''column does not exist'')"

fun apply_steps :: "schema_step list \<Rightarrow> int \<Rightarrow> unit tx" where
  "apply_steps [] version = tx_return ()"
| "apply_steps (step # steps) version =
     (if step_version step \<le> version then apply_steps steps version
      else tx_then (tx_call ''pgstore: applying schema step'' (ddl_call [step_sql step])) (\<lambda>_.
           tx_then (tx_call ''pgstore: recording schema version''
             (\<lambda>c. Inr ((), c\<lparr>cat_version := map_option (\<lambda>_. step_version step) (cat_version c)\<rparr>))) (\<lambda>_.
           apply_steps steps (step_version step))))"

definition schema_transaction :: "unit tx" where
  "schema_transaction =
     tx_then (tx_call ''pgstore: beginning schema transaction'' (\<lambda>c. Inr ((), c))) (\<lambda>_.
     tx_then (tx_call ''pgstore: taking the schema lock'' (\<lambda>c. Inr ((), c))) (\<lambda>_.
     tx_then (tx_call ''pgstore: creating the schema'' (ddl_call SchemaSQL)) (\<lambda>_.
     tx_then (tx_call ''pgstore: reading the schema version'' read_version) (\<lambda>found.
     tx_then (case found of
         None \<Rightarrow> tx_then (tx_call ''pgstore: initialising the schema version''
                   (\<lambda>c. Inr ((), c\<lparr>cat_version := Some 0\<rparr>))) (\<lambda>_. tx_return 0)
       | Some v \<Rightarrow> tx_return v) (\<lambda>version.
     apply_steps schemaSteps version)))))"

datatype commit_outcome = Committed | CommitLost | AnswerLost

definition EnsureSchema :: "bool \<Rightarrow> bool list \<Rightarrow> commit_outcome \<Rightarrow> catalog \<Rightarrow> unit res \<times> catalog" where
  "EnsureSchema db lost outcome c =
     (if \<not> db then (Inl ''pgstore: db is required'', c)
      else (case schema_transaction \<lparr>tx_catalog = c, tx_lost = lost\<rparr> of
          (Inl e, _) \<Rightarrow> (Inl e, c)
        | (Inr _, s) \<Rightarrow>
            (case outcome of
               Committed \<Rightarrow> (Inr (), tx_catalog s)
             | CommitLost \<Rightarrow> (Inl ''pgstore: committing the schema transaction: connection lost'', c)
             | AnswerLost \<Rightarrow> (Inl ''pgstore: committing the schema transaction: connection lost'', tx_catalog s))))"

section \<open>What a call does to the catalog\<close>

text \<open>The outcome of the transaction when no call is lost, as one function.\<close>

definition upgraded :: "catalog \<Rightarrow> catalog res" where
  "upgraded c =
     (case run_script SchemaSQL c of
        Inl e \<Rightarrow> Inl e
      | Inr c1 \<Rightarrow>
          (if \<not> has_columns c1 ''mcp_oauth_schema_version'' [''version''] then Inl ''column does not exist''
           else (let v = (case cat_version c1 of None \<Rightarrow> 0 | Some v \<Rightarrow> v)
                 in if 1 \<le> v then Inr (c1\<lparr>cat_version := Some v\<rparr>)
                    else (case run_ddl (DropColumn ''mcp_oauth_refresh_tokens'' ''successor_sealed'') c1 of
                            Inl e \<Rightarrow> Inl e
                          | Inr c2 \<Rightarrow> Inr (c2\<lparr>cat_version := Some 1\<rparr>)))))"

lemma tx_then_Inr: "tx_then m k s = (Inr y, s') \<longleftrightarrow> (\<exists>x s1. m s = (Inr x, s1) \<and> k x s1 = (Inr y, s'))"
  by (auto simp: tx_then_def split: prod.splits sum.splits)

lemma tx_call_Inr: "tx_call what f s = (Inr x, s') \<longleftrightarrow> \<not> loses s \<and>
    (\<exists>c. f (tx_catalog s) = Inr (x, c) \<and> s' = \<lparr>tx_catalog = c, tx_lost = tl (tx_lost s)\<rparr>)"
  by (auto simp: tx_call_def Let_def split: sum.splits)

lemma tx_return_Inr: "tx_return x s = (Inr y, s') \<longleftrightarrow> y = x \<and> s' = s"
  by (auto simp: tx_return_def)

lemmas tx_Inr = tx_then_Inr tx_call_Inr tx_return_Inr

lemma ddl_call_Inr: "ddl_call script c = Inr (u, c') \<longleftrightarrow> run_script script c = Inr c'"
  by (auto simp: ddl_call_def split: sum.splits)

lemma read_version_Inr: "read_version c = Inr (v, c') \<longleftrightarrow>
    has_columns c ''mcp_oauth_schema_version'' [''version''] \<and> v = cat_version c \<and> c' = c"
  by (auto simp: read_version_def)

lemma run_ddl_version: "run_ddl d (c\<lparr>cat_version := v\<rparr>) = map_sum id (\<lambda>c'. c'\<lparr>cat_version := v\<rparr>) (run_ddl d c)"
  by (cases d) (auto simp: has_columns_def split: option.splits)

lemma drop_column_version: "run_ddl (DropColumn t k) c = Inr c' \<Longrightarrow> cat_version c' = cat_version c"
  by (auto split: option.splits)

lemma apply_steps_Inr:
  "apply_steps schemaSteps v s = (Inr u, s') \<longleftrightarrow>
     (if 1 \<le> v then s' = s
      else \<not> loses s \<and> (\<exists>c. \<not> loses \<lparr>tx_catalog = c, tx_lost = tl (tx_lost s)\<rparr> \<and>
          run_ddl (DropColumn ''mcp_oauth_refresh_tokens'' ''successor_sealed'') (tx_catalog s) = Inr c \<and>
          s' = \<lparr>tx_catalog = c\<lparr>cat_version := map_option (\<lambda>_. 1) (cat_version c)\<rparr>, tx_lost = tl (tl (tx_lost s))\<rparr>))"
  by (auto simp: schemaSteps_def tx_Inr ddl_call_Inr split: sum.splits)

lemma transaction_Inr:
  assumes "schema_transaction \<lparr>tx_catalog = c, tx_lost = lost\<rparr> = (Inr u, s)"
  shows "upgraded c = Inr (tx_catalog s)"
proof -
  from assms obtain c1 lost1 v s1 where script: "run_script SchemaSQL c = Inr c1"
    and cols: "has_columns c1 ''mcp_oauth_schema_version'' [''version'']"
    and version: "(case cat_version c1 of
         None \<Rightarrow> tx_then (tx_call ''pgstore: initialising the schema version''
                   (\<lambda>c. Inr ((), c\<lparr>cat_version := Some 0\<rparr>))) (\<lambda>_. tx_return 0)
       | Some v \<Rightarrow> tx_return v) \<lparr>tx_catalog = c1, tx_lost = lost1\<rparr> = (Inr v, s1)"
    and steps: "apply_steps schemaSteps v s1 = (Inr u, s)"
    unfolding schema_transaction_def tx_then_Inr [where m = "tx_call a b" for a b] tx_call_Inr ddl_call_Inr read_version_Inr
    by (auto simp: tx_then_Inr)
  have v: "v = (case cat_version c1 of None \<Rightarrow> 0 | Some v \<Rightarrow> v)" and s1: "tx_catalog s1 = c1\<lparr>cat_version := Some v\<rparr>"
    using version by (cases "cat_version c1"; auto simp: tx_Inr)+
  show ?thesis
  proof (cases "1 \<le> v")
    case True
    then show ?thesis using script cols steps s1 by (simp add: upgraded_def Let_def apply_steps_Inr v [symmetric])
  next
    case False
    with steps obtain c2 where drop: "run_ddl (DropColumn ''mcp_oauth_refresh_tokens'' ''successor_sealed'') (tx_catalog s1) = Inr c2"
      and s: "tx_catalog s = c2\<lparr>cat_version := map_option (\<lambda>_. 1) (cat_version c2)\<rparr>"
      by (auto simp: apply_steps_Inr)
    from drop_column_version [OF drop] s1 have "cat_version c2 = Some v" by simp
    moreover from drop obtain c3 where "run_ddl (DropColumn ''mcp_oauth_refresh_tokens'' ''successor_sealed'') c1 = Inr c3"
      and "c2 = c3\<lparr>cat_version := Some v\<rparr>"
      unfolding s1 run_ddl_version by (cases "run_ddl (DropColumn ''mcp_oauth_refresh_tokens'' ''successor_sealed'') c1") auto
    ultimately show ?thesis using False script cols s
      by (simp add: upgraded_def Let_def v [symmetric] del: run_ddl.simps)
  qed
qed

lemma same_version: "cat_version c = v \<Longrightarrow> c\<lparr>cat_version := v\<rparr> = c"
  by auto

lemma transaction_complete:
  assumes "upgraded c = Inr c'"
  shows "\<exists>s. schema_transaction \<lparr>tx_catalog = c, tx_lost = []\<rparr> = (Inr (), s) \<and> tx_catalog s = c'"
proof -
  let ?drop = "run_ddl (DropColumn ''mcp_oauth_refresh_tokens'' ''successor_sealed'')"
  from assms obtain c1 where 1: "run_script SchemaSQL c = Inr c1"
    and 2: "has_columns c1 ''mcp_oauth_schema_version'' [''version'']"
    by (auto simp: upgraded_def split: sum.splits if_splits)
  have calm: "\<not> loses \<lparr>tx_catalog = x, tx_lost = []\<rparr>" for x by (simp add: loses_def)
  let ?v = "case cat_version c1 of None \<Rightarrow> 0 | Some v \<Rightarrow> v"
  have tx: "schema_transaction \<lparr>tx_catalog = c, tx_lost = []\<rparr> =
      apply_steps schemaSteps ?v \<lparr>tx_catalog = c1\<lparr>cat_version := Some ?v\<rparr>, tx_lost = []\<rparr>"
    using 1 2 by (cases "cat_version c1")
      (simp_all add: schema_transaction_def same_version tx_then_def tx_call_def calm ddl_call_def read_version_def tx_return_def)
  show ?thesis
  proof (cases "1 \<le> ?v")
    case True
    then show ?thesis using assms 1 2 by (auto simp: tx apply_steps_Inr upgraded_def Let_def)
  next
    case False
    with assms 1 2 obtain c2 where drop: "?drop c1 = Inr c2" and c': "c' = c2\<lparr>cat_version := Some 1\<rparr>"
      by (auto simp: upgraded_def Let_def split: sum.splits simp del: run_ddl.simps)
    have "?drop (c1\<lparr>cat_version := Some ?v\<rparr>) = Inr (c2\<lparr>cat_version := Some ?v\<rparr>)"
      unfolding run_ddl_version drop by simp
    then show ?thesis
      using False unfolding tx c' by (intro exI [of _ "\<lparr>tx_catalog = c2\<lparr>cat_version := Some 1\<rparr>, tx_lost = []\<rparr>"])
        (simp add: apply_steps_Inr calm del: run_ddl.simps)
  qed
qed

lemma EnsureSchema_Inr: "EnsureSchema True lost Committed c = (Inr (), c') \<Longrightarrow> upgraded c = Inr c'"
  by (auto simp: EnsureSchema_def transaction_Inr split: prod.splits sum.splits)

lemma EnsureSchema_complete: "upgraded c = Inr c' \<Longrightarrow> EnsureSchema True [] Committed c = (Inr (), c')"
  using transaction_complete [of c c'] by (auto simp: EnsureSchema_def)

section \<open>Running it again\<close>

text \<open>What each statement of the baseline establishes, and finds when it runs again.\<close>

fun in_place :: "catalog \<Rightarrow> ddl \<Rightarrow> bool" where
  "in_place c (CreateTable t cols) \<longleftrightarrow> map_of (cat_tables c) t \<noteq> None"
| "in_place c (CreateIndex i t cols) \<longleftrightarrow> i \<in> set (cat_indexes c)"
| "in_place c (DropColumn t col) \<longleftrightarrow> False"

fun creates :: "ddl \<Rightarrow> bool" where
  "creates (DropColumn t col) = False"
| "creates _ = True"

lemma map_of_drop: "map_of (map (\<lambda>(n, ks). (n, if n = t then g ks else ks)) xs) u =
    map_option (\<lambda>ks. if u = t then g ks else ks) (map_of xs u)"
  by (induction xs) auto

lemma run_ddl_establishes: "run_ddl d c = Inr c' \<Longrightarrow> creates d \<Longrightarrow> in_place c' d"
  by (cases d) (auto simp: map_add_def split: if_splits)

lemma run_ddl_keeps: "run_ddl d c = Inr c' \<Longrightarrow> in_place c e \<Longrightarrow> in_place c' e"
  by (cases d; cases e) (auto simp: map_add_def map_of_drop split: if_splits option.splits)

lemma run_ddl_again: "in_place c d \<Longrightarrow> run_ddl d c = Inr c"
  by (cases d) auto

lemma run_script_keeps: "run_script ss c = Inr c' \<Longrightarrow> in_place c e \<Longrightarrow> in_place c' e"
  by (induction ss arbitrary: c) (auto split: sum.splits dest: run_ddl_keeps)

lemma run_script_establishes:
  "run_script ss c = Inr c' \<Longrightarrow> list_all creates ss \<Longrightarrow> list_all (in_place c') ss"
  by (induction ss arbitrary: c) (auto split: sum.splits dest: run_ddl_establishes run_script_keeps)

lemma run_script_again: "list_all (in_place c) ss \<Longrightarrow> run_script ss c = Inr c"
  by (induction ss) (auto simp: run_ddl_again)

lemma in_place_version: "in_place (c\<lparr>cat_version := v\<rparr>) d = in_place c d"
  by (cases d) auto

lemma has_columns_version: "has_columns (c\<lparr>cat_version := v\<rparr>) t cols = has_columns c t cols"
  by (simp add: has_columns_def)

lemma has_columns_drop:
  "run_ddl (DropColumn t k) c = Inr c' \<Longrightarrow> has_columns c u cols \<Longrightarrow> u \<noteq> t \<Longrightarrow> has_columns c' u cols"
  by (auto simp: has_columns_def map_of_drop split: option.splits)

definition schema_current :: "catalog \<Rightarrow> bool" where
  "schema_current c \<longleftrightarrow> list_all (in_place c) SchemaSQL \<and>
     has_columns c ''mcp_oauth_schema_version'' [''version''] \<and>
     (case cat_version c of None \<Rightarrow> False | Some v \<Rightarrow> 1 \<le> v)"

lemma baseline_creates: "list_all creates SchemaSQL"
  by (simp add: SchemaSQL_def)

lemma upgraded_current:
  assumes "upgraded c = Inr c'"
  shows "schema_current c'"
proof -
  let ?drop = "run_ddl (DropColumn ''mcp_oauth_refresh_tokens'' ''successor_sealed'')"
  from assms obtain c1 where 1: "run_script SchemaSQL c = Inr c1"
    and 2: "has_columns c1 ''mcp_oauth_schema_version'' [''version'']"
    by (auto simp: upgraded_def split: sum.splits if_splits)
  have base: "list_all (in_place c1) SchemaSQL" by (rule run_script_establishes [OF 1 baseline_creates])
  consider v where "1 \<le> v" "c' = c1\<lparr>cat_version := Some v\<rparr>"
    | c2 where "?drop c1 = Inr c2" "c' = c2\<lparr>cat_version := Some 1\<rparr>"
    using assms 1 2 by (auto simp: upgraded_def Let_def split: if_splits sum.splits simp del: run_ddl.simps)
  then show ?thesis
  proof cases
    case 1
    then show ?thesis using base 2 by (simp add: schema_current_def in_place_version [abs_def] has_columns_version)
  next
    case (2 c2)
    have "list_all (in_place c2) SchemaSQL"
      using base run_ddl_keeps [OF 2(1)] by (simp add: list_all_iff)
    moreover have "has_columns c2 ''mcp_oauth_schema_version'' [''version'']"
      by (rule has_columns_drop [OF 2(1)]) (use \<open>has_columns c1 _ _\<close> in simp_all)
    ultimately show ?thesis using 2(2) by (simp add: schema_current_def in_place_version [abs_def] has_columns_version)
  qed
qed

lemma upgraded_again:
  assumes "schema_current c"
  shows "upgraded c = Inr c"
  using assms run_script_again [of c SchemaSQL]
  by (auto simp: schema_current_def upgraded_def Let_def same_version split: option.splits)

text \<open>Tables that exist are adopted: all they lose is the obsolete column.\<close>

definition adopted :: "catalog \<Rightarrow> catalog \<Rightarrow> bool" where
  "adopted c c' \<longleftrightarrow> (\<forall>t cs. map_of (cat_tables c) t = Some cs \<longrightarrow>
     (\<exists>cs'. map_of (cat_tables c') t = Some cs' \<and>
        (cs' = cs \<or> (t = ''mcp_oauth_refresh_tokens'' \<and> cs' = filter (\<lambda>(k, ty). k \<noteq> ''successor_sealed'') cs))))"

lemma run_script_adopts:
  "run_script ss c = Inr c' \<Longrightarrow> list_all creates ss \<Longrightarrow> map_of (cat_tables c) t = Some cs \<Longrightarrow> map_of (cat_tables c') t = Some cs"
proof (induction ss arbitrary: c)
  case (Cons d ss)
  then obtain c1 where 1: "run_ddl d c = Inr c1" "run_script ss c1 = Inr c'" by (auto split: sum.splits)
  have "map_of (cat_tables c1) t = Some cs"
    using 1(1) Cons.prems(2,3) by (cases d) (auto simp: map_add_def split: if_splits)
  with Cons 1 show ?case by simp
qed simp

lemma upgraded_adopts:
  assumes "upgraded c = Inr c'"
  shows "adopted c c'"
  unfolding adopted_def
proof (intro allI impI)
  fix t cs assume t: "map_of (cat_tables c) t = Some cs"
  from assms obtain c1 where 1: "run_script SchemaSQL c = Inr c1"
    by (auto simp: upgraded_def split: sum.splits)
  have "map_of (cat_tables c1) t = Some cs" by (rule run_script_adopts [OF 1 baseline_creates t])
  with assms 1 show "\<exists>cs'. map_of (cat_tables c') t = Some cs' \<and>
      (cs' = cs \<or> (t = ''mcp_oauth_refresh_tokens'' \<and> cs' = filter (\<lambda>(k, ty). k \<noteq> ''successor_sealed'') cs))"
    by (auto simp: upgraded_def Let_def map_of_drop split: if_splits sum.splits option.splits)
qed

lemma EnsureSchema_failed:
  assumes "EnsureSchema db lost outcome c = (Inl e, c')"
  shows "c' = c \<or> (outcome = AnswerLost \<and> upgraded c = Inr c')"
  using assms transaction_Inr by (fastforce simp: EnsureSchema_def split: if_splits prod.splits sum.splits commit_outcome.splits)

lemma EnsureSchema_ok:
  assumes "EnsureSchema db lost outcome c = (Inr u, c')"
  shows "db \<and> outcome = Committed \<and> upgraded c = Inr c'"
  using assms transaction_Inr by (fastforce simp: EnsureSchema_def split: if_splits prod.splits sum.splits commit_outcome.splits)

end
