(* ===== verification/Schema_Properties.thy ===== *)
theory Schema_Properties
  imports Schema
begin

text \<open>
  Properties of \<open>EnsureSchema\<close>: a call is all or nothing, a successful one leaves the current
  schema and adopts what was there, running it again changes nothing, and it succeeds on every
  database its statements can be run on.
\<close>

section \<open>Versions and sample databases\<close>

definition recorded_version :: "catalog \<Rightarrow> int" where
  "recorded_version c = (case cat_version c of None \<Rightarrow> 0 | Some v \<Rightarrow> v)"

lemma run_ddl_keeps_version: "run_ddl d c = Inr c' \<Longrightarrow> cat_version c' = cat_version c"
  by (cases d) (auto split: if_splits option.splits)

lemma run_script_keeps_version: "run_script ss c = Inr c' \<Longrightarrow> cat_version c' = cat_version c"
  by (induction ss arbitrary: c) (auto split: sum.splits dest: run_ddl_keeps_version)

lemma upgraded_version:
  assumes "upgraded c = Inr c'"
  shows "cat_version c' = Some (max 1 (recorded_version c))"
proof -
  from assms obtain c1 where "run_script SchemaSQL c = Inr c1"
    by (auto simp: upgraded_def split: sum.splits)
  with assms show ?thesis
    using run_script_keeps_version [of SchemaSQL c c1]
    by (auto simp: upgraded_def recorded_version_def Let_def max_def split: if_splits sum.splits)
qed

definition empty_catalog :: catalog where
  "empty_catalog = \<lparr>cat_tables = [], cat_indexes = [], cat_version = None\<rparr>"

text \<open>A database the first version of the library migrated, with the column version 1 drops.\<close>

definition sealed_catalog :: catalog where
  "sealed_catalog = \<lparr>cat_tables = [(''mcp_oauth_refresh_tokens'',
     [(''token_hash'', ''TEXT PRIMARY KEY''), (''family_id'', ''TEXT NOT NULL''), (''expires_at'', ''TIMESTAMPTZ NOT NULL''),
      (''family_expires_at'', ''TIMESTAMPTZ NOT NULL''), (''successor_sealed'', ''BYTEA'')])],
     cat_indexes = [''mcp_oauth_refresh_tokens_family_id_idx''], cat_version = None\<rparr>"

section \<open>Databases the statements can be run on\<close>

text \<open>Tables that exist must have the columns the indexes and the version query name.\<close>

definition columns_if_present :: "catalog \<Rightarrow> string \<Rightarrow> string list \<Rightarrow> bool" where
  "columns_if_present c t cols \<longleftrightarrow> map_of (cat_tables c) t = None \<or> has_columns c t cols"

definition upgradable :: "catalog \<Rightarrow> bool" where
  "upgradable c \<longleftrightarrow>
     columns_if_present c ''mcp_oauth_refresh_tokens'' [''family_id'', ''expires_at'', ''family_expires_at''] \<and>
     columns_if_present c ''mcp_oauth_schema_version'' [''version'']"

definition create_table :: "string \<Rightarrow> columns \<Rightarrow> catalog \<Rightarrow> catalog" where
  "create_table t cols c = (if map_of (cat_tables c) t = None then c\<lparr>cat_tables := cat_tables c @ [(t, cols)]\<rparr> else c)"

definition create_index :: "string \<Rightarrow> catalog \<Rightarrow> catalog" where
  "create_index i c = (if i \<in> set (cat_indexes c) then c else c\<lparr>cat_indexes := cat_indexes c @ [i]\<rparr>)"

lemma run_create_table: "run_ddl (CreateTable t cols) c = Inr (create_table t cols c)"
  by (simp add: create_table_def)

lemma run_create_index: "has_columns c t cols \<Longrightarrow> run_ddl (CreateIndex i t cols) c = Inr (create_index i c)"
  by (simp add: create_index_def)

lemma run_drop_column: "map_of (cat_tables c) t \<noteq> None \<Longrightarrow> is_ok (run_ddl (DropColumn t k) c)"
  by auto

lemma map_of_create [simp]:
  "map_of (cat_tables (create_table t cols c)) u =
     (case map_of (cat_tables c) u of None \<Rightarrow> if u = t then Some cols else None | Some cs \<Rightarrow> Some cs)"
  "map_of (cat_tables (create_index i c)) u = map_of (cat_tables c) u"
  by (auto simp: create_table_def create_index_def map_add_def split: option.splits)

lemma has_columns_create:
  "has_columns (create_index i c) u names = has_columns c u names"
  "u \<noteq> t \<Longrightarrow> has_columns (create_table t cols c) u names = has_columns c u names"
  "columns_if_present c t names \<Longrightarrow> list_all (\<lambda>n. n \<in> fst ` set cols) names \<Longrightarrow> has_columns (create_table t cols c) t names"
  by (auto simp: has_columns_def columns_if_present_def split: option.splits)

lemma columns_if_present_create:
  "columns_if_present (create_index i c) u names = columns_if_present c u names"
  "u \<noteq> t \<Longrightarrow> columns_if_present (create_table t cols c) u names = columns_if_present c u names"
  by (auto simp: columns_if_present_def has_columns_create split: option.splits)

lemma has_columns_subset: "has_columns c t names \<Longrightarrow> set some_names \<subseteq> set names \<Longrightarrow> has_columns c t some_names"
  by (auto simp: has_columns_def list_all_iff split: option.splits)

lemma baseline_runs:
  assumes "upgradable c"
  shows "\<exists>c1. run_script SchemaSQL c = Inr c1 \<and> has_columns c1 ''mcp_oauth_schema_version'' [''version''] \<and>
    map_of (cat_tables c1) ''mcp_oauth_refresh_tokens'' \<noteq> None"
proof -
  let ?rt = "''mcp_oauth_refresh_tokens''" and ?names = "[''family_id'', ''expires_at'', ''family_expires_at'']"
  obtain t1 t2 t3 t4 t5 k1 k2 k3 k4 k5 i1 i2 where sql: "SchemaSQL =
      [CreateTable t1 k1, CreateTable t2 k2, CreateTable t3 k3, CreateTable t4 k4,
       CreateIndex i1 ?rt [''family_id''], CreateIndex i2 ?rt [''expires_at'', ''family_expires_at''], CreateTable t5 k5]"
    and t: "t4 = ?rt" "t5 = ''mcp_oauth_schema_version''" "t1 \<noteq> t4" "t2 \<noteq> t4" "t3 \<noteq> t4" "t1 \<noteq> t5" "t2 \<noteq> t5" "t3 \<noteq> t5" "t4 \<noteq> t5"
    and k: "list_all (\<lambda>n. n \<in> fst ` set k4) ?names" "list_all (\<lambda>n. n \<in> fst ` set k5) [''version'']"
    by (rule that [OF SchemaSQL_def]) simp_all
  define c4 where "c4 = create_table t4 k4 (create_table t3 k3 (create_table t2 k2 (create_table t1 k1 c)))"
  have "has_columns c4 ?rt ?names"
    using assms k(1) t unfolding c4_def t(1)
    by (intro has_columns_create) (simp_all add: columns_if_present_create upgradable_def)
  from has_columns_subset [OF this] have cols: "has_columns c4 ?rt [''family_id'']" "has_columns c4 ?rt [''expires_at'', ''family_expires_at'']"
    by simp_all
  define c7 where "c7 = create_table t5 k5 (create_index i2 (create_index i1 c4))"
  have "run_script SchemaSQL c = Inr c7"
    using cols by (simp add: sql run_create_table run_create_index has_columns_create c4_def [symmetric] c7_def del: run_ddl.simps)
  moreover have "has_columns c7 ''mcp_oauth_schema_version'' [''version'']"
    using assms k(2) t unfolding c7_def c4_def t(2)
    by (intro has_columns_create) (simp_all add: columns_if_present_create upgradable_def)
  moreover have "map_of (cat_tables c7) ?rt \<noteq> None"
    using t by (auto simp: c7_def c4_def split: option.splits)
  ultimately show ?thesis by blast
qed

lemma upgradable_upgrades:
  assumes "upgradable c"
  shows "\<exists>c'. upgraded c = Inr c'"
proof -
  from baseline_runs [OF assms] obtain c1 where 1: "run_script SchemaSQL c = Inr c1"
    "has_columns c1 ''mcp_oauth_schema_version'' [''version'']" and "map_of (cat_tables c1) ''mcp_oauth_refresh_tokens'' \<noteq> None"
    by blast
  from run_drop_column [OF this(3), of "''successor_sealed''"]
  obtain c2 where "run_ddl (DropColumn ''mcp_oauth_refresh_tokens'' ''successor_sealed'') c1 = Inr c2"
    by (cases "run_ddl (DropColumn ''mcp_oauth_refresh_tokens'' ''successor_sealed'') c1") (auto simp del: run_ddl.simps)
  with 1 show ?thesis by (cases "1 \<le> recorded_version c1") (auto simp: upgraded_def recorded_version_def Let_def simp del: run_ddl.simps)
qed

lemma samples_upgradable: "upgradable empty_catalog" "upgradable sealed_catalog"
  by (simp_all add: upgradable_def columns_if_present_def has_columns_def empty_catalog_def sealed_catalog_def)

section \<open>Properties\<close>

text \<open>
  C19. \<open>EnsureSchema\<close> is all or nothing: whichever call of its transaction is lost, an error
  leaves the catalog as it was, unless only the answer to the commit was lost, and then the
  upgrade is complete.
\<close>

theorem schema_all_or_nothing:
  assumes "EnsureSchema db lost outcome c = (Inl e, c')"
  shows "c' = c \<or> (outcome = AnswerLost \<and> EnsureSchema True [] Committed c = (Inr (), c'))"
  using EnsureSchema_failed [OF assms] EnsureSchema_complete by blast

theorem schema_all_or_nothing_witness:
  "\<exists>e c'. EnsureSchema True [False, True] Committed sealed_catalog = (Inl e, c') \<and> c' = sealed_catalog"
proof -
  have "EnsureSchema True [False, True] Committed sealed_catalog =
      (Inl ''pgstore: taking the schema lock: connection lost'', sealed_catalog)"
    by (simp add: EnsureSchema_def schema_transaction_def tx_then_def tx_call_def loses_def)
  with schema_all_or_nothing [OF this] show ?thesis by auto
qed

text \<open>
  C20. After a successful call every table and index of the baseline is there, the recorded
  version is the newest of the one found and the last step, and the tables that existed have
  their columns, but for the one the step drops.
\<close>

theorem schema_ensured:
  assumes "EnsureSchema db lost outcome c = (Inr u, c')"
  shows "schema_current c' \<and> adopted c c' \<and> cat_version c' = Some (max 1 (recorded_version c))"
  using EnsureSchema_ok [OF assms] upgraded_current upgraded_adopts upgraded_version by blast

theorem schema_ensured_witness:
  "\<exists>c'. EnsureSchema True [] Committed sealed_catalog = (Inr (), c') \<and> schema_current c' \<and>
     adopted sealed_catalog c' \<and> cat_version c' = Some 1"
proof -
  obtain c' where "upgraded sealed_catalog = Inr c'" using upgradable_upgrades [OF samples_upgradable(2)] by blast
  then have c': "EnsureSchema True [] Committed sealed_catalog = (Inr (), c')" by (rule EnsureSchema_complete)
  with schema_ensured [OF c'] show ?thesis by (simp add: recorded_version_def sealed_catalog_def)
qed

text \<open>
  \<open>EnsureSchema\<close> may run at every start: once it has succeeded, another call with nothing
  lost succeeds too, and no other call, however it ends, changes the catalog.
\<close>

theorem schema_idempotent:
  assumes "EnsureSchema db lost outcome c = (Inr u, c')"
  shows "EnsureSchema True [] Committed c' = (Inr (), c') \<and> snd (EnsureSchema db' lost' outcome' c') = c'"
proof -
  from assms have again: "upgraded c' = Inr c'"
    using EnsureSchema_ok upgraded_current upgraded_again by blast
  obtain r c2 where r: "EnsureSchema db' lost' outcome' c' = (r, c2)" by force
  have "c2 = c'"
    using r EnsureSchema_failed [of db' lost' outcome' c' _ c2] EnsureSchema_ok [of db' lost' outcome' c' _ c2] again
    by (cases r) auto
  with r EnsureSchema_complete [OF again] show ?thesis by simp
qed

theorem schema_idempotent_witness:
  "\<exists>c'. EnsureSchema True [] Committed empty_catalog = (Inr (), c') \<and>
     snd (EnsureSchema True [False, False, True] Committed c') = c'"
proof -
  obtain c' where "upgraded empty_catalog = Inr c'" using upgradable_upgrades [OF samples_upgradable(1)] by blast
  then have c': "EnsureSchema True [] Committed empty_catalog = (Inr (), c')" by (rule EnsureSchema_complete)
  with schema_idempotent [OF c', of True "[False, False, True]" Committed] show ?thesis by blast
qed

text \<open>
  On every database whose tables, where they exist, have the columns the indexes and the
  version query name - an empty one, or one an application's own migrations made - a call with
  nothing lost succeeds.
\<close>

theorem schema_upgrades:
  assumes "upgradable c"
  shows "fst (EnsureSchema True [] Committed c) = Inr ()"
  using upgradable_upgrades [OF assms] EnsureSchema_complete [of c] by fastforce

theorem schema_upgrades_witness:
  "fst (EnsureSchema True [] Committed empty_catalog) = Inr () \<and> fst (EnsureSchema True [] Committed sealed_catalog) = Inr ()"
  using schema_upgrades [OF samples_upgradable(1)] schema_upgrades [OF samples_upgradable(2)] by simp

end
