(* ===== verification/Verify_Store.thy ===== *)
theory Verify_Store
  imports Secrets
begin

text \<open>
  \<open>Provider.VerifyStore\<close> (\<open>verify.go\<close>): the check of a \<open>Store\<close> implementation with
  canary records. The verifier is passed from check to check with the problems found so far; a
  problem stands for its message, by the method or field it names. The eight concurrent
  \<open>ConsumeRefreshToken\<close> calls are made in the order \<open>order\<close>, a parameter the scheduler
  chooses.
\<close>

section \<open>The verifier\<close>

datatype problem =
    CanaryFailed go_error
  | CallFailed string go_error
  | Missing string
  | FieldDiffers string
  | TimeNotZero string
  | TimeLost string
  | TimeDrift string
  | Violated string

definition verifyTolerance :: duration where "verifyTolerance = 2 * second"

definition defaultVerifyStoreUserID :: string where
  "defaultVerifyStoreUserID = ''mcpoauth-verify-user''"

record verifier =
  vs_now :: time
  vs_userID :: string
  problems :: "problem list"
  canaryClientID :: string
  canaryRefreshHash :: string
  canaryAtomicHash :: string

definition failf :: "problem \<Rightarrow> verifier \<Rightarrow> verifier" where
  "failf pr v = v\<lparr>problems := problems v @ [pr]\<rparr>"

definition eq_field :: "string \<Rightarrow> 'a \<Rightarrow> 'a \<Rightarrow> verifier \<Rightarrow> verifier" where
  "eq_field what got want v = (if got \<noteq> want then failf (FieldDiffers what) v else v)"

definition eqTime :: "string \<Rightarrow> time \<Rightarrow> time \<Rightarrow> verifier \<Rightarrow> verifier" where
  "eqTime what got want v =
     (if IsZero want then (if \<not> IsZero got then failf (TimeNotZero what) v else v)
      else if IsZero got then failf (TimeLost what) v
      else if time_sub got want > verifyTolerance \<or> time_sub got want < - verifyTolerance
        then failf (TimeDrift what) v
      else v)"

definition withinTolerance :: "time \<Rightarrow> time \<Rightarrow> bool" where
  "withinTolerance got want \<longleftrightarrow> time_sub got want \<le> verifyTolerance \<and> time_sub got want \<ge> - verifyTolerance"

definition canary :: "string \<Rightarrow> verifier \<Rightarrow> (string \<Rightarrow> verifier \<Rightarrow> 'a prog) \<Rightarrow> 'a prog" where
  "canary label v k = randomToken 24 (\<lambda>tok. case tok of
       Inl err \<Rightarrow> k (HashSecret (''mcpoauth-verify-fallback-'' @ label)) (failf (CanaryFailed err) v)
     | Inr tok \<Rightarrow> k (HashSecret (''mcpoauth-verify-'' @ label @ ''-'' @ tok)) v)"

section \<open>Clients and codes\<close>

definition canary_uri :: string where "canary_uri = ''http://127.0.0.1:1/mcpoauth-verify''"

definition canary_client :: "verifier \<Rightarrow> string \<Rightarrow> client" where
  "canary_client v clientID = \<lparr>cl_ClientID = clientID, cl_RedirectURIs = [canary_uri],
     cl_ClientName = ''mcpoauth VerifyStore canary'', cl_CreatedAt = vs_now v, cl_ExpiresAt = vs_now v + hour\<rparr>"

definition compare_client :: "client \<Rightarrow> client \<Rightarrow> verifier \<Rightarrow> verifier" where
  "compare_client got want v =
     (let v = eq_field ''Client.ClientID'' (cl_ClientID got) (cl_ClientID want) v;
          v = eq_field ''Client.ClientName'' (cl_ClientName got) (cl_ClientName want) v;
          v = (if length (cl_RedirectURIs got) \<noteq> 1 \<or> cl_RedirectURIs got ! 0 \<noteq> cl_RedirectURIs want ! 0
               then failf (FieldDiffers ''Client.RedirectURIs'') v else v)
      in eqTime ''Client.ExpiresAt'' (cl_ExpiresAt got) (cl_ExpiresAt want) v)"

definition checkClient :: "verifier \<Rightarrow> (verifier \<Rightarrow> 'a prog) \<Rightarrow> 'a prog" where
  "checkClient v k = canary ''client'' v (\<lambda>h v.
     let clientID = ''mcpoauth-verify-'' @ take 32 h; v = v\<lparr>canaryClientID := clientID\<rparr>; want = canary_client v clientID
     in SaveClient want (\<lambda>saved. case saved of
          Inl err \<Rightarrow> k (failf (CallFailed ''SaveClient'' err) v)
        | Inr _ \<Rightarrow> GetClient clientID (\<lambda>read. case read of
            Inl err \<Rightarrow> k (failf (CallFailed ''GetClient'' err) v)
          | Inr None \<Rightarrow> k (failf (Missing ''GetClient'') v)
          | Inr (Some got) \<Rightarrow> k (compare_client got want v))))"

definition canary_code :: "verifier \<Rightarrow> string \<Rightarrow> auth_code" where
  "canary_code v hash = \<lparr>ac_CodeHash = hash, ac_ClientID = canaryClientID v, ac_UserID = vs_userID v,
     ac_RedirectURI = canary_uri, ac_CodeChallenge = replicate 43 (CHR ''a''),
     ac_ExpiresAt = vs_now v + minute, ac_CreatedAt = vs_now v\<rparr>"

definition compare_code :: "auth_code \<Rightarrow> auth_code \<Rightarrow> verifier \<Rightarrow> verifier" where
  "compare_code got want v =
     (let v = eq_field ''AuthCode.ClientID'' (ac_ClientID got) (ac_ClientID want) v;
          v = eq_field ''AuthCode.UserID'' (ac_UserID got) (ac_UserID want) v;
          v = eq_field ''AuthCode.RedirectURI'' (ac_RedirectURI got) (ac_RedirectURI want) v;
          v = eq_field ''AuthCode.CodeChallenge'' (ac_CodeChallenge got) (ac_CodeChallenge want) v
      in eqTime ''AuthCode.ExpiresAt'' (ac_ExpiresAt got) (ac_ExpiresAt want) v)"

definition checkAuthCode :: "verifier \<Rightarrow> (verifier \<Rightarrow> 'a prog) \<Rightarrow> 'a prog" where
  "checkAuthCode v k = canary ''code'' v (\<lambda>hash v.
     let want = canary_code v hash
     in SaveAuthCode want (\<lambda>saved. case saved of
          Inl err \<Rightarrow> k (failf (CallFailed ''SaveAuthCode'' err) v)
        | Inr _ \<Rightarrow> ConsumeAuthCode hash (\<lambda>read. case read of
            Inl err \<Rightarrow> k (failf (CallFailed ''ConsumeAuthCode'' err) v)
          | Inr None \<Rightarrow> k (failf (Missing ''ConsumeAuthCode'') v)
          | Inr (Some got) \<Rightarrow>
              let v = compare_code got want v
              in ConsumeAuthCode hash (\<lambda>again. case again of
                  Inr (Some _) \<Rightarrow> k (failf (Violated ''ConsumeAuthCode is not single-use'') v)
                | _ \<Rightarrow> k v))))"

section \<open>Pending authorizations\<close>

definition canary_pending :: "verifier \<Rightarrow> string \<Rightarrow> char \<Rightarrow> string \<Rightarrow> string \<Rightarrow> pending_auth" where
  "canary_pending v hash fill client_state binder_hash = \<lparr>pa_StateHash = hash, pa_ClientID = canaryClientID v,
     pa_RedirectURI = canary_uri, pa_CodeChallenge = replicate 43 fill, pa_ClientState = client_state,
     pa_BinderHash = binder_hash, pa_Approved = True, pa_ExpiresAt = vs_now v + minute, pa_CreatedAt = vs_now v\<rparr>"

definition compare_pending :: "pending_auth \<Rightarrow> pending_auth \<Rightarrow> verifier \<Rightarrow> verifier" where
  "compare_pending got want v =
     (let v = eq_field ''PendingAuth.ClientID'' (pa_ClientID got) (pa_ClientID want) v;
          v = eq_field ''PendingAuth.RedirectURI'' (pa_RedirectURI got) (pa_RedirectURI want) v;
          v = eq_field ''PendingAuth.CodeChallenge'' (pa_CodeChallenge got) (pa_CodeChallenge want) v;
          v = eq_field ''PendingAuth.ClientState'' (pa_ClientState got) (pa_ClientState want) v;
          v = eq_field ''PendingAuth.BinderHash'' (pa_BinderHash got) (pa_BinderHash want) v;
          v = eq_field ''PendingAuth.Approved'' (pa_Approved got) (pa_Approved want) v
      in eqTime ''PendingAuth.ExpiresAt'' (pa_ExpiresAt got) (pa_ExpiresAt want) v)"

fun save_both :: "(string \<Rightarrow> pending_auth) \<Rightarrow> string list \<Rightarrow> verifier \<Rightarrow> (verifier \<Rightarrow> 'a prog) \<Rightarrow> 'a prog \<Rightarrow> 'a prog" where
  \<comment> \<open>the first loop; its early return goes to \<open>stop\<close>\<close>
  "save_both base [] v stop rest = rest"
| "save_both base (hash # hs) v stop rest = SavePendingAuth (base hash) (\<lambda>saved. case saved of
       Inl err \<Rightarrow> stop (failf (CallFailed ''SavePendingAuth'' err) v)
     | Inr _ \<Rightarrow> save_both base hs v stop rest)"

fun consume_both :: "string list \<Rightarrow> verifier \<Rightarrow> (verifier \<Rightarrow> 'a prog) \<Rightarrow> 'a prog" where
  "consume_both [] v k = k v"
| "consume_both (hash # hs) v k = ConsumePendingAuth hash (\<lambda>read. case read of
       Inl err \<Rightarrow> k (failf (CallFailed ''ConsumePendingAuth'' err) v)
     | Inr None \<Rightarrow> k (failf (Violated ''SavePendingAuth lost a record'') v)
     | Inr (Some got) \<Rightarrow>
         if pa_StateHash got \<noteq> hash then k (failf (Violated ''SavePendingAuth lost a record'') v)
         else consume_both hs v k)"

definition checkPendingAuthIsInsertNotUpsert :: "verifier \<Rightarrow> (verifier \<Rightarrow> 'a prog) \<Rightarrow> 'a prog" where
  "checkPendingAuthIsInsertNotUpsert v k =
     canary ''pending-a'' v (\<lambda>hash1 v. canary ''pending-b'' v (\<lambda>hash2 v. canary ''binder2'' v (\<lambda>bnd v.
       save_both (\<lambda>hash. canary_pending v hash (CHR ''c'') [] bnd) [hash1, hash2] v k
         (consume_both [hash1, hash2] v k))))"

definition checkPendingAuth :: "verifier \<Rightarrow> (verifier \<Rightarrow> 'a prog) \<Rightarrow> 'a prog" where
  "checkPendingAuth v k = canary ''pending'' v (\<lambda>hash v. canary ''binder'' v (\<lambda>bnd v.
     let want = canary_pending v hash (CHR ''b'') ''mcpoauth-verify-client-state'' bnd
     in SavePendingAuth want (\<lambda>saved. case saved of
          Inl err \<Rightarrow> k (failf (CallFailed ''SavePendingAuth'' err) v)
        | Inr _ \<Rightarrow> ConsumePendingAuth hash (\<lambda>read. case read of
            Inl err \<Rightarrow> k (failf (CallFailed ''ConsumePendingAuth'' err) v)
          | Inr None \<Rightarrow> k (failf (Missing ''ConsumePendingAuth'') v)
          | Inr (Some got) \<Rightarrow>
              let v = compare_pending got want v
              in ConsumePendingAuth hash (\<lambda>again.
                checkPendingAuthIsInsertNotUpsert
                  (case again of Inr (Some _) \<Rightarrow> failf (Violated ''ConsumePendingAuth is not single-use'') v | _ \<Rightarrow> v) k)))))"

section \<open>Refresh tokens\<close>

definition canary_refresh :: "verifier \<Rightarrow> string \<Rightarrow> string \<Rightarrow> duration \<Rightarrow> refresh_token" where
  "canary_refresh v hash family lifetime = \<lparr>rt_TokenHash = hash, rt_ClientID = canaryClientID v, rt_UserID = vs_userID v,
     rt_FamilyID = family, rt_FamilyCreatedAt = vs_now v - hour, rt_FamilyExpiresAt = vs_now v + hour,
     rt_ExpiresAt = vs_now v + lifetime, rt_CreatedAt = vs_now v, rt_ConsumedAt = zero_time\<rparr>"

definition compare_refresh :: "refresh_token \<Rightarrow> refresh_token \<Rightarrow> verifier \<Rightarrow> verifier" where
  "compare_refresh got want v =
     (let v = eq_field ''RefreshToken.ClientID'' (rt_ClientID got) (rt_ClientID want) v;
          v = eq_field ''RefreshToken.UserID'' (rt_UserID got) (rt_UserID want) v;
          v = eq_field ''RefreshToken.FamilyID'' (rt_FamilyID got) (rt_FamilyID want) v;
          v = eqTime ''RefreshToken.FamilyCreatedAt'' (rt_FamilyCreatedAt got) (rt_FamilyCreatedAt want) v;
          v = eqTime ''RefreshToken.FamilyExpiresAt'' (rt_FamilyExpiresAt got) (rt_FamilyExpiresAt want) v;
          v = eqTime ''RefreshToken.ExpiresAt'' (rt_ExpiresAt got) (rt_ExpiresAt want) v
      in if \<not> IsZero (rt_ConsumedAt got) then failf (Violated ''a freshly saved token came back consumed'') v else v)"

definition atomicityConcurrency :: nat where "atomicityConcurrency = 8"

fun consume_concurrently ::
  "string \<Rightarrow> time \<Rightarrow> nat list \<Rightarrow> refresh_token option res list \<Rightarrow> (refresh_token option res list \<Rightarrow> 'a prog) \<Rightarrow> 'a prog" where
  \<comment> \<open>the goroutines in the order their calls run; each writes its own slot\<close>
  "consume_concurrently hash now [] results k = k results"
| "consume_concurrently hash now (i # order) results k =
     ConsumeRefreshToken hash now (\<lambda>r. consume_concurrently hash now order (results[i := r]) k)"

fun count_first_uses :: "refresh_token option res list \<Rightarrow> nat \<Rightarrow> problem + nat" where
  "count_first_uses [] zeroCount = Inr zeroCount"
| "count_first_uses (Inl err # rs) zeroCount = Inl (CallFailed ''ConsumeRefreshToken (concurrent)'' err)"
| "count_first_uses (Inr None # rs) zeroCount = Inl (Missing ''ConsumeRefreshToken (concurrent)'')"
| "count_first_uses (Inr (Some rt) # rs) zeroCount =
     count_first_uses rs (if IsZero (rt_ConsumedAt rt) then zeroCount + 1 else zeroCount)"

definition checkRefreshTokenAtomicity :: "nat list \<Rightarrow> verifier \<Rightarrow> (verifier \<Rightarrow> 'a prog) \<Rightarrow> 'a prog" where
  "checkRefreshTokenAtomicity order v k = canary ''atomic'' v (\<lambda>hash v.
     canary ''atomic-family'' (v\<lparr>canaryAtomicHash := hash\<rparr>) (\<lambda>fam v.
     SaveRefreshToken (canary_refresh v hash (''mcpoauth-verify-atomic-family-'' @ take 16 fam) hour) (\<lambda>saved. case saved of
       Inl err \<Rightarrow> k (failf (CallFailed ''SaveRefreshToken (atomicity canary)'' err) v)
     | Inr _ \<Rightarrow> consume_concurrently hash (vs_now v) order (replicate atomicityConcurrency (Inr None)) (\<lambda>results.
         case count_first_uses results 0 of
           Inl pr \<Rightarrow> k (failf pr v)
         | Inr zeroCount \<Rightarrow>
             k (if zeroCount \<noteq> 1 then failf (Violated ''ConsumeRefreshToken is not atomic'') v else v)))))"

definition checkRevocation :: "nat list \<Rightarrow> string \<Rightarrow> string \<Rightarrow> verifier \<Rightarrow> (verifier \<Rightarrow> 'a prog) \<Rightarrow> 'a prog" where
  \<comment> \<open>the last part of \<open>checkRefreshToken\<close>\<close>
  "checkRevocation order hash familyID v k =
     RevokeRefreshTokenFamily familyID (\<lambda>revoked. case revoked of
       Inl err \<Rightarrow> k (failf (CallFailed ''RevokeRefreshTokenFamily'' err) v)
     | Inr _ \<Rightarrow> GetRefreshToken hash (\<lambda>still.
         checkRefreshTokenAtomicity order
           (case still of Inr (Some _) \<Rightarrow> failf (Violated ''RevokeRefreshTokenFamily left a token alive'') v | _ \<Rightarrow> v) k))"

definition checkConsumption :: "nat list \<Rightarrow> string \<Rightarrow> refresh_token \<Rightarrow> verifier \<Rightarrow> (verifier \<Rightarrow> 'a prog) \<Rightarrow> 'a prog" where
  \<comment> \<open>the three consumptions of \<open>checkRefreshToken\<close> and the read after them\<close>
  "checkConsumption order hash want v k =
     ConsumeRefreshToken hash (vs_now v) (\<lambda>r1. case r1 of
       Inl err \<Rightarrow> k (failf (CallFailed ''ConsumeRefreshToken'' err) v)
     | Inr None \<Rightarrow> k (failf (Missing ''ConsumeRefreshToken'') v)
     | Inr (Some rt1) \<Rightarrow>
     let v = (if \<not> IsZero (rt_ConsumedAt rt1) then failf (Violated ''ConsumeRefreshToken returned the row after stamping it'') v else v);
         v = eq_field ''ConsumeRefreshToken FamilyID'' (rt_FamilyID rt1) (rt_FamilyID want) v
     in ConsumeRefreshToken hash (vs_now v + hour) (\<lambda>r2. case r2 of
       Inl err \<Rightarrow> k (failf (CallFailed ''ConsumeRefreshToken (second call)'' err) v)
     | Inr None \<Rightarrow> k (failf (Violated ''ConsumeRefreshToken deleted the row'') v)
     | Inr (Some rt2) \<Rightarrow>
     let v = (if IsZero (rt_ConsumedAt rt2) then failf (Violated ''ConsumeRefreshToken did not persist ConsumedAt'') v
              else eqTime ''RefreshToken.ConsumedAt'' (rt_ConsumedAt rt2) (vs_now v) v);
         v = eq_field ''ConsumeRefreshToken lost FamilyID on the replay'' (rt_FamilyID rt2) (rt_FamilyID want) v
     in ConsumeRefreshToken hash (vs_now v + 2 * hour) (\<lambda>r3. case r3 of
       Inl err \<Rightarrow> k (failf (CallFailed ''ConsumeRefreshToken (third call)'' err) v)
     | Inr None \<Rightarrow> k (failf (Violated ''ConsumeRefreshToken stopped returning the row'') v)
     | Inr (Some rt3) \<Rightarrow>
     let v = (if rt_ConsumedAt rt3 \<noteq> rt_ConsumedAt rt2 \<or> \<not> withinTolerance (rt_ConsumedAt rt3) (vs_now v)
              then failf (Violated ''ConsumeRefreshToken OVERWRITES ConsumedAt'') v else v)
     in GetRefreshToken hash (\<lambda>still.
       checkRevocation order hash (rt_FamilyID want)
         (case still of Inr (Some _) \<Rightarrow> v | _ \<Rightarrow> failf (Violated ''GetRefreshToken stopped returning the row'') v) k))))"

definition checkSaved :: "nat list \<Rightarrow> string \<Rightarrow> refresh_token \<Rightarrow> verifier \<Rightarrow> (verifier \<Rightarrow> 'a prog) \<Rightarrow> 'a prog" where
  \<comment> \<open>the first part of \<open>checkRefreshToken\<close>: the row is saved, read and retained\<close>
  "checkSaved order hash want v k =
     SaveRefreshToken want (\<lambda>saved. case saved of
       Inl err \<Rightarrow> k (failf (CallFailed ''SaveRefreshToken'' err) v)
     | Inr _ \<Rightarrow> GetRefreshToken hash (\<lambda>read. case read of
       Inl err \<Rightarrow> k (failf (CallFailed ''GetRefreshToken'' err) v)
     | Inr None \<Rightarrow> k (failf (Missing ''GetRefreshToken'') v)
     | Inr (Some got) \<Rightarrow>
     canary ''never-issued'' (compare_refresh got want v) (\<lambda>never v.
     GetRefreshToken never (\<lambda>created.
     let v = (if created \<noteq> Inr None then failf (Violated ''GetRefreshToken on a hash that was never issued'') v else v)
     in PurgeExpired (vs_now v) (\<lambda>purged. case purged of
       Inl err \<Rightarrow> k (failf (CallFailed ''PurgeExpired'' err) v)
     | Inr _ \<Rightarrow> GetRefreshToken hash (\<lambda>still. case still of
       Inr (Some _) \<Rightarrow> checkConsumption order hash want v k
     | _ \<Rightarrow> k (failf (Violated ''PurgeExpired deleted a refresh token whose family lives'') v)))))))"

definition checkRefreshToken :: "nat list \<Rightarrow> verifier \<Rightarrow> (verifier \<Rightarrow> 'a prog) \<Rightarrow> 'a prog" where
  "checkRefreshToken order v k = canary ''refresh'' v (\<lambda>hash v.
     canary ''family'' (v\<lparr>canaryRefreshHash := hash\<rparr>) (\<lambda>fam v.
     checkSaved order hash (canary_refresh v hash (''mcpoauth-verify-family-'' @ take 16 fam) (- minute)) v k))"

section \<open>Cleanup\<close>

definition expire_client :: "verifier \<Rightarrow> (verifier \<Rightarrow> 'a prog) \<Rightarrow> 'a prog" where
  "expire_client v k =
     (if canaryClientID v = [] then k v
      else GetClient (canaryClientID v) (\<lambda>read. case read of
        Inr (Some c) \<Rightarrow> SaveClient (c\<lparr>cl_ExpiresAt := vs_now v - hour\<rparr>) (\<lambda>saved. case saved of
            Inl err \<Rightarrow> k (failf (CallFailed ''SaveClient while expiring the canary'' err) v)
          | Inr _ \<Rightarrow> k v)
      | _ \<Rightarrow> k v))"

fun expire_refresh :: "string list \<Rightarrow> verifier \<Rightarrow> 'a prog \<Rightarrow> 'a prog" where
  "expire_refresh [] v rest = rest"
| "expire_refresh (hash # hs) v rest =
     (if hash = [] then expire_refresh hs v rest
      else GetRefreshToken hash (\<lambda>read. case read of
        Inr (Some rt) \<Rightarrow> SaveRefreshToken (rt\<lparr>rt_ExpiresAt := vs_now v - hour, rt_FamilyExpiresAt := vs_now v - hour\<rparr>)
          (\<lambda>_. expire_refresh hs v rest)
      | _ \<Rightarrow> expire_refresh hs v rest))"

definition checkPurged :: "verifier \<Rightarrow> (verifier \<Rightarrow> 'a prog) \<Rightarrow> 'a prog" where
  \<comment> \<open>the end of \<open>cleanup\<close>\<close>
  "checkPurged v k =
     (if canaryClientID v = [] then k v
      else GetClient (canaryClientID v) (\<lambda>still.
        let v = (case still of Inr (Some _) \<Rightarrow> failf (Violated ''PurgeExpired does not delete expired clients'') v | _ \<Rightarrow> v)
        in if canaryRefreshHash v = [] then k v
           else GetRefreshToken (canaryRefreshHash v) (\<lambda>still.
             k (case still of Inr (Some _) \<Rightarrow> failf (Violated ''PurgeExpired does not delete refresh tokens'') v | _ \<Rightarrow> v))))"

definition cleanup :: "verifier \<Rightarrow> (verifier \<Rightarrow> 'a prog) \<Rightarrow> 'a prog" where
  "cleanup v k = expire_client v (\<lambda>v. expire_refresh [canaryRefreshHash v, canaryAtomicHash v] v
     (PurgeExpired (vs_now v) (\<lambda>purged. case purged of
        Inl err \<Rightarrow> k (failf (CallFailed ''PurgeExpired'' err) v)
      | Inr _ \<Rightarrow> checkPurged v k)))"

definition VerifyStore :: "provider \<Rightarrow> nat list \<Rightarrow> problem list prog" where
  \<comment> \<open>the empty list is the nil error\<close>
  "VerifyStore p order = Now (\<lambda>now.
     let v = \<lparr>vs_now = now,
        vs_userID = (if VerifyStoreUserID (cfg p) = [] then defaultVerifyStoreUserID else VerifyStoreUserID (cfg p)),
        problems = [], canaryClientID = [], canaryRefreshHash = [], canaryAtomicHash = []\<rparr>
     in checkClient v (\<lambda>v. checkAuthCode v (\<lambda>v. checkPendingAuth v (\<lambda>v. checkRefreshToken order v (\<lambda>v.
        cleanup v (\<lambda>v. Ret (problems v)))))))"

end
