(* ===== verification/Verify_Spec.thy ===== *)
theory Verify_Spec
  imports Verify_Store Wp
begin

text \<open>
  \<open>VerifyStore\<close> against a store that keeps the contract and does not fail: every check
  passes on without a problem, unless a canary collides with a row that is already there.
\<close>

section \<open>Canaries\<close>

definition canary_value :: "string \<Rightarrow> nat \<Rightarrow> byte list \<Rightarrow> string" where
  "canary_value label i bs =
     HashSecret (''mcpoauth-verify-'' @ label @ ''-'' @ b64url_encode (take 24 (drop (24 * i) bs)))"

text \<open>What the checks need of the random source: hashes no row has, and different ones.\<close>

definition canary_collision :: "astore \<Rightarrow> byte list \<Rightarrow> bool" where
  "canary_collision a bs \<longleftrightarrow>
     canary_value ''code'' 1 bs \<in> dom (a_codes a) \<or> canary_value ''pending'' 2 bs \<in> dom (a_pending a) \<or>
     canary_value ''pending-a'' 4 bs \<in> dom (a_pending a) \<or> canary_value ''pending-b'' 5 bs \<in> dom (a_pending a) \<or>
     canary_value ''refresh'' 7 bs \<in> dom (a_refresh a) \<or> canary_value ''never-issued'' 9 bs \<in> dom (a_refresh a) \<or>
     canary_value ''atomic'' 10 bs \<in> dom (a_refresh a) \<or>
     canary_value ''pending-a'' 4 bs = canary_value ''pending-b'' 5 bs \<or>
     canary_value ''refresh'' 7 bs = canary_value ''never-issued'' 9 bs \<or>
     canary_value ''refresh'' 7 bs = canary_value ''atomic'' 10 bs"

lemma awp_canary:
  assumes "24 \<le> length (w_rand w)"
  shows "awp rel n E (canary label v k) w Q =
    awp rel n E (k (canary_value label 0 (w_rand w)) v) (w\<lparr>w_rand := drop 24 (w_rand w)\<rparr>) Q"
  using assms by (simp add: canary_def randomToken_def rand_read_def canary_value_def)

lemma canary_value_drop: "canary_value label i (drop (24 * j) bs) = canary_value label (i + j) bs"
  by (simp add: canary_value_def algebra_simps)

section \<open>Instants within the tolerance\<close>

definition tolerant :: "rounding \<Rightarrow> bool" where
  "tolerant n \<longleftrightarrow> (\<forall>t. clock_floor \<le> t \<longrightarrow>
     \<bar>r_row n t - t\<bar> \<le> verifyTolerance \<and> \<bar>r_refresh n t - t\<bar> \<le> verifyTolerance)"

lemma tolerantD:
  assumes "tolerant n" and "clock_floor \<le> t"
  shows "r_row n t \<le> t + 2 * second" "t - 2 * second \<le> r_row n t"
    "r_refresh n t \<le> t + 2 * second" "t - 2 * second \<le> r_refresh n t"
  using assms by (force simp: tolerant_def verifyTolerance_def abs_le_iff)+

lemma time_sub_small: "\<bar>t - u\<bar> \<le> verifyTolerance \<Longrightarrow> time_sub t u = t - u"
  by (auto simp: time_sub_def verifyTolerance_def abs_le_iff)

lemma eqTime_near: "clock_floor \<le> want \<Longrightarrow> \<bar>got - want\<bar> \<le> verifyTolerance \<Longrightarrow> eqTime what got want v = v"
  using time_sub_small [of got want] by (auto simp: eqTime_def verifyTolerance_def abs_le_iff)

lemma eqTime_kept:
  assumes "tolerant n" and "clock_floor \<le> want"
  shows "eqTime what (r_row n want) want v = v" "eqTime what (r_refresh n want) want v = v"
  using assms by (auto simp: tolerant_def intro!: eqTime_near)

lemma within_kept: "tolerant n \<Longrightarrow> clock_floor \<le> t \<Longrightarrow> withinTolerance (r_refresh n t) t"
  using time_sub_small [of "r_refresh n t" t] by (auto simp: withinTolerance_def tolerant_def abs_le_iff)

lemma eq_field_refl [simp]: "eq_field what x x v = v"
  by (simp add: eq_field_def)

section \<open>Clients, codes and pending records\<close>

abbreviation verifying :: "verifier \<Rightarrow> bool" where
  "verifying v \<equiv> clock_floor + hour \<le> vs_now v"

lemma client_row_fields:
  "client_row n c c' \<Longrightarrow> cl_ClientID c' = cl_ClientID c \<and> cl_RedirectURIs c' = cl_RedirectURIs c \<and>
     cl_ClientName c' = cl_ClientName c \<and> cl_ExpiresAt c' = r_row n (cl_ExpiresAt c)"
  by (cases c; cases c') (simp add: client_row_def nrm_client_def)

lemma canary_client_simps [simp]:
  "cl_ClientID (canary_client v i) = i" "cl_RedirectURIs (canary_client v i) = [canary_uri]"
  "cl_ExpiresAt (canary_client v i) = vs_now v + hour"
  by (simp_all add: canary_client_def)

lemma compare_client_row:
  assumes "tolerant n" and "verifying v" and "client_row n (canary_client v i) c"
  shows "compare_client c (canary_client v i) v' = v'"
  using client_row_fields [OF assms(3)] assms(1,2) eqTime_kept [of n "vs_now v + hour"]
  by (simp add: compare_client_def Let_def)

text \<open>A row read under a key carries that key.\<close>

definition client_keyed :: "string \<Rightarrow> astore \<Rightarrow> bool" where
  "client_keyed i a \<longleftrightarrow> (\<forall>c. a_clients a i = Some c \<longrightarrow> cl_ClientID c = i)"

definition refresh_keyed :: "string \<Rightarrow> astore \<Rightarrow> bool" where
  "refresh_keyed h a \<longleftrightarrow> (\<forall>rt. a_refresh a h = Some rt \<longrightarrow> rt_TokenHash rt = h)"

lemma client_keyed_le: "client_keyed i a \<Longrightarrow> map_le (a_clients a') (a_clients a) \<Longrightarrow> client_keyed i a'"
  unfolding client_keyed_def map_le_def by (metis domI)

lemma clients_unchanged [simp]:
  "a_clients (put_refresh rt a) = a_clients a" "a_clients (stamp_refresh x t a) = a_clients a"
  "a_clients (revoke_family f a) = a_clients a"
  by (simp_all add: put_refresh_def stamp_refresh_def revoke_family_def)

lemma clients_purged: "map_le m (a_clients (purge b a)) \<Longrightarrow> map_le m (a_clients a)"
  by (auto simp: map_le_def purge_def dom_def)

lemma awp_SaveClient:
  assumes "\<And>c'. client_row n c c' \<Longrightarrow> awp True n E (k (Inr ())) (w\<lparr>w_store := put_client c' (w_store w)\<rparr>) Q"
  shows "awp True n E (SaveClient c k) w Q"
  using assms by auto

lemma awp_checkClient:
  assumes "tolerant n" and "verifying v" and "24 \<le> length (w_rand w)"
    and "\<And>w' i. w_rand w' = drop 24 (w_rand w) \<Longrightarrow> a_codes (w_store w') = a_codes (w_store w) \<Longrightarrow>
      a_pending (w_store w') = a_pending (w_store w) \<Longrightarrow> a_refresh (w_store w') = a_refresh (w_store w) \<Longrightarrow>
      client_keyed i (w_store w') \<Longrightarrow> awp True n E (k (v\<lparr>canaryClientID := i\<rparr>)) w' Q"
  shows "awp True n E (checkClient v k) w Q"
proof -
  let ?w = "w\<lparr>w_rand := drop 24 (w_rand w)\<rparr>"
  define i where "i = ''mcpoauth-verify-'' @ take 32 (canary_value ''client'' 0 (w_rand w))"
  let ?v = "v\<lparr>canaryClientID := i\<rparr>"
  have "awp True n E (SaveClient (canary_client ?v i) (\<lambda>saved. case saved of
          Inl err \<Rightarrow> k (failf (CallFailed ''SaveClient'' err) ?v)
        | Inr _ \<Rightarrow> GetClient i (\<lambda>read. case read of
            Inl err \<Rightarrow> k (failf (CallFailed ''GetClient'' err) ?v)
          | Inr None \<Rightarrow> k (failf (Missing ''GetClient'') ?v)
          | Inr (Some got) \<Rightarrow> k (compare_client got (canary_client ?v i) ?v)))) ?w Q"
  proof (rule awp_SaveClient)
    fix c' assume c': "client_row n (canary_client ?v i) c'"
    then have "compare_client c' (canary_client ?v i) ?v = ?v" and "cl_ClientID c' = i"
      using compare_client_row [of n ?v i c' ?v] client_row_fields [OF c'] assms(1,2) by simp_all
    then show "awp True n E (case Inr () of Inl err \<Rightarrow> k (failf (CallFailed ''SaveClient'' err) ?v)
        | Inr _ \<Rightarrow> GetClient i (\<lambda>read. case read of
            Inl err \<Rightarrow> k (failf (CallFailed ''GetClient'' err) ?v)
          | Inr None \<Rightarrow> k (failf (Missing ''GetClient'') ?v)
          | Inr (Some got) \<Rightarrow> k (compare_client got (canary_client ?v i) ?v)))
        (?w\<lparr>w_store := put_client c' (w_store ?w)\<rparr>) Q"
      by (simp add: put_client_def client_keyed_def assms(4))
  qed
  then show ?thesis by (simp only: checkClient_def awp_canary [OF assms(3)] Let_def i_def)
qed

lemma nrm_code_simps [simp]:
  "ac_CodeHash (nrm_code n c) = ac_CodeHash c" "ac_ClientID (nrm_code n c) = ac_ClientID c"
  "ac_UserID (nrm_code n c) = ac_UserID c" "ac_RedirectURI (nrm_code n c) = ac_RedirectURI c"
  "ac_CodeChallenge (nrm_code n c) = ac_CodeChallenge c" "ac_ExpiresAt (nrm_code n c) = r_row n (ac_ExpiresAt c)"
  by (simp_all add: nrm_code_def)

lemma compare_code_row:
  assumes "tolerant n" and "verifying v"
  shows "compare_code (nrm_code n (canary_code v h)) (canary_code v h) v' = v'"
  using assms eqTime_kept [of n "vs_now v + minute"] by (simp add: compare_code_def Let_def canary_code_def)

lemma awp_checkAuthCode:
  assumes "tolerant n" and "verifying v" and "24 \<le> length (w_rand w)"
    and "a_codes (w_store w) (canary_value ''code'' 0 (w_rand w)) = None"
    and "\<And>w'. w_rand w' = drop 24 (w_rand w) \<Longrightarrow> a_pending (w_store w') = a_pending (w_store w) \<Longrightarrow>
      a_refresh (w_store w') = a_refresh (w_store w) \<Longrightarrow> a_clients (w_store w') = a_clients (w_store w) \<Longrightarrow> awp True n E (k v) w' Q"
  shows "awp True n E (checkAuthCode v k) w Q"
proof -
  have hash: "ac_CodeHash (canary_code v h) = h" for h by (simp add: canary_code_def)
  show ?thesis
    using assms(1-4) by (simp add: checkAuthCode_def awp_canary Let_def hash put_code_def del_code_def compare_code_row assms(5))
qed

lemma nrm_pending_simps [simp]:
  "pa_StateHash (nrm_pending n p) = pa_StateHash p" "pa_ClientID (nrm_pending n p) = pa_ClientID p"
  "pa_RedirectURI (nrm_pending n p) = pa_RedirectURI p" "pa_CodeChallenge (nrm_pending n p) = pa_CodeChallenge p"
  "pa_ClientState (nrm_pending n p) = pa_ClientState p" "pa_BinderHash (nrm_pending n p) = pa_BinderHash p"
  "pa_Approved (nrm_pending n p) = pa_Approved p" "pa_ExpiresAt (nrm_pending n p) = r_row n (pa_ExpiresAt p)"
  by (simp_all add: nrm_pending_def)

lemma canary_pending_simps [simp]:
  "pa_StateHash (canary_pending v h f cs bh) = h" "pa_ExpiresAt (canary_pending v h f cs bh) = vs_now v + minute"
  by (simp_all add: canary_pending_def)

lemma compare_pending_row:
  assumes "tolerant n" and "verifying v"
  shows "compare_pending (nrm_pending n (canary_pending v h f cs bh)) (canary_pending v h f cs bh) v' = v'"
  using assms eqTime_kept [of n "vs_now v + minute"] by (simp add: compare_pending_def Let_def)

lemma awp_two_pending:
  assumes "72 \<le> length (w_rand w)"
    and "a_pending (w_store w) (canary_value ''pending-a'' 0 (w_rand w)) = None"
    and "a_pending (w_store w) (canary_value ''pending-b'' 1 (w_rand w)) = None"
    and "canary_value ''pending-a'' 0 (w_rand w) \<noteq> canary_value ''pending-b'' 1 (w_rand w)"
    and "\<And>w'. w_rand w' = drop 72 (w_rand w) \<Longrightarrow> a_refresh (w_store w') = a_refresh (w_store w) \<Longrightarrow>
      a_clients (w_store w') = a_clients (w_store w) \<Longrightarrow> awp True n E (k v) w' Q"
  shows "awp True n E (checkPendingAuthIsInsertNotUpsert v k) w Q"
  using assms(1-4) canary_value_drop [of "''pending-b''" 0 1 "w_rand w"]
  by (simp add: checkPendingAuthIsInsertNotUpsert_def awp_canary put_pending_def del_pending_def drop_drop assms(5))

lemma awp_checkPendingAuth:
  assumes "tolerant n" and "verifying v" and "120 \<le> length (w_rand w)"
    and "a_pending (w_store w) (canary_value ''pending'' 0 (w_rand w)) = None"
    and "a_pending (w_store w) (canary_value ''pending-a'' 2 (w_rand w)) = None"
    and "a_pending (w_store w) (canary_value ''pending-b'' 3 (w_rand w)) = None"
    and "canary_value ''pending-a'' 2 (w_rand w) \<noteq> canary_value ''pending-b'' 3 (w_rand w)"
    and "\<And>w'. w_rand w' = drop 120 (w_rand w) \<Longrightarrow> a_refresh (w_store w') = a_refresh (w_store w) \<Longrightarrow>
      a_clients (w_store w') = a_clients (w_store w) \<Longrightarrow> awp True n E (k v) w' Q"
  shows "awp True n E (checkPendingAuth v k) w Q"
proof -
  let ?bs = "w_rand w"
  have "awp True n E (checkPendingAuthIsInsertNotUpsert v k) w' Q"
    if "w_rand w' = drop 48 ?bs" "a_refresh (w_store w') = a_refresh (w_store w)" "a_clients (w_store w') = a_clients (w_store w)"
      "\<And>h. a_pending (w_store w) h = None \<Longrightarrow> a_pending (w_store w') h = None" for w'
  proof -
    have "canary_value l 0 (w_rand w') = canary_value l 2 ?bs" "canary_value l (Suc 0) (w_rand w') = canary_value l 3 ?bs" for l
      using canary_value_drop [of l 0 2 ?bs] canary_value_drop [of l 1 2 ?bs] by (simp_all add: that(1) numeral_eq_Suc)
    then show ?thesis by (intro awp_two_pending) (use assms(3-8) that in \<open>simp_all add: drop_drop\<close>)
  qed
  then show ?thesis
    using assms(1-4) by (simp add: checkPendingAuth_def awp_canary Let_def put_pending_def del_pending_def drop_drop compare_pending_row)
qed

section \<open>Refresh tokens\<close>

text \<open>The slots of the concurrent calls: the first to run sees the fresh row, the others the stamp.\<close>

definition fill :: "nat list \<Rightarrow> 'a \<Rightarrow> 'a list \<Rightarrow> 'a list" where
  "fill order x rs = foldl (\<lambda>rs i. rs[i := x]) rs order"

lemma fill_simps [simp]: "fill [] x rs = rs" "fill (i # order) x rs = fill order x (rs[i := x])"
  by (simp_all add: fill_def)

lemma length_fill [simp]: "length (fill order x rs) = length rs"
  by (induction order arbitrary: rs) simp_all

lemma nth_fill: "j < length rs \<Longrightarrow> fill order x rs ! j = (if j \<in> set order then x else rs ! j)"
  by (induction order arbitrary: rs) (simp_all add: nth_list_update)

lemma count_first_uses_map:
  "count_first_uses (map (\<lambda>i. Inr (Some (g i))) xs) z = Inr (z + length (filter (\<lambda>i. IsZero (rt_ConsumedAt (g i))) xs))"
  by (induction xs arbitrary: z) simp_all

definition all_slots :: "nat list \<Rightarrow> bool" where
  "all_slots order \<longleftrightarrow> distinct order \<and> set order = {0..<atomicityConcurrency}"

lemma one_first_use:
  assumes "all_slots (i # order)" and "IsZero (rt_ConsumedAt rt)" and "\<not> IsZero (rt_ConsumedAt rt')"
  shows "count_first_uses (fill order (Inr (Some rt')) ((replicate atomicityConcurrency (Inr None))[i := Inr (Some rt)])) 0 = Inr 1"
proof -
  have slots: "i < 8" "i \<notin> set order" and others: "j < 8 \<Longrightarrow> j \<noteq> i \<Longrightarrow> j \<in> set order" for j
    using assms(1) by (auto simp: all_slots_def atomicityConcurrency_def set_eq_iff)
  have slots_eq: "fill order (Inr (Some rt')) ((replicate 8 (Inr None))[i := Inr (Some rt)]) =
      map (\<lambda>j. Inr (Some (if j = i then rt else rt'))) [0..<8]"
    using slots others by (intro nth_equalityI) (auto simp: nth_fill nth_list_update)
  have one: "length (filter (\<lambda>j. j = i) [0..<8]) = 1"
  proof -
    have "set (filter (\<lambda>j. j = i) [0..<8]) = {i}" using slots(1) by auto
    then show ?thesis using distinct_card [of "filter (\<lambda>j. j = i) [0..<8]"] by (simp del: set_filter)
  qed
  have zero: "(\<lambda>j. IsZero (rt_ConsumedAt (if j = i then rt else rt'))) = (\<lambda>j. j = i)"
    using assms(2,3) by auto
  show ?thesis
    unfolding atomicityConcurrency_def slots_eq count_first_uses_map zero one by simp
qed

lemma awp_consume_spent:
  assumes "a_refresh (w_store w) h = Some rt" and "\<not> IsZero (rt_ConsumedAt rt)" and "clock_floor \<le> t"
  shows "awp True n E (consume_concurrently h t order results k) w Q = awp True n E (k (fill order (Inr (Some rt)) results)) w Q"
  using assms by (induction order arbitrary: results) (simp_all add: stamp_refresh_id)

lemma awp_consume_concurrently:
  assumes "a_refresh (w_store w) h = Some rt" and "IsZero (rt_ConsumedAt rt)" and "clock_floor \<le> t"
    and "r_refresh n t \<noteq> 0"
  shows "awp True n E (consume_concurrently h t (i # order) results k) w Q =
    awp True n E (k (fill order (Inr (Some (rt\<lparr>rt_ConsumedAt := r_refresh n t\<rparr>))) (results[i := Inr (Some rt)])))
      (w\<lparr>w_store := stamp_refresh h (r_refresh n t) (w_store w)\<rparr>) Q"
  using assms by (simp add: awp_consume_spent [where rt = "rt\<lparr>rt_ConsumedAt := r_refresh n t\<rparr>"] stamp_refresh_lookup)

text \<open>What is known of the rounding: within the tolerance, and the zero time is kept.\<close>

definition verifiable :: "rounding \<Rightarrow> bool" where
  "verifiable n \<longleftrightarrow> tolerant n \<and> IsZero (r_refresh n zero_time)"

lemma verifiable_pos: "verifiable n \<Longrightarrow> clock_floor \<le> t \<Longrightarrow> 0 < r_refresh n t"
  using tolerantD(4) [of n t] by (simp add: verifiable_def)

lemma canary_refresh_simps [simp]:
  "rt_TokenHash (canary_refresh v h f d) = h" "rt_FamilyID (canary_refresh v h f d) = f"
  "rt_FamilyCreatedAt (canary_refresh v h f d) = vs_now v - hour" "rt_FamilyExpiresAt (canary_refresh v h f d) = vs_now v + hour"
  "rt_ExpiresAt (canary_refresh v h f d) = vs_now v + d" "rt_ConsumedAt (canary_refresh v h f d) = 0"
  by (simp_all add: canary_refresh_def)

lemma nrm_refresh_fields:
  "rt_TokenHash (nrm_refresh n rt) = rt_TokenHash rt" "rt_FamilyID (nrm_refresh n rt) = rt_FamilyID rt"
  "rt_ClientID (nrm_refresh n rt) = rt_ClientID rt" "rt_UserID (nrm_refresh n rt) = rt_UserID rt"
  "rt_FamilyCreatedAt (nrm_refresh n rt) = r_refresh n (rt_FamilyCreatedAt rt)"
  "rt_FamilyExpiresAt (nrm_refresh n rt) = r_refresh n (rt_FamilyExpiresAt rt)"
  "rt_ExpiresAt (nrm_refresh n rt) = r_refresh n (rt_ExpiresAt rt)"
  "rt_ConsumedAt (nrm_refresh n rt) = r_refresh n (rt_ConsumedAt rt)"
  by (simp_all add: nrm_refresh_def)

lemma compare_refresh_row:
  assumes "verifiable n" and "verifying v"
  shows "compare_refresh (nrm_refresh n (canary_refresh v h f (- minute))) (canary_refresh v h f (- minute)) v' = v'"
  using assms eqTime_kept [of n "vs_now v - hour"] eqTime_kept [of n "vs_now v + hour"] eqTime_kept [of n "vs_now v - minute"]
  by (simp add: compare_refresh_def Let_def nrm_refresh_fields verifiable_def)

lemma awp_atomicity:
  assumes "verifiable n" and "verifying v" and "all_slots order" and "48 \<le> length (w_rand w)"
    and "a_refresh (w_store w) (canary_value ''atomic'' 0 (w_rand w)) = None"
    and "\<And>w'. (\<And>h. h \<noteq> canary_value ''atomic'' 0 (w_rand w) \<Longrightarrow> a_refresh (w_store w') h = a_refresh (w_store w) h) \<Longrightarrow>
      refresh_keyed (canary_value ''atomic'' 0 (w_rand w)) (w_store w') \<Longrightarrow> map_le (a_clients (w_store w')) (a_clients (w_store w)) \<Longrightarrow>
      awp True n E (k (v\<lparr>canaryAtomicHash := canary_value ''atomic'' 0 (w_rand w)\<rparr>)) w' Q"
  shows "awp True n E (checkRefreshTokenAtomicity order v k) w Q"
proof -
  let ?h = "canary_value ''atomic'' 0 (w_rand w)"
  obtain i others where order: "order = i # others"
    using assms(3) by (cases order) (simp_all add: all_slots_def atomicityConcurrency_def)
  have late: "clock_floor \<le> vs_now v" using assms(2) by simp
  have zero: "r_refresh n 0 = 0" and pos: "0 < r_refresh n (vs_now v)"
    using assms(1) verifiable_pos [OF assms(1) late] by (simp_all add: verifiable_def)
  have run: "awp True n E (consume_concurrently ?h (vs_now v) order (replicate atomicityConcurrency (Inr None)) kk) w' Q =
      awp True n E (kk (fill others (Inr (Some (rt\<lparr>rt_ConsumedAt := r_refresh n (vs_now v)\<rparr>)))
        ((replicate atomicityConcurrency (Inr None))[i := Inr (Some rt)]))) (w'\<lparr>w_store := stamp_refresh ?h (r_refresh n (vs_now v)) (w_store w')\<rparr>) Q"
    if "a_refresh (w_store w') ?h = Some rt" "IsZero (rt_ConsumedAt rt)" for w' rt kk
    unfolding order using that late pos by (intro awp_consume_concurrently) simp_all
  have count: "count_first_uses (fill others (Inr (Some (rt\<lparr>rt_ConsumedAt := r_refresh n (vs_now v)\<rparr>)))
      ((replicate atomicityConcurrency (Inr None))[i := Inr (Some rt)])) 0 = Inr 1" if "IsZero (rt_ConsumedAt rt)" for rt
    using one_first_use [of i others rt] assms(3) that pos by (simp add: order)
  show ?thesis
    using assms(4,5)
    by (simp add: checkRefreshTokenAtomicity_def awp_canary run count put_refresh_lookup nrm_refresh_fields zero
        stamp_refresh_lookup refresh_keyed_def assms(6))
qed

lemma awp_checkRevocation:
  assumes "verifiable n" and "verifying v" and "all_slots order" and "48 \<le> length (w_rand w)"
    and "a_refresh (w_store w) h = Some rt" and "rt_FamilyID rt = f" and "f \<noteq> []"
    and "a_refresh (w_store w) (canary_value ''atomic'' 0 (w_rand w)) = None" and "h \<noteq> canary_value ''atomic'' 0 (w_rand w)"
    and "\<And>w'. a_refresh (w_store w') h = None \<Longrightarrow> refresh_keyed (canary_value ''atomic'' 0 (w_rand w)) (w_store w') \<Longrightarrow>
      map_le (a_clients (w_store w')) (a_clients (w_store w)) \<Longrightarrow>
      awp True n E (k (v\<lparr>canaryAtomicHash := canary_value ''atomic'' 0 (w_rand w)\<rparr>)) w' Q"
  shows "awp True n E (checkRevocation order h f v k) w Q"
proof -
  let ?w = "w\<lparr>w_store := revoke_family f (w_store w)\<rparr>"
  have gone: "a_refresh (w_store ?w) h = None"
    using assms(5-7) by (simp add: revoke_family_def keep_rows_eq_None)
  have "awp True n E (checkRefreshTokenAtomicity order v k) ?w Q"
    by (rule awp_atomicity) (use assms gone in \<open>simp_all add: revoke_family_def keep_rows_eq_None\<close>)
  then show ?thesis using gone by (simp add: checkRevocation_def)
qed

lemma awp_checkConsumption:
  assumes "verifiable n" and "verifying v" and "all_slots order" and "48 \<le> length (w_rand w)"
    and "a_refresh (w_store w) h = Some rt" and "IsZero (rt_ConsumedAt rt)" and "rt_FamilyID rt = rt_FamilyID want"
    and "rt_FamilyID want \<noteq> []"
    and "a_refresh (w_store w) (canary_value ''atomic'' 0 (w_rand w)) = None" and "h \<noteq> canary_value ''atomic'' 0 (w_rand w)"
    and "\<And>w'. a_refresh (w_store w') h = None \<Longrightarrow> refresh_keyed (canary_value ''atomic'' 0 (w_rand w)) (w_store w') \<Longrightarrow>
      map_le (a_clients (w_store w')) (a_clients (w_store w)) \<Longrightarrow>
      awp True n E (k (v\<lparr>canaryAtomicHash := canary_value ''atomic'' 0 (w_rand w)\<rparr>)) w' Q"
  shows "awp True n E (checkConsumption order h want v k) w Q"
proof -
  let ?now = "vs_now v"
  let ?rt = "rt\<lparr>rt_ConsumedAt := r_refresh n ?now\<rparr>" and ?w = "w\<lparr>w_store := stamp_refresh h (r_refresh n ?now) (w_store w)\<rparr>"
  have late: "clock_floor \<le> ?now" "clock_floor \<le> ?now + hour" "clock_floor \<le> ?now + 2 * hour" using assms(2) by simp_all
  have pos: "0 < r_refresh n ?now" by (rule verifiable_pos [OF assms(1) late(1)])
  have near: "eqTime what (r_refresh n ?now) ?now v' = v'" "withinTolerance (r_refresh n ?now) ?now" for what v'
    using assms(1) late(1) by (simp_all add: verifiable_def eqTime_kept within_kept)
  have row: "a_refresh (w_store ?w) h = Some ?rt" using assms(5,6) by (simp add: stamp_refresh_lookup)
  have spent: "stamp_refresh h t (w_store ?w) = w_store ?w" for t by (rule stamp_refresh_id(2) [OF row]) (use pos in simp)
  have "awp True n E (checkRevocation order h (rt_FamilyID want) v k) ?w Q"
    by (rule awp_checkRevocation [OF assms(1-3) _ row]) (use assms in \<open>simp_all add: stamp_refresh_lookup\<close>)
  then show ?thesis
    using late pos row spent assms(5-7) by (simp add: checkConsumption_def Let_def near del: distrib_left_numeral)
qed

lemma awp_checkSaved:
  assumes "verifiable n" and "verifying v" and "all_slots order" and "72 \<le> length (w_rand w)"
    and "want = canary_refresh v h fam (- minute)" and "fam \<noteq> []" and "a_refresh (w_store w) h = None"
    and "a_refresh (w_store w) (canary_value ''never-issued'' 0 (w_rand w)) = None"
    and "a_refresh (w_store w) (canary_value ''atomic'' 1 (w_rand w)) = None"
    and "h \<noteq> canary_value ''never-issued'' 0 (w_rand w)" and "h \<noteq> canary_value ''atomic'' 1 (w_rand w)"
    and "\<And>w'. a_refresh (w_store w') h = None \<Longrightarrow> refresh_keyed (canary_value ''atomic'' 1 (w_rand w)) (w_store w') \<Longrightarrow>
      map_le (a_clients (w_store w')) (a_clients (w_store w)) \<Longrightarrow>
      awp True n E (k (v\<lparr>canaryAtomicHash := canary_value ''atomic'' 1 (w_rand w)\<rparr>)) w' Q"
  shows "awp True n E (checkSaved order h want v k) w Q"
proof -
  let ?bs = "w_rand w" and ?now = "vs_now v"
  define never where "never = canary_value ''never-issued'' 0 ?bs"
  define rt where "rt = nrm_refresh n want"
  have rt: "rt_TokenHash rt = h" "rt_FamilyID rt = fam" "rt_ConsumedAt rt = 0"
    using assms(1,5) by (simp_all add: rt_def nrm_refresh_fields verifiable_def)
  have want: "rt_TokenHash want = h" "rt_FamilyID want = fam" "rt_ConsumedAt want = 0"
    using assms(5) by simp_all
  have vals: "canary_value l 0 (drop 24 ?bs) = canary_value l 1 ?bs" for l
    using canary_value_drop [of l 0 1 ?bs] by simp
  let ?saved = "put_refresh rt (w_store w)"
  let ?purged = "purge (r_row n ?now) ?saved"
  let ?w = "w\<lparr>w_rand := drop 24 ?bs, w_store := ?purged\<rparr>"
  have late: "clock_floor \<le> ?now" "clock_floor \<le> ?now + hour" using assms(2) by simp_all
  have "r_row n ?now \<le> rt_FamilyExpiresAt rt"
    using tolerantD(1) [OF _ late(1)] tolerantD(4) [OF _ late(2)] assms(1,5)
    by (fastforce simp: rt_def nrm_refresh_fields verifiable_def)
  then have kept: "a_refresh ?purged h = Some rt"
    by (simp add: purge_def put_refresh_def rt retained_def)
  have absent: "a_refresh ?purged x = None" if "a_refresh (w_store w) x = None" "x \<noteq> h" for x
    using that by (simp add: purge_def keep_rows_eq_None put_refresh_lookup rt)
  have purged: "map_le m (a_clients ?purged) \<Longrightarrow> map_le m (a_clients (w_store w))" for m
    using clients_purged [of m "r_row n ?now" ?saved] by simp
  have "awp True n E (checkConsumption order h want v k) ?w Q"
    by (rule awp_checkConsumption [OF assms(1-3), where rt = rt]) (use assms kept absent rt want purged in \<open>simp_all add: vals\<close>)
  moreover have "a_refresh ?saved never = None" "a_refresh ?saved h = Some rt"
    using assms(8,10) by (simp_all add: put_refresh_lookup rt never_def)
  moreover have "compare_refresh rt want v = v"
    using compare_refresh_row [OF assms(1,2)] by (simp add: rt_def assms(5))
  ultimately show ?thesis
    using assms(4,7) kept late
    by (simp add: checkSaved_def awp_canary want rt_def [symmetric] never_def [symmetric])
qed

lemma awp_checkRefreshToken:
  assumes "verifiable n" and "verifying v" and "all_slots order" and "120 \<le> length (w_rand w)"
    and "a_refresh (w_store w) (canary_value ''refresh'' 0 (w_rand w)) = None"
    and "a_refresh (w_store w) (canary_value ''never-issued'' 2 (w_rand w)) = None"
    and "a_refresh (w_store w) (canary_value ''atomic'' 3 (w_rand w)) = None"
    and "canary_value ''refresh'' 0 (w_rand w) \<noteq> canary_value ''never-issued'' 2 (w_rand w)"
    and "canary_value ''refresh'' 0 (w_rand w) \<noteq> canary_value ''atomic'' 3 (w_rand w)"
    and "\<And>w' h h'. a_refresh (w_store w') h = None \<Longrightarrow> h \<noteq> h' \<Longrightarrow> refresh_keyed h' (w_store w') \<Longrightarrow>
      map_le (a_clients (w_store w')) (a_clients (w_store w)) \<Longrightarrow>
      awp True n E (k (v\<lparr>canaryRefreshHash := h, canaryAtomicHash := h'\<rparr>)) w' Q"
  shows "awp True n E (checkRefreshToken order v k) w Q"
proof -
  let ?bs = "w_rand w" and ?h = "canary_value ''refresh'' 0 (w_rand w)"
  let ?w = "w\<lparr>w_rand := drop 48 ?bs\<rparr>" and ?v = "v\<lparr>canaryRefreshHash := ?h\<rparr>"
  have vals: "canary_value l 0 (w_rand ?w) = canary_value l 2 ?bs" "canary_value l 1 (w_rand ?w) = canary_value l 3 ?bs" for l
    using canary_value_drop [of l 0 2 ?bs] canary_value_drop [of l 1 2 ?bs] by (simp_all add: numeral_eq_Suc)
  have "awp True n E (checkSaved order ?h (canary_refresh ?v ?h (''mcpoauth-verify-family-'' @ take 16 f) (- minute)) ?v k) ?w Q" for f
    by (rule awp_checkSaved [OF assms(1) _ assms(3) _ refl]) (unfold vals, use assms in simp_all)
  then show ?thesis
    using assms(4) by (simp only: checkRefreshToken_def awp_canary) (simp add: awp_canary drop_drop)
qed

section \<open>Cleanup, and the whole run\<close>

lemma awp_SavePresent:
  assumes "\<And>r w'. (\<And>h. h \<noteq> rt_TokenHash rt \<Longrightarrow> a_refresh (w_store w') h = a_refresh (w_store w) h) \<Longrightarrow>
    a_clients (w_store w') = a_clients (w_store w) \<Longrightarrow> awp True n E (k r) w' Q"
  shows "awp True n E (SaveRefreshToken rt k) w Q"
  unfolding awp.simps(12) by (auto intro!: assms simp: put_refresh_lookup dest: refresh_row_key)

lemma awp_expire_refresh:
  assumes "a_refresh (w_store w) h = None" and "h \<noteq> h'" and "refresh_keyed h' (w_store w)"
    and "\<And>w'. a_refresh (w_store w') h = None \<Longrightarrow> map_le (a_clients (w_store w')) (a_clients (w_store w)) \<Longrightarrow> awp True n E rest w' Q"
  shows "awp True n E (expire_refresh [h, h'] v rest) w Q"
  using assms(1-3) by (auto simp: refresh_keyed_def split: option.split intro!: awp_SavePresent assms(4))

text \<open>Expiring the client makes the purge delete it; without a row there is nothing to expire.\<close>

lemma awp_expire_client:
  assumes "client_keyed (canaryClientID v) (w_store w)"
    and "\<And>w'. a_refresh (w_store w') = a_refresh (w_store w) \<Longrightarrow>
      (\<And>c. a_clients (w_store w') (canaryClientID v) = Some c \<Longrightarrow> canaryClientID v \<noteq> [] \<Longrightarrow> cl_ExpiresAt c = r_row n (vs_now v - hour)) \<Longrightarrow>
      awp True n E (k v) w' Q"
  shows "awp True n E (expire_client v k) w Q"
  using assms(1)
  by (auto simp: expire_client_def client_keyed_def put_client_def split: option.split
      intro!: awp_SaveClient assms(2) dest: client_row_fields)

lemma awp_cleanup:
  assumes "verifiable n" and "verifying v" and "client_keyed (canaryClientID v) (w_store w)"
    and "a_refresh (w_store w) (canaryRefreshHash v) = None" and "canaryRefreshHash v \<noteq> canaryAtomicHash v"
    and "refresh_keyed (canaryAtomicHash v) (w_store w)"
    and "\<And>w'. awp True n E (k v) w' Q"
  shows "awp True n E (cleanup v k) w Q"
proof -
  have late: "clock_floor \<le> vs_now v" "clock_floor \<le> vs_now v - hour" using assms(2) by simp_all
  have expired: "r_row n (vs_now v - hour) < r_row n (vs_now v)"
    using tolerantD(1) [OF _ late(2)] tolerantD(2) [OF _ late(1)] assms(1) by (fastforce simp: verifiable_def)
  have purged: "awp True n E (PurgeExpired (vs_now v) (\<lambda>purged. case purged of
        Inl err \<Rightarrow> k (failf (CallFailed ''PurgeExpired'' err) v) | Inr _ \<Rightarrow> checkPurged v k)) w' Q"
    if "a_refresh (w_store w') (canaryRefreshHash v) = None"
      "\<And>c. a_clients (w_store w') (canaryClientID v) = Some c \<Longrightarrow> canaryClientID v \<noteq> [] \<Longrightarrow> cl_ExpiresAt c = r_row n (vs_now v - hour)" for w'
    using that late(1) expired assms(7)
    by (auto simp: checkPurged_def purge_def keep_rows_eq_None split: option.split)
  have sub: "a_clients (w_store w') i = Some c" if "map_le (a_clients (w_store w'')) (a_clients (w_store w'))"
    "a_clients (w_store w'') i = Some c" for w' w'' i c
    using that unfolding map_le_def by (metis domI)
  show ?thesis
    unfolding cleanup_def
    by (intro awp_expire_client awp_expire_refresh purged) (use assms(3-6) in \<open>auto simp: refresh_keyed_def dest: sub\<close>)
qed

lemma awp_VerifyStore:
  assumes "verifiable n" and "clock_floor + hour \<le> e_now E (w_tick w)" and "288 \<le> length (w_rand w)"
    and "all_slots order" and "\<not> canary_collision (w_store w) (w_rand w)"
  shows "awp True n E (VerifyStore p order) w (\<lambda>result _. result = [])"
proof -
  let ?bs = "w_rand w"
  have vals: "canary_value l i (drop 24 ?bs) = canary_value l (i + 1) ?bs" "canary_value l i (drop 48 ?bs) = canary_value l (i + 2) ?bs"
    "canary_value l i (drop 168 ?bs) = canary_value l (i + 7) ?bs" for l i
    using canary_value_drop [of l i 1 ?bs] canary_value_drop [of l i 2 ?bs] canary_value_drop [of l i 7 ?bs] by simp_all
  have tolerant: "tolerant n" using assms(1) by (simp add: verifiable_def)
  have apart: "canary_value ''refresh'' 7 ?bs \<noteq> canary_value ''never-issued'' 9 ?bs"
    "canary_value ''refresh'' 7 ?bs \<noteq> canary_value ''atomic'' 10 ?bs"
    "canary_value ''pending-a'' 4 ?bs \<noteq> canary_value ''pending-b'' 5 ?bs"
    and free: "a_codes (w_store w) (canary_value ''code'' 1 ?bs) = None" "a_pending (w_store w) (canary_value ''pending'' 2 ?bs) = None"
    "a_pending (w_store w) (canary_value ''pending-a'' 4 ?bs) = None" "a_pending (w_store w) (canary_value ''pending-b'' 5 ?bs) = None"
    "a_refresh (w_store w) (canary_value ''refresh'' 7 ?bs) = None" "a_refresh (w_store w) (canary_value ''never-issued'' 9 ?bs) = None"
    "a_refresh (w_store w) (canary_value ''atomic'' 10 ?bs) = None"
    using assms(5) by (auto simp: canary_collision_def domIff)
  let ?Q = "\<lambda>result (_ :: astore world). result = []"
  have cleanup: "awp True n E (cleanup v (\<lambda>v. Ret (problems v))) w' ?Q"
    if "verifying v" "problems v = []" "client_keyed (canaryClientID v) (w_store w')" "a_refresh (w_store w') (canaryRefreshHash v) = None"
      "canaryRefreshHash v \<noteq> canaryAtomicHash v" "refresh_keyed (canaryAtomicHash v) (w_store w')" for v w'
    by (rule awp_cleanup [OF assms(1) that(1,3-6)]) (simp add: that(2))
  have refresh: "awp True n E (checkRefreshToken order v (\<lambda>v. cleanup v (\<lambda>v. Ret (problems v)))) w' ?Q"
    if "verifying v" "problems v = []" "client_keyed (canaryClientID v) (w_store w')" "w_rand w' = drop 168 ?bs"
      "a_refresh (w_store w') = a_refresh (w_store w)" for v w'
  proof -
    note vs = vals(3) [of _ 0, unfolded add_0] vals(3) [of _ 2] vals(3) [of _ 3]
    show ?thesis
      by (rule awp_checkRefreshToken [OF assms(1) that(1) assms(4)], unfold that(4) vs)
        (use assms(3) apart free that client_keyed_le in \<open>simp_all add: cleanup\<close>)
  qed
  have pending: "awp True n E (checkPendingAuth v (\<lambda>v. checkRefreshToken order v (\<lambda>v. cleanup v (\<lambda>v. Ret (problems v))))) w' ?Q"
    if "verifying v" "problems v = []" "client_keyed (canaryClientID v) (w_store w')" "w_rand w' = drop 48 ?bs"
      "a_refresh (w_store w') = a_refresh (w_store w)" "a_pending (w_store w') = a_pending (w_store w)" for v w'
  proof -
    note vs = vals(2) [of _ 0, unfolded add_0] vals(2) [of _ 2] vals(2) [of _ 3]
    show ?thesis
      by (rule awp_checkPendingAuth [OF tolerant that(1)], unfold that(4) vs)
        (use assms(3) apart free that in \<open>simp_all add: refresh client_keyed_def\<close>)
  qed
  have code: "awp True n E (checkAuthCode v (\<lambda>v. checkPendingAuth v (\<lambda>v. checkRefreshToken order v (\<lambda>v. cleanup v (\<lambda>v. Ret (problems v)))))) w' ?Q"
    if "verifying v" "problems v = []" "client_keyed (canaryClientID v) (w_store w')" "w_rand w' = drop 24 ?bs"
      "a_refresh (w_store w') = a_refresh (w_store w)" "a_pending (w_store w') = a_pending (w_store w)"
      "a_codes (w_store w') = a_codes (w_store w)" for v w'
    by (rule awp_checkAuthCode [OF tolerant that(1)], unfold that(4) vals(1) [of _ 0])
      (use assms(3) free that in \<open>simp_all add: pending client_keyed_def drop_drop\<close>)
  show ?thesis
    unfolding VerifyStore_def awp.simps Let_def
    by (rule awp_checkClient [OF tolerant]) (use assms(2,3) in \<open>simp_all add: code\<close>)
qed

end
