(* ===== verification/Verify_Evidence.thy ===== *)
theory Verify_Evidence
  imports Verify_Spec Token_Histories "HOL-Library.Sublist"
begin

text \<open>
  What a \<open>VerifyStore\<close> that reports no problem has seen of the store, whatever store it is and
  whatever its calls answer: for each check the calls and answers a clean report implies.
\<close>

section \<open>Evidence in a history\<close>

definition kept_instant :: "time \<Rightarrow> time \<Rightarrow> bool" where
  "kept_instant want got \<longleftrightarrow> (if IsZero want then IsZero got else \<not> IsZero got \<and> withinTolerance got want)"

text \<open>
  \<open>i\<close>, \<open>k\<close> and \<open>j\<close> are the ID of the client canary and the hashes of the ledger's and of the
  race's canary, \<open>t\<close> the instant of the verification. The client is saved to expire an hour later.
\<close>

definition client_seen :: "string \<Rightarrow> time \<Rightarrow> event list \<Rightarrow> bool" where
  "client_seen i t h \<longleftrightarrow> (\<exists>c got. sublist [EvSaveClient c (Inr ()), EvGetClient i (Inr (Some got))] h \<and>
     cl_ClientID c = i \<and> cl_ExpiresAt c = t + hour \<and> cl_ClientID got = cl_ClientID c \<and> cl_ClientName got = cl_ClientName c \<and> cl_RedirectURIs got = cl_RedirectURIs c \<and>
     kept_instant (cl_ExpiresAt c) (cl_ExpiresAt got))"

text \<open>A code is read back by its first consumption only.\<close>

definition code_seen :: "event list \<Rightarrow> bool" where
  "code_seen h \<longleftrightarrow> (\<exists>c got again. sublist [EvSaveAuthCode c (Inr ()), EvConsumeAuthCode (ac_CodeHash c) (Inr (Some got)),
       EvConsumeAuthCode (ac_CodeHash c) again] h \<and>
     ac_ClientID got = ac_ClientID c \<and> ac_UserID got = ac_UserID c \<and> ac_RedirectURI got = ac_RedirectURI c \<and>
     ac_CodeChallenge got = ac_CodeChallenge c \<and> kept_instant (ac_ExpiresAt c) (ac_ExpiresAt got) \<and>
     (\<forall>x. again \<noteq> Inr (Some x)))"

definition pending_seen :: "event list \<Rightarrow> bool" where
  "pending_seen h \<longleftrightarrow> (\<exists>p got again. sublist [EvSavePendingAuth p (Inr ()), EvConsumePendingAuth (pa_StateHash p) (Inr (Some got)),
       EvConsumePendingAuth (pa_StateHash p) again] h \<and>
     pa_ClientID got = pa_ClientID p \<and> pa_RedirectURI got = pa_RedirectURI p \<and> pa_CodeChallenge got = pa_CodeChallenge p \<and>
     pa_ClientState got = pa_ClientState p \<and> pa_BinderHash got = pa_BinderHash p \<and> pa_Approved got = pa_Approved p \<and>
     kept_instant (pa_ExpiresAt p) (pa_ExpiresAt got) \<and> (\<forall>x. again \<noteq> Inr (Some x)))"

text \<open>Two records of one client are both there.\<close>

definition pending_pair_seen :: "event list \<Rightarrow> bool" where
  "pending_pair_seen h \<longleftrightarrow> (\<exists>p q gotp gotq. sublist [EvSavePendingAuth p (Inr ()), EvSavePendingAuth q (Inr ()),
       EvConsumePendingAuth (pa_StateHash p) (Inr (Some gotp)), EvConsumePendingAuth (pa_StateHash q) (Inr (Some gotq))] h \<and>
     pa_ClientID p = pa_ClientID q \<and> pa_StateHash gotp = pa_StateHash p \<and> pa_StateHash gotq = pa_StateHash q)"

text \<open>
  A refresh token whose own expiry has passed is read back, survives a purge, keeps the stamp of
  its first consumption through two later ones, can still be read, and is gone with its family.
\<close>

definition row_kept :: "refresh_token \<Rightarrow> refresh_token \<Rightarrow> bool" where
  "row_kept rt got \<longleftrightarrow> rt_ClientID got = rt_ClientID rt \<and> rt_UserID got = rt_UserID rt \<and> rt_FamilyID got = rt_FamilyID rt \<and>
     kept_instant (rt_FamilyCreatedAt rt) (rt_FamilyCreatedAt got) \<and> kept_instant (rt_FamilyExpiresAt rt) (rt_FamilyExpiresAt got) \<and>
     kept_instant (rt_ExpiresAt rt) (rt_ExpiresAt got) \<and> IsZero (rt_ConsumedAt got)"

definition ledger_seen :: "string \<Rightarrow> time \<Rightarrow> event list \<Rightarrow> bool" where
  "ledger_seen k t h \<longleftrightarrow> k \<noteq> [] \<and> (\<exists>rt got x none saved first second third kept gone. rt_TokenHash rt = k \<and>
     sublist [EvSaveRefreshToken rt (Inr ()), EvGetRefreshToken (rt_TokenHash rt) (Inr (Some got)), x,
       EvGetRefreshToken none (Inr None), EvPurgeExpired t (Inr ()), EvGetRefreshToken (rt_TokenHash rt) (Inr (Some saved)),
       EvConsumeRefreshToken (rt_TokenHash rt) t (Inr (Some first)),
       EvConsumeRefreshToken (rt_TokenHash rt) (t + hour) (Inr (Some second)),
       EvConsumeRefreshToken (rt_TokenHash rt) (t + 2 * hour) (Inr (Some third)),
       EvGetRefreshToken (rt_TokenHash rt) (Inr (Some kept)),
       EvRevokeRefreshTokenFamily (rt_FamilyID rt) (Inr ()), EvGetRefreshToken (rt_TokenHash rt) gone] h \<and>
     row_kept rt got \<and> rt_ExpiresAt rt < t \<and> t < rt_FamilyExpiresAt rt \<and>
     IsZero (rt_ConsumedAt first) \<and> rt_FamilyID first = rt_FamilyID rt \<and>
     \<not> IsZero (rt_ConsumedAt second) \<and> rt_FamilyID second = rt_FamilyID rt \<and>
     rt_ConsumedAt third = rt_ConsumedAt second \<and> withinTolerance (rt_ConsumedAt third) t \<and> (\<forall>y. gone \<noteq> Inr (Some y)))"

text \<open>Of the concurrent consumptions exactly one sees the token unconsumed.\<close>

definition race_seen :: "nat list \<Rightarrow> string \<Rightarrow> event list \<Rightarrow> bool" where
  "race_seen order j h \<longleftrightarrow> j \<noteq> [] \<and> (\<exists>rt t answers. rt_TokenHash rt = j \<and>
     sublist (EvSaveRefreshToken rt (Inr ()) # map (\<lambda>i. EvConsumeRefreshToken (rt_TokenHash rt) t (Inr (Some (answers i)))) order) h \<and>
     (\<exists>!i. i \<in> set order \<and> IsZero (rt_ConsumedAt (answers i))))"

text \<open>
  The purge at the end. The client canary is read and, if it is there, saved with an expiry an
  hour in the past; so is each refresh canary; then the purge at the instant of the verification
  succeeds, and after it neither that client nor the ledger's refresh token is read back.
\<close>

definition client_expired :: "time \<Rightarrow> string \<Rightarrow> event list \<Rightarrow> bool" where
  "client_expired t i es \<longleftrightarrow> (\<exists>read. es = [EvGetClient i read] \<and> (\<forall>c. read \<noteq> Inr (Some c))) \<or>
     (\<exists>c. es = [EvGetClient i (Inr (Some c)), EvSaveClient (c\<lparr>cl_ExpiresAt := t - hour\<rparr>) (Inr ())])"

definition refresh_expired :: "time \<Rightarrow> string \<Rightarrow> event list \<Rightarrow> bool" where
  "refresh_expired t k es \<longleftrightarrow> (\<exists>read. es = [EvGetRefreshToken k read] \<and> (\<forall>rt. read \<noteq> Inr (Some rt))) \<or>
     (\<exists>rt r. es = [EvGetRefreshToken k (Inr (Some rt)),
        EvSaveRefreshToken (rt\<lparr>rt_ExpiresAt := t - hour, rt_FamilyExpiresAt := t - hour\<rparr>) r])"

definition purge_seen :: "string \<Rightarrow> string \<Rightarrow> string \<Rightarrow> time \<Rightarrow> event list \<Rightarrow> bool" where
  "purge_seen i k j t h \<longleftrightarrow> (\<exists>cs ks js gone gone'. client_expired t i cs \<and> refresh_expired t k ks \<and> refresh_expired t j js \<and>
     sublist (cs @ ks @ js @ [EvPurgeExpired t (Inr ()), EvGetClient i gone, EvGetRefreshToken k gone']) h \<and>
     (\<forall>c. gone \<noteq> Inr (Some c)) \<and> (\<forall>rt. gone' \<noteq> Inr (Some rt)))"

lemma sublist_snoc_more: "sublist xs h \<Longrightarrow> sublist xs (h @ e)"
  by (auto simp: sublist_def) (metis append.assoc)

lemma seen_later:
  "client_seen i t h \<Longrightarrow> client_seen i t (h @ e)" "code_seen h \<Longrightarrow> code_seen (h @ e)"
  "pending_seen h \<Longrightarrow> pending_seen (h @ e)" "pending_pair_seen h \<Longrightarrow> pending_pair_seen (h @ e)"
  "ledger_seen k t h \<Longrightarrow> ledger_seen k t (h @ e)" "race_seen order j h \<Longrightarrow> race_seen order j (h @ e)"
  unfolding client_seen_def code_seen_def pending_seen_def pending_pair_seen_def ledger_seen_def race_seen_def
  by (blast intro: sublist_snoc_more)+

section \<open>Reports that stay clean\<close>

definition clean :: "verifier \<Rightarrow> bool" where
  "clean v \<longleftrightarrow> problems v = []"

lemma clean_failf [simp]: "\<not> clean (failf pr v)"
  by (simp add: clean_def failf_def)

lemma clean_if [simp]: "clean (if b then failf pr v else v') \<longleftrightarrow> \<not> b \<and> clean v'"
  by simp

lemma clean_eq_field [simp]: "clean (eq_field what got want v) \<longleftrightarrow> got = want \<and> clean v"
  by (auto simp: eq_field_def)

lemma clean_eqTime [simp]: "clean (eqTime what got want v) \<longleftrightarrow> kept_instant want got \<and> clean v"
  by (auto simp: eqTime_def kept_instant_def withinTolerance_def)

text \<open>The checks change the problems only, but for the canaries they name.\<close>

abbreviation same_run :: "verifier \<Rightarrow> verifier \<Rightarrow> bool" where
  "same_run v' v \<equiv> canaryClientID v' = canaryClientID v \<and> canaryRefreshHash v' = canaryRefreshHash v \<and> vs_now v' = vs_now v"

lemma canaryClientID_checks [simp]:
  "canaryClientID (failf pr v) = canaryClientID v" "canaryClientID (eq_field what x y v) = canaryClientID v"
  "canaryClientID (eqTime what t u v) = canaryClientID v" "canaryClientID (if b then failf pr v else v) = canaryClientID v"
  "canaryClientID (if b then failf pr v else eqTime what t u v) = canaryClientID v"
  by (simp_all add: failf_def eq_field_def eqTime_def)

lemma canaryClientID_compare [simp]:
  "canaryClientID (compare_client cgot cwant v) = canaryClientID v" "canaryClientID (compare_code agot awant v) = canaryClientID v"
  "canaryClientID (compare_pending pgot pwant v) = canaryClientID v" "canaryClientID (compare_refresh rgot rwant v) = canaryClientID v"
  unfolding compare_client_def compare_code_def compare_pending_def compare_refresh_def Let_def
  by (subst if_distrib [of canaryClientID] | simp)+

lemma canaryRefreshHash_checks [simp]:
  "canaryRefreshHash (failf pr v) = canaryRefreshHash v" "canaryRefreshHash (eq_field what x y v) = canaryRefreshHash v"
  "canaryRefreshHash (eqTime what t u v) = canaryRefreshHash v" "canaryRefreshHash (if b then failf pr v else v) = canaryRefreshHash v"
  "canaryRefreshHash (if b then failf pr v else eqTime what t u v) = canaryRefreshHash v"
  by (simp_all add: failf_def eq_field_def eqTime_def)

lemma canaryRefreshHash_compare [simp]:
  "canaryRefreshHash (compare_client cgot cwant v) = canaryRefreshHash v" "canaryRefreshHash (compare_code agot awant v) = canaryRefreshHash v"
  "canaryRefreshHash (compare_pending pgot pwant v) = canaryRefreshHash v" "canaryRefreshHash (compare_refresh rgot rwant v) = canaryRefreshHash v"
  unfolding compare_client_def compare_code_def compare_pending_def compare_refresh_def Let_def
  by (subst if_distrib [of canaryRefreshHash] | simp)+

lemma canaryAtomicHash_checks [simp]:
  "canaryAtomicHash (failf pr v) = canaryAtomicHash v" "canaryAtomicHash (eq_field what x y v) = canaryAtomicHash v"
  "canaryAtomicHash (eqTime what t u v) = canaryAtomicHash v" "canaryAtomicHash (if b then failf pr v else v) = canaryAtomicHash v"
  "canaryAtomicHash (if b then failf pr v else eqTime what t u v) = canaryAtomicHash v"
  by (simp_all add: failf_def eq_field_def eqTime_def)

lemma canaryAtomicHash_compare [simp]:
  "canaryAtomicHash (compare_client cgot cwant v) = canaryAtomicHash v" "canaryAtomicHash (compare_code agot awant v) = canaryAtomicHash v"
  "canaryAtomicHash (compare_pending pgot pwant v) = canaryAtomicHash v" "canaryAtomicHash (compare_refresh rgot rwant v) = canaryAtomicHash v"
  unfolding compare_client_def compare_code_def compare_pending_def compare_refresh_def Let_def
  by (subst if_distrib [of canaryAtomicHash] | simp)+

lemma vs_now_checks [simp]:
  "vs_now (failf pr v) = vs_now v" "vs_now (eq_field what x y v) = vs_now v"
  "vs_now (eqTime what t u v) = vs_now v" "vs_now (if b then failf pr v else v) = vs_now v"
  "vs_now (if b then failf pr v else eqTime what t u v) = vs_now v"
  by (simp_all add: failf_def eq_field_def eqTime_def)

lemma vs_now_compare [simp]:
  "vs_now (compare_client cgot cwant v) = vs_now v" "vs_now (compare_code agot awant v) = vs_now v"
  "vs_now (compare_pending pgot pwant v) = vs_now v" "vs_now (compare_refresh rgot rwant v) = vs_now v"
  unfolding compare_client_def compare_code_def compare_pending_def compare_refresh_def Let_def
  by (subst if_distrib [of vs_now] | simp)+

lemma clean_update [simp]:
  "clean (v\<lparr>canaryClientID := i\<rparr>) = clean v" "clean (v\<lparr>canaryRefreshHash := i\<rparr>) = clean v"
  "clean (v\<lparr>canaryAtomicHash := i\<rparr>) = clean v"
  by (auto simp: clean_def)

lemma along_canary:
  assumes "\<And>c r v'. c \<noteq> [] \<Longrightarrow> same_run v' v \<Longrightarrow> canaryAtomicHash v' = canaryAtomicHash v \<Longrightarrow> (clean v' \<Longrightarrow> clean v) \<Longrightarrow>
    along (k c v') (h @ [EvRand 24 r]) (\<lambda>_. True) R"
  shows "along (canary label v k) h (\<lambda>_. True) R"
  by (auto simp: canary_def randomToken_def split: option.split intro!: assms)

lemma compare_client_clean:
  "clean (compare_client got want v) \<longleftrightarrow> clean v \<and> cl_ClientID got = cl_ClientID want \<and> cl_ClientName got = cl_ClientName want \<and>
     length (cl_RedirectURIs got) = 1 \<and> cl_RedirectURIs got ! 0 = cl_RedirectURIs want ! 0 \<and>
     kept_instant (cl_ExpiresAt want) (cl_ExpiresAt got)"
  by (auto simp: compare_client_def Let_def)

lemma along_checkClient:
  assumes "\<And>v' e. canaryClientID v' \<noteq> [] \<Longrightarrow> vs_now v' = vs_now v \<Longrightarrow>
    (clean v' \<Longrightarrow> clean v \<and> client_seen (canaryClientID v') (vs_now v) (h @ e)) \<Longrightarrow> along (k v') (h @ e) (\<lambda>_. True) R"
  shows "along (checkClient v k) h (\<lambda>_. True) R"
proof -
  have seen: "client_seen i t (h @ [x, EvSaveClient c (Inr ()), EvGetClient i (Inr (Some got))])"
    if "clean (compare_client got c v')" "length (cl_RedirectURIs c) = 1" "cl_ClientID c = i" "cl_ExpiresAt c = t + hour"
    for c got x v' i t
  proof -
    have "cl_RedirectURIs got = cl_RedirectURIs c"
      using that by (intro nth_equalityI) (auto simp: compare_client_clean less_Suc_eq)
    then show ?thesis
      using that(1,3,4) unfolding client_seen_def compare_client_clean
      by (intro exI [of _ c] exI [of _ got]) (auto simp: sublist_def intro: exI [of _ "h @ [x]"])
  qed
  have canary: "cl_ClientID (canary_client v' i) = i" "cl_ExpiresAt (canary_client v' i) = vs_now v' + hour"
    "length (cl_RedirectURIs (canary_client v' i)) = 1" for v' i by (simp_all add: canary_client_def)
  have body: "along (SaveClient (canary_client v' i) (\<lambda>saved. case saved of
          Inl err \<Rightarrow> k (failf (CallFailed ''SaveClient'' err) v')
        | Inr _ \<Rightarrow> GetClient i (\<lambda>read. case read of
            Inl err \<Rightarrow> k (failf (CallFailed ''GetClient'' err) v')
          | Inr None \<Rightarrow> k (failf (Missing ''GetClient'') v')
          | Inr (Some got) \<Rightarrow> k (compare_client got (canary_client v' i) v')))) (h @ [EvRand 24 r]) (\<lambda>_. True) R"
    if "canaryClientID v' = i" "i \<noteq> []" "vs_now v' = vs_now v" "clean v' \<Longrightarrow> clean v" for v' i r
    using that seen [OF _ canary(3,1), of _ v' i v' "vs_now v" "EvRand 24 r"]
    by (auto simp: answer_cases compare_client_clean canary intro!: assms)
  show ?thesis
    unfolding checkClient_def Let_def by (intro along_canary body) auto
qed

lemma compare_code_clean:
  "clean (compare_code got want v) \<longleftrightarrow> clean v \<and> ac_ClientID got = ac_ClientID want \<and> ac_UserID got = ac_UserID want \<and>
     ac_RedirectURI got = ac_RedirectURI want \<and> ac_CodeChallenge got = ac_CodeChallenge want \<and>
     kept_instant (ac_ExpiresAt want) (ac_ExpiresAt got)"
  by (auto simp: compare_code_def Let_def)

lemma along_checkAuthCode:
  assumes "\<And>v' e. same_run v' v \<Longrightarrow> (clean v' \<Longrightarrow> clean v \<and> code_seen (h @ e)) \<Longrightarrow> along (k v') (h @ e) (\<lambda>_. True) R"
  shows "along (checkAuthCode v k) h (\<lambda>_. True) R"
proof -
  have seen: "code_seen (h @ [x, EvSaveAuthCode c (Inr ()), EvConsumeAuthCode hash (Inr (Some got)), EvConsumeAuthCode hash again])"
    if "clean (compare_code got c v')" "\<forall>y. again \<noteq> Inr (Some y)" "hash = ac_CodeHash c" for c got x v' again hash
    using that unfolding code_seen_def compare_code_clean
    by (intro exI [of _ c] exI [of _ got] exI [of _ again]) (auto simp: sublist_def intro: exI [of _ "h @ [x]"])
  have hash: "hash = ac_CodeHash (canary_code v' hash)" for v' hash by (simp add: canary_code_def)
  show ?thesis
    unfolding checkAuthCode_def Let_def
    by (rule along_canary) (auto simp: answer_cases intro!: assms seen hash, auto simp: compare_code_clean)
qed

lemma compare_pending_clean:
  "clean (compare_pending got want v) \<longleftrightarrow> clean v \<and> pa_ClientID got = pa_ClientID want \<and> pa_RedirectURI got = pa_RedirectURI want \<and>
     pa_CodeChallenge got = pa_CodeChallenge want \<and> pa_ClientState got = pa_ClientState want \<and>
     pa_BinderHash got = pa_BinderHash want \<and> pa_Approved got = pa_Approved want \<and>
     kept_instant (pa_ExpiresAt want) (pa_ExpiresAt got)"
  by (auto simp: compare_pending_def Let_def)

lemma along_two_pending:
  assumes "\<And>v' e. same_run v' v \<Longrightarrow> (clean v' \<Longrightarrow> clean v \<and> pending_pair_seen (h @ e)) \<Longrightarrow> along (k v') (h @ e) (\<lambda>_. True) R"
  shows "along (checkPendingAuthIsInsertNotUpsert v k) h (\<lambda>_. True) R"
proof -
  have seen: "pending_pair_seen (h @ [x, y, z, EvSavePendingAuth p (Inr ()), EvSavePendingAuth q (Inr ()),
       EvConsumePendingAuth (pa_StateHash p) (Inr (Some gotp)), EvConsumePendingAuth (pa_StateHash q) (Inr (Some gotq))])"
    if "pa_ClientID p = pa_ClientID q" "pa_StateHash gotp = pa_StateHash p" "pa_StateHash gotq = pa_StateHash q" for x y z p q gotp gotq
    using that unfolding pending_pair_seen_def
    by (intro exI [of _ p] exI [of _ q] exI [of _ gotp] exI [of _ gotq]) (auto simp: sublist_def intro: exI [of _ "h @ [x, y, z]"])
  have client: "pa_ClientID (canary_pending v' a f s b) = canaryClientID v'" for v' a f s b by (simp add: canary_pending_def)
  show ?thesis
    unfolding checkPendingAuthIsInsertNotUpsert_def
    by (intro along_canary)
      (auto simp: answer_cases client intro!: assms seen [where p = "canary_pending v' a f s b" and q = "canary_pending v' a' f s b" for v' a a' f s b, unfolded canary_pending_simps])
qed

lemma along_checkPendingAuth:
  assumes "\<And>v' e. same_run v' v \<Longrightarrow> (clean v' \<Longrightarrow> clean v \<and> pending_seen (h @ e) \<and> pending_pair_seen (h @ e)) \<Longrightarrow> along (k v') (h @ e) (\<lambda>_. True) R"
  shows "along (checkPendingAuth v k) h (\<lambda>_. True) R"
proof -
  have seen: "pending_seen (h @ [x, y, EvSavePendingAuth p (Inr ()), EvConsumePendingAuth (pa_StateHash p) (Inr (Some got)),
       EvConsumePendingAuth (pa_StateHash p) again])"
    if "clean (compare_pending got p v')" "\<forall>y. again \<noteq> Inr (Some y)" for x y p got v' again
    using that unfolding pending_seen_def compare_pending_clean
    by (intro exI [of _ p] exI [of _ got] exI [of _ again]) (auto simp: sublist_def intro: exI [of _ "h @ [x, y]"])
  have pair: "along (checkPendingAuthIsInsertNotUpsert v' k) (h @ e) (\<lambda>_. True) R"
    if "same_run v' v" "clean v' \<Longrightarrow> clean v \<and> pending_seen (h @ e)" for v' e
  proof (rule along_two_pending)
    fix v'' e' assume more: "same_run v'' v'" "clean v'' \<Longrightarrow> clean v' \<and> pending_pair_seen ((h @ e) @ e')"
    have "along (k v'') (h @ (e @ e')) (\<lambda>_. True) R"
      by (rule assms) (use that more seen_later(3) [of "h @ e" e'] in auto)
    then show "along (k v'') ((h @ e) @ e') (\<lambda>_. True) R" by simp
  qed
  show ?thesis
    unfolding checkPendingAuth_def Let_def
    by (intro along_canary)
      (auto simp: answer_cases intro!: assms pair
        seen [where p = "canary_pending v' a f s b" for v' a f s b, unfolded canary_pending_simps], auto simp: compare_pending_clean)
qed

section \<open>Refresh tokens\<close>

definition slots :: "nat list \<Rightarrow> (nat \<Rightarrow> 'a) \<Rightarrow> 'a list \<Rightarrow> 'a list" where
  "slots order f rs = foldl (\<lambda>rs i. rs[i := f i]) rs order"

lemma slots_simps [simp]: "slots [] f rs = rs" "slots (i # order) f rs = slots order f (rs[i := f i])"
  by (simp_all add: slots_def)

lemma length_slots [simp]: "length (slots order f rs) = length rs"
  by (induction order arbitrary: rs) simp_all

lemma nth_slots: "j < length rs \<Longrightarrow> slots order f rs ! j = (if j \<in> set order then f j else rs ! j)"
  by (induction order arbitrary: rs) (auto simp: nth_list_update)

lemma slots_cong: "(\<And>i. i \<in> set order \<Longrightarrow> f i = g i) \<Longrightarrow> slots order f rs = slots order g rs"
  by (induction order arbitrary: rs) simp_all

lemma along_concurrently:
  assumes "distinct order"
    and "\<And>f. along (k (slots order f results)) (h @ map (\<lambda>i. EvConsumeRefreshToken hash t (f i)) order) (\<lambda>_. True) R"
  shows "along (consume_concurrently hash t order results k) h (\<lambda>_. True) R"
  using assms
proof (induction order arbitrary: results h)
  case (Cons i order)
  have "along (consume_concurrently hash t order (results[i := r]) k) (h @ [EvConsumeRefreshToken hash t r]) (\<lambda>_. True) R" for r
  proof (rule Cons.IH)
    fix f
    define g where "g = f(i := r)"
    have g: "g i = r" and others: "\<And>j. j \<in> set order \<Longrightarrow> g j = f j" using Cons.prems(1) by (auto simp: g_def)
    then have same: "map (\<lambda>j. EvConsumeRefreshToken hash t (g j)) order = map (\<lambda>j. EvConsumeRefreshToken hash t (f j)) order"
      "slots order g (results[i := r]) = slots order f (results[i := r])"
      by (auto intro: slots_cong)
    then show "along (k (slots order f (results[i := r])))
        ((h @ [EvConsumeRefreshToken hash t r]) @ map (\<lambda>i. EvConsumeRefreshToken hash t (f i)) order) (\<lambda>_. True) R"
      using Cons.prems(2) [of g] by (simp only: list.map slots_simps same g append_assoc append_Cons append_Nil)
  qed (use Cons.prems in simp)
  then show ?case by simp
qed simp

lemma count_first_uses_Inr:
  "count_first_uses rs z = Inr z' \<longleftrightarrow> (\<forall>r \<in> set rs. \<exists>rt. r = Inr (Some rt)) \<and>
     z' = z + length (filter (\<lambda>r. \<exists>rt. r = Inr (Some rt) \<and> IsZero (rt_ConsumedAt rt)) rs)"
  by (induction rs z rule: count_first_uses.induct) auto

lemma one_slot:
  assumes "all_slots order" and "count_first_uses (slots order f (replicate atomicityConcurrency (Inr None))) 0 = Inr 1"
  obtains answers where "\<And>i. i \<in> set order \<Longrightarrow> f i = Inr (Some (answers i))"
    and "\<exists>!i. i \<in> set order \<and> IsZero (rt_ConsumedAt (answers i))"
proof -
  let ?rs = "slots order f (replicate atomicityConcurrency (Inr None))"
  have set: "i \<in> set order \<longleftrightarrow> i < length ?rs" for i using assms(1) by (simp add: all_slots_def)
  have nth: "?rs ! i = f i" if "i \<in> set order" for i using that set [of i] by (simp add: nth_slots)
  note count = assms(2) [unfolded count_first_uses_Inr]
  have all: "\<forall>r \<in> set ?rs. \<exists>rt. r = Inr (Some rt)" using count by (rule conjunct1)
  have one: "length (filter (\<lambda>r. \<exists>rt. r = Inr (Some rt) \<and> IsZero (rt_ConsumedAt rt)) ?rs) = 1"
    using conjunct2 [OF count] by (simp only: add_0)
  have "\<exists>rt. f i = Inr (Some rt)" if "i \<in> set order" for i
    using all nth [OF that] set [of i] that by (metis nth_mem)
  then obtain answers where f: "\<And>i. i \<in> set order \<Longrightarrow> f i = Inr (Some (answers i))" by metis
  have "{i. i < length ?rs \<and> (\<exists>rt. ?rs ! i = Inr (Some rt) \<and> IsZero (rt_ConsumedAt rt))} =
      {i. i \<in> set order \<and> IsZero (rt_ConsumedAt (answers i))}"
    using f nth set by (metis (lifting) sum.inject(2) option.inject)
  with one have "card {i. i \<in> set order \<and> IsZero (rt_ConsumedAt (answers i))} = 1"
    unfolding length_filter_conv_card by simp
  then obtain x where "{i. i \<in> set order \<and> IsZero (rt_ConsumedAt (answers i))} = {x}" by (rule card_1_singletonE)
  then have "i \<in> set order \<and> IsZero (rt_ConsumedAt (answers i)) \<longleftrightarrow> i = x" for i by blast
  then have "\<exists>!i. i \<in> set order \<and> IsZero (rt_ConsumedAt (answers i))" by simp
  with f show thesis by (rule that)
qed

lemma along_atomicity:
  assumes "all_slots order"
    and "\<And>v' e. same_run v' v \<Longrightarrow> (clean v' \<Longrightarrow> clean v \<and> race_seen order (canaryAtomicHash v') (h @ e)) \<Longrightarrow> along (k v') (h @ e) (\<lambda>_. True) R"
  shows "along (checkRefreshTokenAtomicity order v k) h (\<lambda>_. True) R"
proof -
  let ?n = "replicate atomicityConcurrency (Inr None)"
  have seen: "race_seen order hash (h @ (x # y # EvSaveRefreshToken rt (Inr ()) # map (\<lambda>i. EvConsumeRefreshToken hash t (f i)) order))"
    if "count_first_uses (slots order f ?n) 0 = Inr (Suc 0)" "hash = rt_TokenHash rt" "hash \<noteq> []" for x y rt t f hash
  proof -
    from one_slot [OF assms(1) that(1) [folded One_nat_def]] obtain answers where
      a: "\<And>i. i \<in> set order \<Longrightarrow> f i = Inr (Some (answers i))" and "\<exists>!i. i \<in> set order \<and> IsZero (rt_ConsumedAt (answers i))" by blast
    moreover from a have "map (\<lambda>i. EvConsumeRefreshToken hash t (f i)) order =
        map (\<lambda>i. EvConsumeRefreshToken (rt_TokenHash rt) t (Inr (Some (answers i)))) order" by (simp add: that(2))
    moreover have "sublist xs (h @ (x # y # xs))" for xs
      using sublist_appendI [of xs "h @ [x, y]" "[]"] by simp
    ultimately show ?thesis using that(2,3) unfolding race_seen_def by metis
  qed
  have distinct: "distinct order" using assms(1) by (simp add: all_slots_def)
  show ?thesis
    unfolding checkRefreshTokenAtomicity_def
    by (intro along_canary)
      (auto simp: answer_cases intro!: assms(2) along_concurrently [OF distinct] split: sum.split
        intro: seen [OF _ canary_refresh_simps(1) [symmetric]])
qed

text \<open>\<open>went_well\<close> is what the checks of the refresh tokens add to a report that stays clean.\<close>

definition went_well :: "nat list \<Rightarrow> string \<Rightarrow> time \<Rightarrow> verifier \<Rightarrow> event list \<Rightarrow> bool" where
  "went_well order k t v h \<longleftrightarrow> ledger_seen k t h \<and> race_seen order (canaryAtomicHash v) h"

lemma along_checkRevocation:
  assumes "all_slots order"
    and "\<And>gone. clean v \<Longrightarrow> (\<forall>y. gone \<noteq> Inr (Some y)) \<Longrightarrow>
      ledger_seen hash t (h @ [EvRevokeRefreshTokenFamily family (Inr ()), EvGetRefreshToken hash gone])"
    and "\<And>v' e. same_run v' v \<Longrightarrow> (clean v' \<Longrightarrow> clean v \<and> went_well order hash t v' (h @ e)) \<Longrightarrow> along (k v') (h @ e) (\<lambda>_. True) R"
  shows "along (checkRevocation order hash family v k) h (\<lambda>_. True) R"
proof -
  have rest: "along (checkRefreshTokenAtomicity order v' k) (h @ e) (\<lambda>_. True) R"
    if "same_run v' v" "clean v' \<Longrightarrow> clean v \<and> ledger_seen hash t (h @ e)" for v' e
  proof (rule along_atomicity [OF assms(1)])
    fix v'' e' assume more: "same_run v'' v'" "clean v'' \<Longrightarrow> clean v' \<and> race_seen order (canaryAtomicHash v'') ((h @ e) @ e')"
    have "along (k v'') (h @ (e @ e')) (\<lambda>_. True) R"
      by (rule assms(3)) (use that more seen_later(5) [of hash t "h @ e" e'] in \<open>auto simp: went_well_def\<close>)
    then show "along (k v'') ((h @ e) @ e') (\<lambda>_. True) R" by simp
  qed
  show ?thesis
    unfolding checkRevocation_def by (auto simp: answer_cases intro!: assms(3) rest assms(2))
qed

lemma along_checkConsumption:
  assumes "all_slots order"
    and "\<And>first second third kept gone. clean v \<Longrightarrow> IsZero (rt_ConsumedAt first) \<Longrightarrow> rt_FamilyID first = rt_FamilyID want \<Longrightarrow>
      \<not> IsZero (rt_ConsumedAt second) \<Longrightarrow> rt_FamilyID second = rt_FamilyID want \<Longrightarrow> rt_ConsumedAt third = rt_ConsumedAt second \<Longrightarrow>
      withinTolerance (rt_ConsumedAt second) (vs_now v) \<Longrightarrow> (\<forall>y. gone \<noteq> Inr (Some y)) \<Longrightarrow>
      ledger_seen hash t (h @ [EvConsumeRefreshToken hash (vs_now v) (Inr (Some first)),
        EvConsumeRefreshToken hash (vs_now v + hour) (Inr (Some second)),
        EvConsumeRefreshToken hash (vs_now v + 2 * hour) (Inr (Some third)), EvGetRefreshToken hash (Inr (Some kept)),
        EvRevokeRefreshTokenFamily (rt_FamilyID want) (Inr ()), EvGetRefreshToken hash gone])"
    and "\<And>v' e. same_run v' v \<Longrightarrow> (clean v' \<Longrightarrow> clean v \<and> went_well order hash t v' (h @ e)) \<Longrightarrow> along (k v') (h @ e) (\<lambda>_. True) R"
  shows "along (checkConsumption order hash want v k) h (\<lambda>_. True) R"
proof -
  have rest: "along (checkRevocation order hash (rt_FamilyID want) v' k) (h @ e) (\<lambda>_. True) R"
    if "same_run v' v" "clean v' \<Longrightarrow> clean v" "\<And>gone. clean v' \<Longrightarrow> (\<forall>y. gone \<noteq> Inr (Some y)) \<Longrightarrow>
      ledger_seen hash t ((h @ e) @ [EvRevokeRefreshTokenFamily (rt_FamilyID want) (Inr ()), EvGetRefreshToken hash gone])" for v' e
  proof (rule along_checkRevocation [OF assms(1) that(3)])
    fix v'' e' assume more: "same_run v'' v'" "clean v'' \<Longrightarrow> clean v' \<and> went_well order hash t v'' ((h @ e) @ e')"
    then have "along (k v'') (h @ (e @ e')) (\<lambda>_. True) R" by (intro assms(3)) (use that(1,2) in auto)
    then show "along (k v'') ((h @ e) @ e') (\<lambda>_. True) R" by simp
  qed
  have two_hours: "t + 2 * hour = t + 7200000000000" for t :: time by simp
  show ?thesis
    unfolding checkConsumption_def Let_def
    by (auto simp: answer_cases kept_instant_def
        intro!: assms(3) rest assms(2) [unfolded two_hours] split del: if_split)
qed

lemma compare_refresh_clean:
  "clean (compare_refresh got want v) \<longleftrightarrow> clean v \<and> row_kept want got"
  by (auto simp: compare_refresh_def row_kept_def Let_def)

lemma along_checkSaved:
  assumes "all_slots order" and "rt_TokenHash want = hash" and "hash \<noteq> []"
    and "rt_ExpiresAt want < vs_now v" and "vs_now v < rt_FamilyExpiresAt want"
    and "\<And>v' e. same_run v' v \<Longrightarrow> (clean v' \<Longrightarrow> clean v \<and> went_well order hash (vs_now v) v' (h @ e)) \<Longrightarrow> along (k v') (h @ e) (\<lambda>_. True) R"
  shows "along (checkSaved order hash want v k) h (\<lambda>_. True) R"
proof -
  have seen: "ledger_seen hash (vs_now v) (h @ [EvSaveRefreshToken want (Inr ()), EvGetRefreshToken hash (Inr (Some got)), x,
       EvGetRefreshToken none (Inr None), EvPurgeExpired (vs_now v) (Inr ()), EvGetRefreshToken hash (Inr (Some saved)),
       EvConsumeRefreshToken hash (vs_now v) (Inr (Some first)),
       EvConsumeRefreshToken hash (vs_now v + hour) (Inr (Some second)),
       EvConsumeRefreshToken hash (vs_now v + 2 * hour) (Inr (Some third)),
       EvGetRefreshToken hash (Inr (Some kept)),
       EvRevokeRefreshTokenFamily (rt_FamilyID want) (Inr ()), EvGetRefreshToken hash gone])"
    if "row_kept want got" "IsZero (rt_ConsumedAt first)" "rt_FamilyID first = rt_FamilyID want"
      "\<not> IsZero (rt_ConsumedAt second)" "rt_FamilyID second = rt_FamilyID want"
      "rt_ConsumedAt third = rt_ConsumedAt second" "withinTolerance (rt_ConsumedAt second) (vs_now v)" "\<forall>y. gone \<noteq> Inr (Some y)"
    for got x none saved first second third kept gone
    unfolding ledger_seen_def assms(2) [symmetric]
    by (intro exI conjI, use assms(2,3) in simp, rule refl, rule sublist_append_leftI) (use that assms(4,5) in simp_all)
  define read where "read got x none saved = [EvSaveRefreshToken want (Inr ()), EvGetRefreshToken hash (Inr (Some got)), x,
       EvGetRefreshToken none (Inr None), EvPurgeExpired (vs_now v) (Inr ()), EvGetRefreshToken hash (Inr (Some saved))]"
    for got x none saved
  have rest: "along (checkConsumption order hash want v' k) (h @ e) (\<lambda>_. True) R"
    if v': "same_run v' v" "clean v' \<Longrightarrow> clean v \<and> (\<exists>got x none saved. row_kept want got \<and> e = read got x none saved)" for v' e
  proof (rule along_checkConsumption [OF assms(1), where t = "vs_now v"])
    fix v'' e' assume more: "same_run v'' v'" "clean v'' \<Longrightarrow> clean v' \<and> went_well order hash (vs_now v) v'' ((h @ e) @ e')"
    then show "along (k v'') ((h @ e) @ e') (\<lambda>_. True) R"
      unfolding append_assoc by (intro assms(6)) (use v' in auto)
  next
    fix first second third kept :: refresh_token and gone :: "refresh_token option res"
    assume "clean v'" and hyps': "IsZero (rt_ConsumedAt first)" "rt_FamilyID first = rt_FamilyID want"
      "\<not> IsZero (rt_ConsumedAt second)" "rt_FamilyID second = rt_FamilyID want"
      "rt_ConsumedAt third = rt_ConsumedAt second" "withinTolerance (rt_ConsumedAt second) (vs_now v')" "\<forall>y. gone \<noteq> Inr (Some y)"
    have now: "vs_now v' = vs_now v" using v'(1) by simp
    obtain got x none saved where "row_kept want got" and e: "e = read got x none saved" using v'(2) [OF \<open>clean v'\<close>] by blast
    from seen [OF this(1) hyps' [unfolded now], of x none saved kept]
    show "ledger_seen hash (vs_now v) ((h @ e) @
       [EvConsumeRefreshToken hash (vs_now v') (Inr (Some first)), EvConsumeRefreshToken hash (vs_now v' + hour) (Inr (Some second)),
        EvConsumeRefreshToken hash (vs_now v' + 2 * hour) (Inr (Some third)), EvGetRefreshToken hash (Inr (Some kept)),
        EvRevokeRefreshTokenFamily (rt_FamilyID want) (Inr ()), EvGetRefreshToken hash gone])"
      by (simp add: e read_def now)
  qed
  show ?thesis
    unfolding checkSaved_def Let_def
    by (auto simp: answer_cases compare_refresh_clean read_def intro!: assms(6) along_canary rest)
qed

lemma along_checkRefreshToken:
  assumes "all_slots order"
    and "\<And>v' e. canaryClientID v' = canaryClientID v \<Longrightarrow> vs_now v' = vs_now v \<Longrightarrow>
      (clean v' \<Longrightarrow> clean v \<and> went_well order (canaryRefreshHash v') (vs_now v) v' (h @ e)) \<Longrightarrow> along (k v') (h @ e) (\<lambda>_. True) R"
  shows "along (checkRefreshToken order v k) h (\<lambda>_. True) R"
proof -
  have rest: "along (checkSaved order hash (canary_refresh v' hash f (- minute)) v' k) (h @ e) (\<lambda>_. True) R"
    if "canaryClientID v' = canaryClientID v" "vs_now v' = vs_now v" "canaryRefreshHash v' = hash" "hash \<noteq> []" "clean v' \<Longrightarrow> clean v"
    for v' e hash f
  proof (rule along_checkSaved [OF assms(1) _ that(4)])
    fix v'' e' assume more: "same_run v'' v'" "clean v'' \<Longrightarrow> clean v' \<and> went_well order hash (vs_now v') v'' ((h @ e) @ e')"
    then show "along (k v'') ((h @ e) @ e') (\<lambda>_. True) R"
      unfolding append_assoc by (intro assms(2)) (use that in auto)
  qed simp_all
  show ?thesis
    unfolding checkRefreshToken_def by (intro along_canary) (simp add: rest)
qed

section \<open>The whole run\<close>

definition skipped_or :: "(time \<Rightarrow> string \<Rightarrow> event list \<Rightarrow> bool) \<Rightarrow> time \<Rightarrow> string \<Rightarrow> event list \<Rightarrow> bool" where
  "skipped_or P t x es \<longleftrightarrow> (if x = [] then es = [] else P t x es)"

lemma along_expire_client:
  assumes "\<And>v' e. same_run v' v \<Longrightarrow> canaryAtomicHash v' = canaryAtomicHash v \<Longrightarrow>
    (clean v' \<Longrightarrow> clean v \<and> skipped_or client_expired (vs_now v) (canaryClientID v) e) \<Longrightarrow> along (k v') (h @ e) (\<lambda>_. True) R"
  shows "along (expire_client v k) h (\<lambda>_. True) R"
  using assms [of v "[]"]
  by (auto simp: expire_client_def answer_cases skipped_or_def client_expired_def intro!: assms)

lemma along_expire_refresh:
  assumes "\<And>es. list_all2 (skipped_or refresh_expired (vs_now v)) hs es \<Longrightarrow> along rest (h @ concat es) (\<lambda>_. True) R"
  shows "along (expire_refresh hs v rest) h (\<lambda>_. True) R"
  using assms
proof (induction hs arbitrary: h)
  case Nil
  then show ?case using Nil.prems [of "[]"] by simp
next
  case (Cons x hs)
  have more: "along (expire_refresh hs v rest) (h @ e) (\<lambda>_. True) R" if "skipped_or refresh_expired (vs_now v) x e" for e
  proof (rule Cons.IH)
    fix es assume "list_all2 (skipped_or refresh_expired (vs_now v)) hs es"
    with that show "along rest ((h @ e) @ concat es) (\<lambda>_. True) R" using Cons.prems [of "e # es"] by simp
  qed
  from more [of "[]"] more show ?case
    by (auto simp: answer_cases skipped_or_def refresh_expired_def)
qed

lemma along_cleanup:
  assumes "\<And>v' e. (clean v' \<Longrightarrow> clean v \<and> (canaryClientID v \<noteq> [] \<longrightarrow> canaryRefreshHash v \<noteq> [] \<longrightarrow> canaryAtomicHash v \<noteq> [] \<longrightarrow>
      purge_seen (canaryClientID v) (canaryRefreshHash v) (canaryAtomicHash v) (vs_now v) (h @ e))) \<Longrightarrow>
    along (k v') (h @ e) (\<lambda>_. True) R"
  shows "along (cleanup v k) h (\<lambda>_. True) R"
proof -
  have purged: "along (checkPurged v' k) (h @ (cs @ (ks @ js) @ [EvPurgeExpired (vs_now v) (Inr ())])) (\<lambda>_. True) R"
    if v': "same_run v' v" "canaryAtomicHash v' = canaryAtomicHash v"
      "clean v' \<Longrightarrow> clean v \<and> skipped_or client_expired (vs_now v) (canaryClientID v) cs"
      and ks: "skipped_or refresh_expired (vs_now v) (canaryRefreshHash v) ks"
      and js: "skipped_or refresh_expired (vs_now v) (canaryAtomicHash v) js" for v' cs ks js
  proof -
    let ?mid = "cs @ (ks @ js) @ [EvPurgeExpired (vs_now v) (Inr ())]"
    have early: "along (k v'') (h @ (?mid @ e)) (\<lambda>_. True) R"
      if "clean v'' \<Longrightarrow> clean v'" "canaryClientID v = [] \<or> canaryRefreshHash v = []" for v'' e
      by (rule assms) (use that v' in auto)
    have finished: "along (k v'') (h @ (?mid @ [EvGetClient (canaryClientID v) gone, EvGetRefreshToken (canaryRefreshHash v) gone'])) (\<lambda>_. True) R"
      if "clean v'' \<Longrightarrow> clean v' \<and> (\<forall>c. gone \<noteq> Inr (Some c)) \<and> (\<forall>rt. gone' \<noteq> Inr (Some rt))" for v'' gone gone'
    proof (rule assms, intro conjI impI)
      assume "clean v''" and ids: "canaryClientID v \<noteq> []" "canaryRefreshHash v \<noteq> []" "canaryAtomicHash v \<noteq> []"
      then have "client_expired (vs_now v) (canaryClientID v) cs" "refresh_expired (vs_now v) (canaryRefreshHash v) ks"
        "refresh_expired (vs_now v) (canaryAtomicHash v) js" "\<forall>c. gone \<noteq> Inr (Some c)" "\<forall>rt. gone' \<noteq> Inr (Some rt)"
        using that v' ks js by (simp_all add: skipped_or_def)
      then show "purge_seen (canaryClientID v) (canaryRefreshHash v) (canaryAtomicHash v) (vs_now v)
          (h @ (?mid @ [EvGetClient (canaryClientID v) gone, EvGetRefreshToken (canaryRefreshHash v) gone']))"
        unfolding purge_seen_def
        by (intro exI [of _ cs] exI [of _ ks] exI [of _ js] exI [of _ gone] exI [of _ gone'] conjI)
           (simp_all add: sublist_append_leftI)
    qed (use that v' in auto)
    show ?thesis
      using early [of v' "[]"] v'
      by (auto simp: checkPurged_def Let_def answer_cases intro!: early [simplified] finished [simplified])
  qed
  have failed: "along (k (failf pr v')) (h @ e) (\<lambda>_. True) R" for pr v' e
    by (rule assms) simp
  show ?thesis
    unfolding cleanup_def
  proof (intro along_expire_client along_expire_refresh)
    fix v' cs es
    assume v': "same_run v' v" "canaryAtomicHash v' = canaryAtomicHash v"
      "clean v' \<Longrightarrow> clean v \<and> skipped_or client_expired (vs_now v) (canaryClientID v) cs"
      and es: "list_all2 (skipped_or refresh_expired (vs_now v')) [canaryRefreshHash v', canaryAtomicHash v'] es"
    from es v'(1,2) obtain ks js where "es = [ks, js]" and "skipped_or refresh_expired (vs_now v) (canaryRefreshHash v) ks"
      and "skipped_or refresh_expired (vs_now v) (canaryAtomicHash v) js" by (auto simp: list_all2_Cons1)
    then show "along (PurgeExpired (vs_now v') (\<lambda>purged. case purged of
        Inl err \<Rightarrow> k (failf (CallFailed ''PurgeExpired'' err) v') | Inr _ \<Rightarrow> checkPurged v' k)) ((h @ cs) @ concat es) (\<lambda>_. True) R"
      using purged [OF v', of ks js] v'(1) failed [where e = "cs @ e" for e] by (auto simp: answer_cases)
  qed
qed

definition compliant :: "nat list \<Rightarrow> event list \<Rightarrow> bool" where
  "compliant order h \<longleftrightarrow> (\<exists>i k j t. client_seen i t h \<and> code_seen h \<and> pending_seen h \<and> pending_pair_seen h \<and>
     ledger_seen k t h \<and> race_seen order j h \<and> purge_seen i k j t h)"

lemma along_VerifyStore:
  assumes "all_slots order"
  shows "along (VerifyStore p order) [] (\<lambda>_. True) (\<lambda>result h. result = [] \<longrightarrow> compliant order h)"
proof -
  let ?R = "\<lambda>result h. result = [] \<longrightarrow> compliant order h"
  let ?fin = "\<lambda>v. cleanup v (\<lambda>v. Ret (problems v))"
  have report: "problems v = [] \<longleftrightarrow> clean v" for v by (simp add: clean_def)
  let ?refresh = "\<lambda>v. checkRefreshToken order v ?fin"
  let ?pending = "\<lambda>v. checkPendingAuth v ?refresh"
  have cleanup: "along (?fin v) h (\<lambda>_. True) ?R"
    if seen: "canaryClientID v \<noteq> []" "clean v \<Longrightarrow> client_seen (canaryClientID v) (vs_now v) h \<and> code_seen h \<and>
      pending_seen h \<and> pending_pair_seen h \<and> went_well order (canaryRefreshHash v) (vs_now v) v h" for v h
  proof (rule along_cleanup)
    fix v' e
    assume more: "clean v' \<Longrightarrow> clean v \<and> (canaryClientID v \<noteq> [] \<longrightarrow> canaryRefreshHash v \<noteq> [] \<longrightarrow> canaryAtomicHash v \<noteq> [] \<longrightarrow>
      purge_seen (canaryClientID v) (canaryRefreshHash v) (canaryAtomicHash v) (vs_now v) (h @ e))"
    have "compliant order (h @ e)" if "clean v'"
    proof -
      note all = seen(2) [OF conjunct1 [OF more [OF that]]]
      then have "canaryRefreshHash v \<noteq> []" "canaryAtomicHash v \<noteq> []"
        by (auto simp: went_well_def ledger_seen_def race_seen_def)
      then have "purge_seen (canaryClientID v) (canaryRefreshHash v) (canaryAtomicHash v) (vs_now v) (h @ e)"
        using more [OF that] seen(1) by simp
      then show ?thesis
        using all seen_later unfolding compliant_def went_well_def
        by (intro exI [of _ "canaryClientID v"] exI [of _ "canaryRefreshHash v"] exI [of _ "canaryAtomicHash v"]
            exI [of _ "vs_now v"]) simp
    qed
    then show "along (Ret (problems v')) (h @ e) (\<lambda>_. True) ?R" by (simp add: report)
  qed
  have refresh: "along (?refresh v) h (\<lambda>_. True) ?R"
    if "canaryClientID v \<noteq> []" "clean v \<Longrightarrow> client_seen (canaryClientID v) (vs_now v) h \<and> code_seen h \<and> pending_seen h \<and> pending_pair_seen h" for v h
    by (intro along_checkRefreshToken [OF assms] cleanup) (use that seen_later in auto)
  have pending: "along (?pending v) h (\<lambda>_. True) ?R"
    if "canaryClientID v \<noteq> []" "clean v \<Longrightarrow> client_seen (canaryClientID v) (vs_now v) h \<and> code_seen h" for v h
    by (intro along_checkPendingAuth refresh) (use that seen_later in auto)
  have code: "along (checkAuthCode v ?pending) h (\<lambda>_. True) ?R"
    if "canaryClientID v \<noteq> []" "clean v \<Longrightarrow> client_seen (canaryClientID v) (vs_now v) h" for v h
    by (intro along_checkAuthCode pending) (use that seen_later in auto)
  have client: "along (checkClient v (\<lambda>v. checkAuthCode v ?pending)) h (\<lambda>_. True) ?R" for v h
    by (intro along_checkClient code) auto
  show ?thesis unfolding VerifyStore_def Let_def by (simp add: client)
qed

end
