(* ===== verification/Hash_Vectors.thy ===== *)
theory Hash_Vectors
  imports Secrets
begin

text \<open>
  Hashes the kernel evaluates: the example of RFC 7636 (Appendix B) for the S256 challenge, a check of
  the SHA-256 and base64url definitions against a published vector, and the names of the canaries
  that \<open>VerifyStore\<close> looks up when the random source gives the byte 7 only.
\<close>

section \<open>SHA-256 on natural numbers\<close>

text \<open>
  The kernel computes with the binary numerals of \<open>nat\<close> faster than with words. A word of the
  state is the number below \<open>2 ^ 32\<close> it stands for; a rotation is a shift of the number written twice.
\<close>

datatype nat_state = NS nat nat nat nat nat nat nat nat

definition lo32 :: "nat \<Rightarrow> nat" where "lo32 x = x AND 4294967295"

definition twice :: "nat \<Rightarrow> nat" where "twice x = x * 4294967297"

definition n_sigma :: "nat \<Rightarrow> nat \<Rightarrow> nat \<Rightarrow> nat \<Rightarrow> nat \<Rightarrow> nat" where
  "n_sigma i j k y z = drop_bit i y XOR drop_bit j y XOR drop_bit k z"

definition n_next :: "nat list \<Rightarrow> nat" where
  "n_next ws = lo32 (n_sigma 17 19 10 (twice (ws ! 1)) (ws ! 1) + ws ! 6 + n_sigma 7 18 3 (twice (ws ! 14)) (ws ! 14) + ws ! 15)"

fun n_schedule :: "nat \<Rightarrow> nat list \<Rightarrow> nat list" where
  "n_schedule 0 ws = ws"
| "n_schedule (Suc n) ws = n_schedule n (n_next ws # ws)"

fun n_fin :: "nat \<Rightarrow> nat \<Rightarrow> nat_state \<Rightarrow> nat_state" where
  "n_fin t1 t2 (NS a b c d e f g h) = NS (lo32 (t1 + t2)) a b c (lo32 (d + t1)) e f g"

fun n_round :: "nat \<Rightarrow> nat \<Rightarrow> nat_state \<Rightarrow> nat_state" where
  "n_round k w (NS a b c d e f g h) =
     n_fin (h + n_sigma 6 11 25 (twice e) (twice e) + (g XOR (e AND (f XOR g))) + k + w)
       (n_sigma 2 13 22 (twice a) (twice a) + (b XOR ((a XOR b) AND (b XOR c)))) (NS a b c d e f g h)"

fun n_rounds :: "nat list \<Rightarrow> nat list \<Rightarrow> nat_state \<Rightarrow> nat_state" where
  "n_rounds (k # ks) (w # ws) s = n_rounds ks ws (n_round k w s)"
| "n_rounds ks ws s = s"

fun n_add :: "nat_state \<Rightarrow> nat_state \<Rightarrow> nat_state" where
  "n_add (NS a b c d e f g h) (NS a' b' c' d' e' f' g' h') =
     NS (lo32 (a + a')) (lo32 (b + b')) (lo32 (c + c')) (lo32 (d + d')) (lo32 (e + e')) (lo32 (f + f')) (lo32 (g + g')) (lo32 (h + h'))"

definition n_K :: "nat list" where
  "n_K = map unat sha_K"

text \<open>The schedule and the rounds together, on the sixteen words the next one is made of.\<close>

definition n_word :: "nat \<Rightarrow> nat \<Rightarrow> nat \<Rightarrow> nat \<Rightarrow> nat" where
  "n_word a b c d = lo32 (n_sigma 17 19 10 (twice a) a + b + n_sigma 7 18 3 (twice c) c + d)"

fun n_go :: "nat \<Rightarrow> nat list \<Rightarrow> nat list \<Rightarrow> nat_state \<Rightarrow> nat_state" where
  "n_go (Suc n) (k # ks) [w0, w1, w2, w3, w4, w5, w6, w7, w8, w9, w10, w11, w12, w13, w14, w15] s =
     n_go n ks [w1, w2, w3, w4, w5, w6, w7, w8, w9, w10, w11, w12, w13, w14, w15, n_word w14 w9 w1 w0] (n_round k w0 s)"
| "n_go n ks ws s = n_rounds ks ws s"

definition n_block :: "nat list \<Rightarrow> nat_state \<Rightarrow> nat_state" where
  "n_block ws s = n_add (n_go 48 n_K ws s) s"

section \<open>The words the numbers stand for\<close>

fun state_words :: "nat_state \<Rightarrow> sha_state" where
  "state_words (NS a b c d e f g h) = Sha (of_nat a) (of_nat b) (of_nat c) (of_nat d) (of_nat e) (of_nat f) (of_nat g) (of_nat h)"

fun small :: "nat_state \<Rightarrow> bool" where
  "small (NS a b c d e f g h) \<longleftrightarrow> (\<forall>x \<in> {a, b, c, d, e, f, g, h}. x < 2 ^ 32)"

lemma lo32_mask: "lo32 x = take_bit 32 x"
  by (simp add: lo32_def take_bit_eq_mask mask_eq_exp_minus_1)

lemma lo32_less [simp]: "lo32 x < 2 ^ 32"
  by (simp only: lo32_mask take_bit_nat_less_exp)

lemma bit_of_nat_w32: "bit (of_nat n :: w32) i \<longleftrightarrow> i < 32 \<and> bit n i"
proof -
  have "(of_nat n :: w32) = word_of_int (int n)" by simp
  then show ?thesis by (simp only: bit_word_of_int_iff bit_of_nat_iff) simp
qed

lemma of_nat_lo32 [simp]: "(of_nat (lo32 x) :: w32) = of_nat x"
  by (rule bit_word_eqI) (simp add: lo32_mask bit_of_nat_w32 bit_take_bit_iff)

lemma of_nat_logic:
  "(of_nat (x XOR y) :: w32) = of_nat x XOR of_nat y" "(of_nat (x AND y) :: w32) = of_nat x AND of_nat y"
  by (rule bit_word_eqI; simp add: bit_of_nat_w32 bit_xor_iff bit_and_iff)+

lemma of_nat_drop_bit:
  assumes "x < 2 ^ 32"
  shows "(of_nat (drop_bit n x) :: w32) = drop_bit n (of_nat x)"
proof (rule bit_word_eqI)
  fix i assume "i < LENGTH(32)"
  have "\<not> bit x (n + i)" if "\<not> n + i < 32"
  proof -
    have "take_bit 32 x = x" using assms by (simp add: take_bit_nat_eq_self)
    then have "bit x (n + i) = bit (take_bit 32 x) (n + i)" by simp
    with that show ?thesis by (simp add: bit_take_bit_iff)
  qed
  with \<open>i < LENGTH(32)\<close> show "bit (of_nat (drop_bit n x) :: w32) i = bit (drop_bit n (of_nat x :: w32)) i"
    by (auto simp: bit_of_nat_w32 bit_drop_bit_eq)
qed

lemma twice_bit:
  assumes "x < 2 ^ 32"
  shows "bit (twice x) i \<longleftrightarrow> bit x (if i < 32 then i else i - 32)"
proof -
  have "twice x = push_bit 32 x + x" by (simp add: twice_def push_bit_eq_mult)
  also have "\<dots> = push_bit 32 x OR x"
  proof (rule disjunctive_add)
    fix k
    have "take_bit 32 x = x" using assms by (simp add: take_bit_nat_eq_self)
    then have "bit x k \<Longrightarrow> k < 32" by (metis bit_take_bit_iff)
    then show "\<not> bit (push_bit 32 x) k \<or> \<not> bit x k" by (auto simp: bit_push_bit_iff)
  qed
  finally have "bit (twice x) i \<longleftrightarrow> (32 \<le> i \<and> bit x (i - 32)) \<or> bit x i" by (simp add: bit_or_iff bit_push_bit_iff_nat)
  moreover have "bit x k \<Longrightarrow> k < 32" for k
    using assms take_bit_nat_eq_self [OF assms] by (metis bit_take_bit_iff)
  ultimately show ?thesis by auto
qed

lemma of_nat_twice:
  assumes "x < 2 ^ 32" and "n < 32"
  shows "(of_nat (drop_bit n (twice x)) :: w32) = word_rotr n (of_nat x)"
proof (rule bit_word_eqI)
  fix i assume "i < LENGTH(32)"
  with assms show "bit (of_nat (drop_bit n (twice x)) :: w32) i = bit (word_rotr n (of_nat x :: w32)) i"
    by (auto simp: bit_of_nat_w32 bit_drop_bit_eq twice_bit bit_word_rotr_iff mod_if add.commute [of i n])
qed

lemma of_nat_sigma:
  assumes "x < 2 ^ 32"
  shows "(of_nat (n_sigma 2 13 22 (twice x) (twice x)) :: w32) = big_sigma0 (of_nat x)"
    and "(of_nat (n_sigma 6 11 25 (twice x) (twice x)) :: w32) = big_sigma1 (of_nat x)"
    and "(of_nat (n_sigma 7 18 3 (twice x) x) :: w32) = small_sigma0 (of_nat x)"
    and "(of_nat (n_sigma 17 19 10 (twice x) x) :: w32) = small_sigma1 (of_nat x)"
  by (simp_all only: n_sigma_def of_nat_logic of_nat_drop_bit [OF assms] big_sigma0_def big_sigma1_def small_sigma0_def small_sigma1_def)
    (simp_all add: of_nat_twice [OF assms])

lemma choose_word: "(e AND f) XOR (NOT e AND g) = g XOR (e AND (f XOR g))" for e f g :: w32
  by (rule bit_word_eqI) (auto simp: bit_simps)

lemma majority_word: "(a AND b) XOR (a AND c) XOR (b AND c) = b XOR ((a XOR b) AND (b XOR c))" for a b c :: w32
  by (rule bit_word_eqI) (auto simp: bit_simps)

lemma n_round_word:
  "small s \<Longrightarrow> state_words (n_round k w s) = sha_round (of_nat k, of_nat w) (state_words s) \<and> small (n_round k w s)"
  by (cases s) (simp add: Let_def of_nat_sigma of_nat_logic choose_word majority_word del: lo32_less add: lo32_less [simplified])

lemma n_rounds_word:
  "small s \<Longrightarrow> state_words (n_rounds ks ws s) = fold sha_round (zip (map of_nat ks) (map of_nat ws)) (state_words s) \<and> small (n_rounds ks ws s)"
proof (induction ks ws s rule: n_rounds.induct)
  case (1 k ks w ws s)
  then show ?case using n_round_word [of s k w] by simp
qed auto

lemma n_add_word: "state_words (n_add s t) = sha_add (state_words s) (state_words t)"
  by (cases s; cases t) simp

lemma n_schedule_word:
  "16 \<le> length ws \<Longrightarrow> list_all (\<lambda>w. w < 2 ^ 32) ws \<Longrightarrow> map of_nat (n_schedule n ws) = sha_schedule n (map of_nat ws)"
proof (induction n arbitrary: ws)
  case (Suc n)
  have "(of_nat (n_next ws) :: w32) = small_sigma1 (map of_nat ws ! 1) + map of_nat ws ! 6 + small_sigma0 (map of_nat ws ! 14) + map of_nat ws ! 15"
    using Suc.prems by (simp add: n_next_def of_nat_sigma list_all_length)
  moreover have "n_next ws < 2 ^ 32" by (simp only: n_next_def lo32_less)
  ultimately show ?case using Suc by simp
qed simp

lemma n_schedule_snoc: "16 \<le> length ws \<Longrightarrow> n_schedule n (ws @ [w]) = n_schedule n ws @ [w]"
proof (induction n arbitrary: ws)
  case (Suc n)
  have "n_next (ws @ [w]) = n_next ws" using Suc.prems by (simp add: n_next_def nth_append)
  with Suc.IH [of "n_next ws # ws"] Suc.prems show ?case by simp
qed simp

lemma n_go_rounds:
  "length ws = 16 \<Longrightarrow> n \<le> length ks \<Longrightarrow> n_go n ks ws s = n_rounds ks (rev (n_schedule n (rev ws))) s"
proof (induction n arbitrary: ks ws s)
  case 0
  then show ?case by simp
next
  case (Suc n)
  obtain k ks' where ks: "ks = k # ks'" using Suc.prems(2) by (cases ks) auto
  obtain w0 w1 w2 w3 w4 w5 w6 w7 w8 w9 w10 w11 w12 w13 w14 w15
    where ws: "ws = [w0, w1, w2, w3, w4, w5, w6, w7, w8, w9, w10, w11, w12, w13, w14, w15]"
    using Suc.prems(1) by (auto simp: numeral_eq_Suc length_Suc_conv)
  let ?ws = "[w1, w2, w3, w4, w5, w6, w7, w8, w9, w10, w11, w12, w13, w14, w15, n_word w14 w9 w1 w0]"
  have "n_schedule (Suc n) (rev ws) = n_schedule n (rev ?ws) @ [w0]"
    using n_schedule_snoc [of "rev ?ws" n w0] by (simp add: ws n_next_def n_word_def)
  with Suc.IH [of ?ws ks' "n_round k w0 s"] Suc.prems(2) show ?case by (simp add: ks ws)
qed

lemma length_sha_K: "length sha_K = 64"
  by (simp add: sha_K_def)

lemma n_block_word:
  assumes "small s" and "length ws = 16" and "list_all (\<lambda>w. w < 2 ^ 32) ws" and "map be_word (chunks 4 16 blk) = map of_nat ws"
  shows "sha_block blk (state_words s) = state_words (n_block ws s)"
proof -
  have K: "map of_nat n_K = sha_K" by (simp add: n_K_def comp_def)
  have "rev (sha_schedule 48 (rev (map be_word (chunks 4 16 blk)))) = map of_nat (rev (n_schedule 48 (rev ws)))"
    using n_schedule_word [of "rev ws" 48, symmetric] assms(2,3) by (simp add: assms(4) rev_map)
  then show ?thesis
    using n_rounds_word [OF assms(1)] assms(2)
    by (simp add: sha_block_def n_block_def n_go_rounds n_K_def length_sha_K Let_def n_add_word K [unfolded n_K_def map_map])
qed

section \<open>Evaluation\<close>

definition n_init :: nat_state where
  "n_init = NS 1779033703 3144134277 1013904242 2773480762 1359893119 2600822924 528734635 1541459225"

definition n_message :: "nat list list \<Rightarrow> bool" where
  "n_message wss \<longleftrightarrow> list_all (\<lambda>ws. length ws = 16 \<and> list_all (\<lambda>w. w < 2 ^ 32) ws) wss"

lemma n_blocks_word:
  "small s \<Longrightarrow> n_message wss \<Longrightarrow> map (\<lambda>blk. map be_word (chunks 4 16 blk)) blks = map (map of_nat) wss \<Longrightarrow>
   fold sha_block blks (state_words s) = state_words (fold n_block wss s)"
proof (induction wss arbitrary: blks s)
  case (Cons ws wss)
  then obtain blk rest where blks: "blks = blk # rest" by (cases blks) auto
  have "small (n_block ws s)" by (cases "n_go 48 n_K ws s"; cases s) (simp add: n_block_def del: lo32_less add: lo32_less [simplified])
  with Cons blks show ?case using n_block_word [OF Cons.prems(1), of ws blk] by (simp add: n_message_def)
qed simp

lemma sha256_nat:
  assumes "fold n_block wss n_init = s" and "n_message wss"
    and "map (\<lambda>blk. map be_word (chunks 4 16 blk)) (chunks 64 (length (sha_pad m) div 64) (sha_pad m)) = map (map of_nat) wss"
  shows "sha256 m = sha_digest (state_words s)"
proof -
  have "state_words n_init = sha_init" by (simp add: n_init_def sha_init_def)
  moreover have "small n_init" by (simp add: n_init_def)
  ultimately show ?thesis using n_blocks_word [OF _ assms(2,3), of n_init] assms(1) by (simp add: sha256_def Let_def)
qed

lemma n_go_numeral:
  "n_go (numeral m) (k # ks) [w0, w1, w2, w3, w4, w5, w6, w7, w8, w9, w10, w11, w12, w13, w14, w15] s =
   n_go (pred_numeral m) ks [w1, w2, w3, w4, w5, w6, w7, w8, w9, w10, w11, w12, w13, w14, w15, n_word w14 w9 w1 w0] (n_round k w0 s)"
  by (simp add: numeral_eq_Suc)

lemma n_K_eval: "n_K =
   [1116352408, 1899447441, 3049323471, 3921009573, 961987163, 1508970993, 2453635748, 2870763221, 3624381080,
    310598401, 607225278, 1426881987, 1925078388, 2162078206, 2614888103, 3248222580, 3835390401, 4022224774,
    264347078, 604807628, 770255983, 1249150122, 1555081692, 1996064986, 2554220882, 2821834349, 2952996808,
    3210313671, 3336571891, 3584528711, 113926993, 338241895, 666307205, 773529912, 1294757372, 1396182291,
    1695183700, 1986661051, 2177026350, 2456956037, 2730485921, 2820302411, 3259730800, 3345764771, 3516065817,
    3600352804, 4094571909, 275423344, 430227734, 506948616, 659060556, 883997877, 958139571, 1322822218,
    1537002063, 1747873779, 1955562222, 2024104815, 2227730452, 2361852424, 2428436474, 2756734187, 3204031479,
    3329325298]"
  by (simp add: n_K_def sha_K_def)

lemmas n_eval = n_block_def n_K_eval n_go_numeral n_word_def n_sigma_def twice_def lo32_def

lemma block1_rfc7636_challenge:
  "n_block
     [1682074214, 1951032666, 876828240, 762135097, 843788855, 1969775189, 1247097200, 829579127, 1462855494,
     1464225605, 1784179584, 0, 0, 0, 0, 344]
     (NS 1779033703 3144134277 1013904242 2773480762 1359893119 2600822924 528734635 1541459225) =
   NS 332603030 437967084 790016268 1285041672 1990752429 1844528214 1860274506 3413178819"
  by (simp add: n_eval)

lemma blocks_rfc7636_challenge:
  "fold n_block
     [[1682074214, 1951032666, 876828240, 762135097, 843788855, 1969775189, 1247097200, 829579127, 1462855494,
     1464225605, 1784179584, 0, 0, 0, 0, 344]] n_init =
   NS 332603030 437967084 790016268 1285041672 1990752429 1844528214 1860274506 3413178819"
  by (simp add: n_init_def block1_rfc7636_challenge)

lemma rfc7636_challenge: "b64url_encode (sha256 (bytes ''dBjftJeZ4CVP-mB92K27uhbUJU1p1r_wW1gFWFOEjXk'')) =
   ''E9Melhoa2OwvFrEMTJguCHaoeK1t8URWbuGJSstw-cM''"
  by (subst sha256_nat [OF blocks_rfc7636_challenge, unfolded list.map state_words.simps of_nat_numeral]) (simp add: n_message_def, code_simp, simp add: word_bytes_def b64url_char_def, code_simp)

lemma b64_sevens: "b64url_encode (replicate 24 7) = ''BwcHBwcHBwcHBwcHBwcHBwcHBwcHBwcH''"
proof -
  have "replicate 24 (7 :: byte) = [7, 7, 7, 7, 7, 7, 7, 7, 7, 7, 7, 7, 7, 7, 7, 7, 7, 7, 7, 7, 7, 7, 7, 7]" by code_simp
  then show ?thesis by (simp add: b64url_char_def) code_simp
qed

lemma block1_hash_pending_a:
  "n_block
     [1835233391, 1635087464, 762733938, 1768323373, 1885695588, 1768843053, 1630356087, 1665679991, 1665679991,
     1665679991, 1665679991, 1665679991, 1665679991, 1665679991, 1665695744, 0]
     (NS 1779033703 3144134277 1013904242 2773480762 1359893119 2600822924 528734635 1541459225) =
   NS 2346586035 1670087441 4154829381 1977932284 2948999706 2878126653 1431294284 976843057"
  by (simp add: n_eval)

lemma block2_hash_pending_a:
  "n_block
     [0, 0, 0, 0, 0, 0, 0, 0, 0, 0, 0, 0, 0, 0, 0, 464]
     (NS 2346586035 1670087441 4154829381 1977932284 2948999706 2878126653 1431294284 976843057) =
   NS 4086415962 3664541904 1383817482 4036018593 1840576063 875143378 2475676290 4125700056"
  by (simp add: n_eval)

lemma blocks_hash_pending_a:
  "fold n_block
     [[1835233391, 1635087464, 762733938, 1768323373, 1885695588, 1768843053, 1630356087, 1665679991, 1665679991,
     1665679991, 1665679991, 1665679991, 1665679991, 1665679991, 1665695744, 0], [0, 0, 0, 0, 0, 0, 0, 0, 0,
     0, 0, 0, 0, 0, 0, 464]] n_init =
   NS 4086415962 3664541904 1383817482 4036018593 1840576063 875143378 2475676290 4125700056"
  by (simp add: n_init_def block1_hash_pending_a block2_hash_pending_a)

lemma hash_pending_a: "HashSecret (''mcpoauth-verify-'' @ ''pending-a'' @ ''-'' @ b64url_encode (replicate 24 7)) =
   ''f391c25ada6c78d0527b610af090c1a16db4f63f3429a0d2938fd282f5e92fd8''"
  unfolding HashSecret_def b64_sevens by (subst sha256_nat [OF blocks_hash_pending_a, unfolded list.map state_words.simps of_nat_numeral]) (simp add: n_message_def, code_simp+)

lemma block1_hash_pending_b:
  "n_block
     [1835233391, 1635087464, 762733938, 1768323373, 1885695588, 1768843053, 1647133303, 1665679991, 1665679991,
     1665679991, 1665679991, 1665679991, 1665679991, 1665679991, 1665695744, 0]
     (NS 1779033703 3144134277 1013904242 2773480762 1359893119 2600822924 528734635 1541459225) =
   NS 2390604508 3952289040 1646920335 2505319934 17156152 1995249975 114642102 2467922438"
  by (simp add: n_eval)

lemma block2_hash_pending_b:
  "n_block
     [0, 0, 0, 0, 0, 0, 0, 0, 0, 0, 0, 0, 0, 0, 0, 464]
     (NS 2390604508 3952289040 1646920335 2505319934 17156152 1995249975 114642102 2467922438) =
   NS 3870608477 157432301 4003811576 3405114751 4109713567 4039787778 4115632425 625048040"
  by (simp add: n_eval)

lemma blocks_hash_pending_b:
  "fold n_block
     [[1835233391, 1635087464, 762733938, 1768323373, 1885695588, 1768843053, 1647133303, 1665679991, 1665679991,
     1665679991, 1665679991, 1665679991, 1665679991, 1665679991, 1665695744, 0], [0, 0, 0, 0, 0, 0, 0, 0, 0,
     0, 0, 0, 0, 0, 0, 464]] n_init =
   NS 3870608477 157432301 4003811576 3405114751 4109713567 4039787778 4115632425 625048040"
  by (simp add: n_init_def block1_hash_pending_b block2_hash_pending_b)

lemma hash_pending_b: "HashSecret (''mcpoauth-verify-'' @ ''pending-b'' @ ''-'' @ b64url_encode (replicate 24 7)) =
   ''e6b4cc5d096239edeea550f8caf5ed7ff4f5409ff0ca4502f54f9129254179e8''"
  unfolding HashSecret_def b64_sevens by (subst sha256_nat [OF blocks_hash_pending_b, unfolded list.map state_words.simps of_nat_numeral]) (simp add: n_message_def, code_simp+)

lemma block1_hash_refresh:
  "n_block
     [1835233391, 1635087464, 762733938, 1768323373, 1919247986, 1702062125, 1115120456, 1115120456, 1115120456,
     1115120456, 1115120456, 1115120456, 1115120456, 1115120456, 2147483648, 0]
     (NS 1779033703 3144134277 1013904242 2773480762 1359893119 2600822924 528734635 1541459225) =
   NS 3709723030 2009279022 1357611887 3104922367 4208767462 4179522591 3718612928 4112520921"
  by (simp add: n_eval)

lemma block2_hash_refresh:
  "n_block
     [0, 0, 0, 0, 0, 0, 0, 0, 0, 0, 0, 0, 0, 0, 0, 448]
     (NS 3709723030 2009279022 1357611887 3104922367 4208767462 4179522591 3718612928 4112520921) =
   NS 950027932 2477198416 1424856606 3950454801 264541892 2006715608 3839259472 2842942902"
  by (simp add: n_eval)

lemma blocks_hash_refresh:
  "fold n_block
     [[1835233391, 1635087464, 762733938, 1768323373, 1919247986, 1702062125, 1115120456, 1115120456, 1115120456,
     1115120456, 1115120456, 1115120456, 1115120456, 1115120456, 2147483648, 0], [0, 0, 0, 0, 0, 0, 0, 0, 0,
     0, 0, 0, 0, 0, 0, 448]] n_init =
   NS 950027932 2477198416 1424856606 3950454801 264541892 2006715608 3839259472 2842942902"
  by (simp add: n_init_def block1_hash_refresh block2_hash_refresh)

lemma hash_refresh: "HashSecret (''mcpoauth-verify-'' @ ''refresh'' @ ''-'' @ b64url_encode (replicate 24 7)) =
   ''38a0469c93a70c5054ed961eeb7728110fc496c4779c0cd8e4d67350a973ddb6''"
  unfolding HashSecret_def b64_sevens by (subst sha256_nat [OF blocks_hash_refresh, unfolded list.map state_words.simps of_nat_numeral]) (simp add: n_message_def, code_simp+)

lemma block1_hash_never_issued:
  "n_block
     [1835233391, 1635087464, 762733938, 1768323373, 1852143205, 1915578739, 1937073508, 759330659, 1212315491,
     1212315491, 1212315491, 1212315491, 1212315491, 1212315491, 1212315491, 1216348160]
     (NS 1779033703 3144134277 1013904242 2773480762 1359893119 2600822924 528734635 1541459225) =
   NS 2208941147 1607060622 3342233680 946556022 541155011 4211742683 3050140487 2413109294"
  by (simp add: n_eval)

lemma block2_hash_never_issued:
  "n_block
     [0, 0, 0, 0, 0, 0, 0, 0, 0, 0, 0, 0, 0, 0, 0, 488]
     (NS 2208941147 1607060622 3342233680 946556022 541155011 4211742683 3050140487 2413109294) =
   NS 3033001398 3243062189 4078058154 998207906 2936754042 1031351547 1085096018 1527419978"
  by (simp add: n_eval)

lemma blocks_hash_never_issued:
  "fold n_block
     [[1835233391, 1635087464, 762733938, 1768323373, 1852143205, 1915578739, 1937073508, 759330659, 1212315491,
     1212315491, 1212315491, 1212315491, 1212315491, 1212315491, 1212315491, 1216348160], [0, 0, 0, 0, 0, 0,
     0, 0, 0, 0, 0, 0, 0, 0, 0, 488]] n_init =
   NS 3033001398 3243062189 4078058154 998207906 2936754042 1031351547 1085096018 1527419978"
  by (simp add: n_init_def block1_hash_never_issued block2_hash_never_issued)

lemma hash_never_issued: "HashSecret (''mcpoauth-verify-'' @ ''never-issued'' @ ''-'' @ b64url_encode (replicate 24 7)) =
   ''b4c7edb6c14d33adf3123aaa3b7f71a2af0b4f7a3d792cfb40ad40525b0a944a''"
  unfolding HashSecret_def b64_sevens by (subst sha256_nat [OF blocks_hash_never_issued, unfolded list.map state_words.simps of_nat_numeral]) (simp add: n_message_def, code_simp+)

lemma block1_hash_atomic:
  "n_block
     [1835233391, 1635087464, 762733938, 1768323373, 1635020653, 1768107330, 2002995266, 2002995266, 2002995266,
     2002995266, 2002995266, 2002995266, 2002995266, 2002995328, 0, 440]
     (NS 1779033703 3144134277 1013904242 2773480762 1359893119 2600822924 528734635 1541459225) =
   NS 359114080 2489869290 3012772362 1008886465 2893643222 3872242256 1055711849 361702144"
  by (simp add: n_eval)

lemma blocks_hash_atomic:
  "fold n_block
     [[1835233391, 1635087464, 762733938, 1768323373, 1635020653, 1768107330, 2002995266, 2002995266, 2002995266,
     2002995266, 2002995266, 2002995266, 2002995266, 2002995328, 0, 440]] n_init =
   NS 359114080 2489869290 3012772362 1008886465 2893643222 3872242256 1055711849 361702144"
  by (simp add: n_init_def block1_hash_atomic)

lemma hash_atomic: "HashSecret (''mcpoauth-verify-'' @ ''atomic'' @ ''-'' @ b64url_encode (replicate 24 7)) =
   ''1567a560946863eab393420a3c2262c1ac797dd6e6cdba503eece269158f2300''"
  unfolding HashSecret_def b64_sevens by (subst sha256_nat [OF blocks_hash_atomic, unfolded list.map state_words.simps of_nat_numeral]) (simp add: n_message_def, code_simp+)

end
