(* ===== verification/Verify_Properties.thy ===== *)
theory Verify_Properties
  imports Verify_Evidence Pg_Properties Samples Hash_Vectors
begin

text \<open>
  Properties of \<open>VerifyStore\<close>: it raises no false alarm against a store that keeps the contract,
  an empty report says what the store did, and what its cleanup leaves behind on PostgreSQL.
\<close>

section \<open>Runs and histories\<close>





section \<open>Stores to verify\<close>

lemma pg_verifiable: "pg_documented D \<Longrightarrow> verifiable (pg_rounding D)"
proof -
  assume D: "pg_documented D"
  then have "\<bar>pg_keep D t - t\<bar> \<le> 2 * second" for t using documented(2) [OF D, of t] by linarith
  then show ?thesis
    using pg_round_late [OF D] normalize_zero [OF D] by (simp add: verifiable_def tolerant_def verifyTolerance_def)
qed

lemma exact_verifiable: "verifiable exact"
  by (simp add: verifiable_def tolerant_def verifyTolerance_def)

definition verify_world :: "'s \<Rightarrow> 's world" where
  "verify_world s = \<lparr>w_store = s, w_mem = new_pmem, w_rand = replicate 288 7, w_tick = 0\<rparr>"

definition some_order :: "nat list" where
  "some_order = [3, 0, 7, 1, 2, 6, 5, 4]"

lemma some_order_slots: "all_slots some_order"
  by (auto simp: all_slots_def some_order_def atomicityConcurrency_def)

lemma verify_world_simps [simp]:
  "w_store (verify_world s) = s" "w_rand (verify_world s) = replicate 288 7" "w_tick (verify_world s) = 0"
  by (simp_all add: verify_world_def)

text \<open>
  A scripted store, which answers what the checks want to hear without looking at a key: rows come
  back in the order they were saved, and the second read of a refresh token finds none.
\<close>

record script =
  sc_client :: "client option"
  sc_codes :: "auth_code list"
  sc_pending :: "pending_auth list"
  sc_refresh :: "refresh_token option"
  sc_reads :: nat

definition script_pop :: "'v list \<Rightarrow> 'v option" where
  "script_pop xs = (case xs of [] \<Rightarrow> None | x # _ \<Rightarrow> Some x)"

definition script_ops :: "script store_ops" where
  "script_ops = \<lparr>
     op_SaveClient = (\<lambda>c s. (Inr (), s\<lparr>sc_client := Some c\<rparr>)),
     op_GetClient = (\<lambda>_ s. (Inr (sc_client s), s)),
     op_SaveAuthCode = (\<lambda>c s. (Inr (), s\<lparr>sc_codes := sc_codes s @ [c]\<rparr>)),
     op_ConsumeAuthCode = (\<lambda>_ s. (Inr (script_pop (sc_codes s)), s\<lparr>sc_codes := tl (sc_codes s)\<rparr>)),
     op_SavePendingAuth = (\<lambda>p s. (Inr (), s\<lparr>sc_pending := sc_pending s @ [p]\<rparr>)),
     op_ConsumePendingAuth = (\<lambda>_ s. (Inr (script_pop (sc_pending s)), s\<lparr>sc_pending := tl (sc_pending s)\<rparr>)),
     op_SaveRefreshToken = (\<lambda>rt s. (Inr (), s\<lparr>sc_refresh := Some rt\<rparr>)),
     op_GetRefreshToken = (\<lambda>_ s. (Inr (if sc_reads s = 1 then None else sc_refresh s), s\<lparr>sc_reads := sc_reads s + 1\<rparr>)),
     op_ConsumeRefreshToken = (\<lambda>_ t s. (Inr (sc_refresh s), s\<lparr>sc_refresh :=
        map_option (\<lambda>rt. if IsZero (rt_ConsumedAt rt) then rt\<lparr>rt_ConsumedAt := t\<rparr> else rt) (sc_refresh s)\<rparr>)),
     op_RevokeRefreshTokensForUser = (\<lambda>_ s. (Inr (), s)),
     op_RevokeRefreshTokenFamily = (\<lambda>_ s. (Inr (), s\<lparr>sc_refresh := None\<rparr>)),
     op_PurgeExpired = (\<lambda>b s. (Inr (), s\<lparr>
        sc_client := (case sc_client s of Some c \<Rightarrow> if cl_ExpiresAt c < b then None else Some c | None \<Rightarrow> None),
        sc_refresh := (case sc_refresh s of Some rt \<Rightarrow> if rt_ExpiresAt rt < b \<and> rt_FamilyExpiresAt rt < b then None else Some rt | None \<Rightarrow> None)\<rparr>)),
     op_FindUserIDByEmail = (\<lambda>_ s. (Inr None, s))\<rparr>"


lemma script_op [simp]:
  "op_SaveClient script_ops c s = (Inr (), s\<lparr>sc_client := Some c\<rparr>)"
  "op_GetClient script_ops i s = (Inr (sc_client s), s)"
  "op_SaveAuthCode script_ops d s = (Inr (), s\<lparr>sc_codes := sc_codes s @ [d]\<rparr>)"
  "op_ConsumeAuthCode script_ops h s = (Inr (script_pop (sc_codes s)), s\<lparr>sc_codes := tl (sc_codes s)\<rparr>)"
  "op_SavePendingAuth script_ops p s = (Inr (), s\<lparr>sc_pending := sc_pending s @ [p]\<rparr>)"
  "op_ConsumePendingAuth script_ops h s = (Inr (script_pop (sc_pending s)), s\<lparr>sc_pending := tl (sc_pending s)\<rparr>)"
  "op_SaveRefreshToken script_ops rt s = (Inr (), s\<lparr>sc_refresh := Some rt\<rparr>)"
  "op_GetRefreshToken script_ops h s = (Inr (if sc_reads s = 1 then None else sc_refresh s), s\<lparr>sc_reads := sc_reads s + 1\<rparr>)"
  "op_ConsumeRefreshToken script_ops h t s = (Inr (sc_refresh s), s\<lparr>sc_refresh :=
     map_option (\<lambda>rt. if IsZero (rt_ConsumedAt rt) then rt\<lparr>rt_ConsumedAt := t\<rparr> else rt) (sc_refresh s)\<rparr>)"
  "op_RevokeRefreshTokenFamily script_ops f s = (Inr (), s\<lparr>sc_refresh := None\<rparr>)"
  "op_PurgeExpired script_ops b s = (Inr (), s\<lparr>
     sc_client := (case sc_client s of Some c \<Rightarrow> if cl_ExpiresAt c < b then None else Some c | None \<Rightarrow> None),
     sc_refresh := (case sc_refresh s of Some rt \<Rightarrow> if rt_ExpiresAt rt < b \<and> rt_FamilyExpiresAt rt < b then None else Some rt | None \<Rightarrow> None)\<rparr>)"
  by (simp_all add: script_ops_def)


definition late_env :: env where
  "late_env = \<lparr>e_now = (\<lambda>_. clock_floor + hour), e_http = (\<lambda>_ _. Inl ''no network'')\<rparr>"

lemma late_env_simps [simp]: "e_now late_env n = clock_floor + hour"
  by (simp add: late_env_def)

lemma eqTime_same [simp]: "eqTime what t t v = v"
  by (simp add: eqTime_def time_sub_def verifyTolerance_def)

lemma compare_same [simp]:
  "compare_client (canary_client v i) (canary_client v i) v' = v'" "compare_code c c v' = v'" "compare_pending p p v' = v'"
  "compare_refresh (canary_refresh v h f d) (canary_refresh v h f d) v' = v'"
  by (simp_all add: compare_client_def compare_code_def compare_pending_def compare_refresh_def Let_def)















section \<open>Properties\<close>

lemma run_verify:
  assumes "reliable_store S absf I n" and "I (w_store w)" and "verifiable n" and "clock_floor + hour \<le> e_now E (w_tick w)"
    and "288 \<le> length (w_rand w)" and "all_slots order" and "\<not> canary_collision (absf (w_store w)) (w_rand w)"
  shows "fst (run S E (VerifyStore p order) w) = []"
proof -
  from assms(1) have c: "store_contract S absf I n" by (rule reliable_store.axioms)
  have rel: "store_contract.reliable_if S absf I n True" unfolding store_contract.reliable_if_def [OF c] using assms(1) by simp
  have "awp True n E (VerifyStore p order) (aworld absf w) (\<lambda>result _. result = [])"
    by (rule awp_VerifyStore) (use assms(3-7) in simp_all)
  from store_contract.run_awp [OF c rel assms(2) this] show ?thesis by simp
qed

text \<open>When the random source gives sevens, the canaries have the hashes of \<open>Hash_Vectors\<close>.\<close>

lemma canary_sevens:
  "i < 12 \<Longrightarrow> canary_value label i (replicate 288 7) =
     HashSecret (''mcpoauth-verify-'' @ label @ ''-'' @ b64url_encode (replicate 24 7))"
  by (simp add: canary_value_def)

lemmas canary_hashes = hash_pending_a hash_pending_b hash_refresh hash_never_issued hash_atomic

lemma sevens_apart:
  assumes "a_codes a = Map.empty" and "a_pending a = Map.empty" and "\<And>h. length h = 64 \<Longrightarrow> a_refresh a h = None"
  shows "\<not> canary_collision a (replicate 288 7)"
proof -
  have "canary_value label i (replicate 288 7) \<notin> dom (a_refresh a)" for label i
    using assms(3) by (auto simp: canary_value_def)
  then show ?thesis
    by (simp add: canary_collision_def assms(1,2)) (simp only: canary_sevens canary_hashes, simp)
qed

text \<open>
  C14. No false alarms: against every store that keeps the contract and does not fail, whatever it
  already holds and in whatever order the eight concurrent consumptions run, \<open>VerifyStore\<close>
  reports nothing, unless a canary hash collides with another or with a stored one. The backend
  may round instants by up to the tolerance.
\<close>

theorem verify_no_false_alarm:
  assumes "reliable_store S absf I n" and "I (w_store w)" and "verifiable n" and "clock_floor + hour \<le> e_now E (w_tick w)"
    and "288 \<le> length (w_rand w)" and "all_slots order"
  shows "fst (run S E (VerifyStore p order) w) = [] \<or> canary_collision (absf (w_store w)) (w_rand w)"
  using run_verify [OF assms] by blast

theorem verify_no_false_alarm_witness:
  "fst (run sample_ops late_env (VerifyStore sample_provider some_order) (verify_world NewMemoryStore)) = [] \<and>
   fst (run (pg_ops (sample_pg new_york_rounding)) late_env (VerifyStore sample_provider some_order)
      (verify_world (sample_rows []))) = []"
proof -
  have pg: "reliable_store (pg_ops (sample_pg new_york_rounding)) (pg_abs (sample_pg new_york_rounding))
      (pg_calm (sample_pg new_york_rounding)) (pg_rounding new_york_rounding)"
    using pg_answering.answers [of "sample_pg new_york_rounding"]
    by (simp add: pg_answering_def pg_answering_axioms_def pg_server_def new_york_rounding_documented)
  have "pg_calm (sample_pg new_york_rounding) (sample_rows [])"
    by (simp add: pg_calm_def pg_inv_def sample_rows_def kept_refresh_def)
  moreover have "\<not> canary_collision (sample_abs NewMemoryStore) (replicate 288 7)"
    by (rule sevens_apart) (simp_all add: mem_abs_def NewMemoryStore_def)
  moreover have "\<not> canary_collision (pg_abs (sample_pg new_york_rounding) (sample_rows [])) (replicate 288 7)"
    by (rule sevens_apart) (auto simp: pg_abs_def rows_of_def sample_rows_def select_row_def kept_refresh_def sample_token_def fun_eq_iff)
  ultimately show ?thesis
    using verify_no_false_alarm [OF pg, of "verify_world (sample_rows [])" late_env some_order sample_provider]
      verify_no_false_alarm [OF sample_reliable, of "verify_world NewMemoryStore" late_env some_order sample_provider]
    by (simp add: pg_verifiable new_york_rounding_documented exact_verifiable some_order_slots mem_inv_new)
qed



text \<open>
  C38. The cleanup cannot expire a refresh canary on PostgreSQL: it saves the row again, which an
  insertion refuses, so whatever hashes it is given the tables stay as they are, and the canary
  of the concurrency check, which no revocation takes, waits for its own expiry.
\<close>

theorem cleanup_expires_nothing_on_pgstore:
  "pg_db (w_store (snd (run (pg_ops P) E (expire_refresh hashes v (Ret x)) w))) = pg_db (w_store w)"
proof (induction hashes arbitrary: w)
  case (Cons hash hashes)
  obtain r s where r: "pg_GetRefreshToken P hash (w_store w) = (r, s)" by force
  have db: "pg_db s = pg_db (w_store w)"
    using statement_cases [OF r [unfolded pg_GetRefreshToken_def]] by auto
  have kept: "pg_db s' = pg_db s" if "r = Inr (Some rt)" "pg_SaveRefreshToken P (rt\<lparr>rt_ExpiresAt := t, rt_FamilyExpiresAt := t\<rparr>) s = (r', s')" for rt t r' s'
  proof -
    have "select_row token_hash hash (t_refresh (pg_db (w_store w))) \<noteq> None" and "rt_TokenHash rt = hash"
      using statement_cases [OF r [unfolded pg_GetRefreshToken_def]] that(1) by (auto simp: scan_refresh_key dest: select_row_Some)
    then show ?thesis using insert_refused [OF _ that(2)] db by auto
  qed
  show ?case
    using Cons.IH db kept by (auto simp: r split: prod.split sum.split option.split)
qed simp

end
