(* ===== verification/Pages.thy ===== *)
theory Pages
  imports Authorize
begin

text \<open>
  The two HTML pages: the consent page (the template of \<open>consent.go\<close>) and the page for an
  account that is not linked (\<open>handlers.go\<close>). A value is inserted through the escaper
  \<open>html/template\<close> chooses for its place: \<open>html_escape\<close> in text and in a quoted attribute,
  \<open>url_attribute\<close> in the \<open>action\<close> of the form. \<open>tokens\<close> and \<open>html_unescape\<close> read a page
  the way a browser does, so the lemmas say what the user is shown.
\<close>

section \<open>Escaping\<close>

definition html_replacement :: "char \<Rightarrow> string" where
  \<comment> \<open>the table of replacements; the bytes of longer runes stay\<close>
  "html_replacement c =
     (if c = CHR 0x00 then [CHR 0xEF, CHR 0xBF, CHR 0xBD]
      else if c = CHR 0x22 then ''&#34;'' else if c = CHR ''&'' then ''&amp;''
      else if c = CHR 0x27 then ''&#39;'' else if c = CHR ''+'' then ''&#43;''
      else if c = CHR ''<'' then ''&lt;'' else if c = CHR ''>'' then ''&gt;'' else [c])"

definition html_escape :: "string \<Rightarrow> string" where
  "html_escape s = concat (map html_replacement s)"

text \<open>The filter for schemes, and the normalizer, which percent-encodes what no URL contains.\<close>

definition url_filter :: "string \<Rightarrow> string" where
  "url_filter s =
     (case Cut CHR '':'' s of
        (protocol, _, found) \<Rightarrow>
          if found \<and> CHR ''/'' \<notin> set protocol \<and> \<not> EqualFold protocol ''http'' \<and>
             \<not> EqualFold protocol ''https'' \<and> \<not> EqualFold protocol ''mailto''
          then ''#ZgotmplZ'' else s)"

definition hex_digit :: "char \<Rightarrow> bool" where
  "hex_digit c \<longleftrightarrow> is_digit c \<or> in_range CHR ''a'' CHR ''f'' c \<or> in_range CHR ''A'' CHR ''F'' c"

definition url_char :: "char \<Rightarrow> bool" where
  "url_char c \<longleftrightarrow> is_alpha c \<or> is_digit c \<or> c \<in> set ''!#$&*+,/:;=?@[]-._~''"

fun url_normalize :: "string \<Rightarrow> string" where
  "url_normalize [] = []"
| "url_normalize (c # cs) =
     (if url_char c \<or> (c = CHR ''%'' \<and> 2 \<le> length cs \<and> list_all hex_digit (take 2 cs))
      then c # url_normalize cs
      else CHR ''%'' # hex_encode [of_char c] @ url_normalize cs)"

definition url_attribute :: "string \<Rightarrow> string" where
  "url_attribute s = html_escape (url_normalize (url_filter s))"

section \<open>The pages\<close>

definition consent_html :: "consent_page_data \<Rightarrow> string" where
  "consent_html d = Join
     [''<!doctype html>'',
      ''<html lang=\"en\"><head><meta charset=\"utf-8\">'',
      ''<meta name=\"viewport\" content=\"width=device-width, initial-scale=1\">'',
      ''<title>Authorize access</title>'',
      ''<style>'',
      '':root{color-scheme:light dark}'',
      ''body{font-family:system-ui,-apple-system,Segoe UI,sans-serif;line-height:1.5;'',
      '' margin:0;padding:1.5rem 1rem;display:flex;justify-content:center}'',
      ''main{width:100%;max-width:32rem}'',
      ''h1{font-size:1.25rem;margin:0 0 1rem}'',
      ''dl{margin:1.25rem 0;padding:0}'',
      ''dt{font-size:.75rem;text-transform:uppercase;letter-spacing:.04em;opacity:.7;margin-top:.9rem}'',
      ''dd{margin:.2rem 0 0;font-family:ui-monospace,SFMono-Regular,Menlo,monospace;'',
      '' font-size:.9rem;word-break:break-all}'',
      ''.warn{border-left:3px solid #d97706;padding:.6rem .8rem;margin:1.25rem 0;font-size:.9rem}'',
      ''button{width:100%;min-height:44px;font-size:1rem;font-weight:600;border:0;border-radius:.5rem;'',
      '' padding:.7rem 1rem;background:#2563eb;color:#fff;cursor:pointer}'',
      ''button:hover{background:#1d4ed8}'',
      ''p.deny{font-size:.85rem;opacity:.75;margin-top:1rem;text-align:center}'',
      ''</style></head>'',
      ''<body><main>'',
      ''<h1>Authorize access to your account</h1>'',
      ''<p><strong>'' @ html_escape (cp_ClientName d) @ ''</strong> is asking to connect to your account.</p>'',
      ''<dl>'',
      ''  <dt>Application</dt><dd>'' @ html_escape (cp_ClientName d) @ ''</dd>'',
      ''  <dt>Will receive the authorization code at</dt><dd>'' @ html_escape (cp_RedirectURI d) @ ''</dd>'',
      ''  <dt>Scopes</dt><dd>'' @ Join (map html_escape (cp_Scopes d)) CHR '' '' @ ''</dd>'',
      ''</dl>'',
      ''<p class=\"warn\">Check the address above. If you did not just start this'',
      ''connection yourself '' @ [CHR 0xE2, CHR 0x80, CHR 0x94] @ '' or you do not recognise it '' @ [CHR 0xE2, CHR 0x80, CHR 0x94] @ '' close this page. Approving'',
      ''gives whoever controls that address access to your data.</p>'',
      ''<form method=\"post\" action=\"'' @ url_attribute (cp_FormAction d) @ ''\">'',
      ''  <input type=\"hidden\" name=\"'' @ html_escape (cp_NonceField d) @ ''\" value=\"'' @ html_escape (cp_Nonce d) @ ''\">'',
      ''  <button type=\"submit\">Approve</button>'',
      ''</form>'',
      ''<p class=\"deny\">To deny, just close this page.</p>'',
      ''</main></body></html>''] CHR 0x0A"

definition unlinkedAccountHTML :: string where
  "unlinkedAccountHTML = Join
     [''<!doctype html>'',
      ''<html lang=\"en\"><head><meta charset=\"utf-8\">'',
      ''<meta name=\"viewport\" content=\"width=device-width, initial-scale=1\">'',
      ''<title>Account not linked</title></head>'',
      ''<body style=\"font-family:system-ui,sans-serif;max-width:34rem;margin:4rem auto;padding:0 1rem;line-height:1.6\">'',
      ''<h1 style=\"font-size:1.4rem\">This Google account is not linked to an account in this app</h1>'',
      ''<p>Sign in to the app with this Google account first, then retry the connection.</p>'',
      ''<p>No account was created.</p>'',
      ''</body></html>''] CHR 0x0A"

definition page_html :: "body \<Rightarrow> string option" where
  "page_html b =
     (case b of ConsentBody d \<Rightarrow> Some (consent_html d) | UnlinkedAccountPage \<Rightarrow> Some unlinkedAccountHTML | _ \<Rightarrow> None)"

section \<open>What a browser reads\<close>

datatype token = Text string | Tag string

datatype place = InText | InTag | InQuotes

fun add :: "string \<Rightarrow> token list \<Rightarrow> token list" where
  "add s (Text t # ts) = Text (s @ t) # ts"
| "add s (Tag t # ts) = Tag (s @ t) # ts"
| "add s [] = []"

fun blank :: "place \<Rightarrow> token" where
  "blank InText = Text []"
| "blank InTag = Tag []"
| "blank InQuotes = Tag []"

definition next_place :: "place \<Rightarrow> char \<Rightarrow> place" where
  "next_place p c =
     (case p of InText \<Rightarrow> if c = CHR ''<'' then InTag else InText
      | InTag \<Rightarrow> if c = CHR ''>'' then InText else if c = CHR 0x22 then InQuotes else InTag
      | InQuotes \<Rightarrow> if c = CHR 0x22 then InTag else InQuotes)"

definition emit :: "place \<Rightarrow> char \<Rightarrow> token list \<Rightarrow> token list" where
  "emit p c = (if p = InText \<and> c = CHR ''<'' \<or> p = InTag \<and> c = CHR ''>'' then (#) (blank p) else add [c])"

fun scan :: "place \<Rightarrow> string \<Rightarrow> token list" where
  "scan p [] = [blank p]"
| "scan p (c # cs) = emit p c (scan (next_place p c) cs)"

definition tokens :: "string \<Rightarrow> token list" where
  "tokens = scan InText"

definition references :: "(string \<times> char) list" where
  \<comment> \<open>the character references that occur\<close>
  "references = [(''&#34;'', CHR 0x22), (''&amp;'', CHR ''&''), (''&#39;'', CHR 0x27), (''&#43;'', CHR ''+''),
     (''&lt;'', CHR ''<''), (''&gt;'', CHR ''>'')]"

fun html_unescape :: "string \<Rightarrow> string" where
  "html_unescape [] = []"
| "html_unescape (c # cs) =
     (case find (\<lambda>(r, _). HasPrefix (c # cs) r) references of
        Some (r, x) \<Rightarrow> x # html_unescape (drop (length r - 1) cs)
      | None \<Rightarrow> c # html_unescape cs)"

text \<open>The tags of a page, and the texts that follow a given tag.\<close>

fun tag_name :: "token \<Rightarrow> string option" where
  "tag_name (Text s) = None"
| "tag_name (Tag s) = Some (takeWhile (\<lambda>c. c \<noteq> CHR '' '') s)"

fun after :: "string \<Rightarrow> token list \<Rightarrow> string list" where
  "after t (Tag u # Text s # ts) = (if u = t then s # after t ts else after t ts)"
| "after t (x # ts) = after t ts"
| "after t [] = []"

fun fields :: "token list \<Rightarrow> string list" where
  \<comment> \<open>the form and its inputs\<close>
  "fields (Tag t # ts) = (if HasPrefix t ''form'' \<or> HasPrefix t ''input'' then t # fields ts else fields ts)"
| "fields (Text s # ts) = fields ts"
| "fields [] = []"

section \<open>Escaped text\<close>

definition inert :: "string \<Rightarrow> bool" where
  "inert s \<longleftrightarrow> CHR 0x22 \<notin> set s \<and> CHR 0x27 \<notin> set s \<and> CHR ''<'' \<notin> set s \<and> CHR ''>'' \<notin> set s"

lemma inert_html_escape [simp]: "inert (html_escape s)"
  by (induction s) (auto simp: inert_def html_escape_def html_replacement_def)

lemma inert_url_attribute [simp]: "inert (url_attribute s)"
  by (simp add: url_attribute_def)

lemma inert_Join [simp]: "(\<forall>s \<in> set ss. inert s) \<Longrightarrow> inert (Join ss CHR '' '')"
  by (induction ss "CHR '' ''" rule: Join.induct) (auto simp: inert_def)

lemma add_add [simp]: "add s (add t ts) = add (s @ t) ts"
  by (cases ts rule: list.exhaust; cases "hd ts") auto

lemma add_Nil [simp]: "add [] ts = ts"
  by (cases ts rule: list.exhaust; cases "hd ts") auto

lemma scan_inert_text: "inert s \<Longrightarrow> scan InText (s @ t) = add s (scan InText t)"
  by (induction s) (auto simp: inert_def emit_def next_place_def)

lemma scan_inert_quotes: "inert s \<Longrightarrow> scan InQuotes (s @ t) = add s (scan InQuotes t)"
  by (induction s) (auto simp: inert_def emit_def next_place_def)

lemma html_unescape_append: "CHR 0x00 \<notin> set s \<Longrightarrow> html_unescape (html_escape s @ t) = s @ html_unescape t"
  by (induction s) (auto simp: html_escape_def html_replacement_def references_def HasPrefix_def)

lemma html_unescape_escape: "CHR 0x00 \<notin> set s \<Longrightarrow> html_unescape (html_escape s) = s"
  using html_unescape_append [of s "[]"] by simp

lemma html_unescape_Join:
  assumes "\<forall>s \<in> set ss. CHR 0x00 \<notin> set s"
  shows "html_unescape (Join (map html_escape ss) CHR '' '') = Join ss CHR '' ''"
  using assms
  by (induction ss "CHR '' ''" rule: Join.induct) (simp_all add: html_unescape_escape html_unescape_append references_def HasPrefix_def)

text \<open>A URL of a web scheme that holds nothing to be encoded is the action of the form as it is.\<close>

lemma url_attribute_plain:
  assumes "Cut CHR '':'' s = (protocol, rest, True)" and "protocol = ''http'' \<or> protocol = ''https''" and "list_all url_char s"
  shows "html_unescape (url_attribute s) = s"
proof -
  have "url_filter s = s" using assms(1,2) by (auto simp: url_filter_def lower_char_def in_range_def)
  moreover have "url_normalize s = s" using assms(3) by (induction s) auto
  moreover have "CHR 0x00 \<notin> set s" using assms(3) by (auto simp: list_all_iff url_char_def in_range_def)
  ultimately show ?thesis by (simp add: url_attribute_def html_unescape_escape)
qed

section \<open>The consent page\<close>

lemma consent_page_read:
  "\<exists>names. \<forall>d. \<exists>ts. tokens (consent_html d) = ts \<and> map tag_name ts = names \<and>
     after ''dd'' ts =
       [html_escape (cp_ClientName d), html_escape (cp_RedirectURI d), Join (map html_escape (cp_Scopes d)) CHR '' ''] \<and>
     fields ts =
       [''form method=\"post\" action=\"'' @ url_attribute (cp_FormAction d) @ ''\"'',
        ''input type=\"hidden\" name=\"'' @ html_escape (cp_NonceField d) @ ''\" value=\"'' @ html_escape (cp_Nonce d) @ ''\"'']"
  by (rule exI, rule allI, rule exI, rule conjI,
      simp add: tokens_def consent_html_def scan_inert_text scan_inert_quotes emit_def next_place_def,
      simp add: HasPrefix_def)

text \<open>
  C27. What a client chooses cannot change the consent page: the page has the same tags in the
  same order for all data, and a browser shows the client's name, the redirect URI and the
  scopes exactly as they are (a NUL byte apart, which HTML has no reference for); the form holds
  the nonce in its one hidden field and is sent to the configured URL.
\<close>

theorem consent_page_faithful:
  assumes "CHR 0x00 \<notin> set (cp_ClientName d)" and "CHR 0x00 \<notin> set (cp_RedirectURI d)"
    and "\<forall>s \<in> set (cp_Scopes d). CHR 0x00 \<notin> set s"
  shows "map tag_name (tokens (consent_html d)) = map tag_name (tokens (consent_html d')) \<and>
    map html_unescape (after ''dd'' (tokens (consent_html d))) =
      [cp_ClientName d, cp_RedirectURI d, Join (cp_Scopes d) CHR '' ''] \<and>
    fields (tokens (consent_html d)) =
      [''form method=\"post\" action=\"'' @ url_attribute (cp_FormAction d) @ ''\"'',
       ''input type=\"hidden\" name=\"'' @ html_escape (cp_NonceField d) @ ''\" value=\"'' @ html_escape (cp_Nonce d) @ ''\"'']"
  using consent_page_read assms by (auto simp: html_unescape_escape html_unescape_Join)

definition hostile_data :: consent_page_data where
  "hostile_data = \<lparr>cp_ClientName = ''</dd><script>alert(1)</script>'', cp_RedirectURI = ''https://app.example/?a=1&b=2'',
     cp_Scopes = [''mcp'', ''openid''], cp_FormAction = ''https://as.example/authorize'', cp_NonceField = ''nonce'', cp_Nonce = ''n0''\<rparr>"

theorem consent_page_faithful_witness:
  "map tag_name (tokens (consent_html hostile_data)) =
     map tag_name (tokens (consent_html (hostile_data\<lparr>cp_ClientName := ''An app''\<rparr>))) \<and>
   map html_unescape (after ''dd'' (tokens (consent_html hostile_data))) =
     [''</dd><script>alert(1)</script>'', ''https://app.example/?a=1&b=2'', ''mcp openid'']"
  using consent_page_faithful [of hostile_data "hostile_data\<lparr>cp_ClientName := ''An app''\<rparr>"]
  by (simp add: hostile_data_def)

end
