(* ===== verification/Mounting.thy ===== *)
theory Mounting
  imports Routes Samples
begin

text \<open>
  Mounting the routes (\<open>mux.go\<close>, \<open>mount/echomount\<close>, \<open>mount/ginmount\<close>): every adapter hands the
  routes, in order, to the router of its framework. \<open>router\<close> is what the adapters rely on: a
  path without patterns that is not taken can be registered, for every HTTP method, and from then on
  it is served by the handler it was registered with. \<open>ServeMux\<close> is modelled in \<open>Routes\<close>;
  the routers of Echo and Gin are parameters.
\<close>

section \<open>Adapters\<close>

fun register_all :: "(string \<Rightarrow> endpoint \<Rightarrow> 'm \<Rightarrow> 'm option) \<Rightarrow> route list \<Rightarrow> 'm \<Rightarrow> 'm option" where
  "register_all register [] m = Some m"
| "register_all register (r # rs) m =
     (case register (Path r) (Handler r) m of None \<Rightarrow> None | Some m' \<Rightarrow> register_all register rs m')"

definition echo_Mount :: "(string \<Rightarrow> endpoint \<Rightarrow> 'm \<Rightarrow> 'm option) \<Rightarrow> provider \<Rightarrow> 'm \<Rightarrow> 'm option" where
  "echo_Mount Any p e = register_all Any (Routes.Routes p) e"

definition gin_Mount :: "(string \<Rightarrow> endpoint \<Rightarrow> 'm \<Rightarrow> 'm option) \<Rightarrow> provider \<Rightarrow> 'm \<Rightarrow> 'm option" where
  "gin_Mount Any p r = register_all Any (Routes.Routes p) r"

lemma Mount_register_all: "Mount p m = register_all mux_handle (Routes.Routes p) m"
proof -
  have "mount_routes rs m = register_all mux_handle rs m" for rs m
    by (induction rs m rule: mount_routes.induct) (simp_all split: option.split)
  then show ?thesis by (simp add: Mount_def)
qed

section \<open>Routers\<close>

locale router =
  fixes register :: "string \<Rightarrow> endpoint \<Rightarrow> 'm \<Rightarrow> 'm option"
    and served :: "'m \<Rightarrow> string \<Rightarrow> endpoint option"
    and simple :: "string \<Rightarrow> bool"
  assumes registers: "simple path \<Longrightarrow> served m path = None \<Longrightarrow>
    \<exists>m'. register path h m = Some m' \<and> served m' = (served m)(path \<mapsto> h)"
begin

lemma all_registered:
  assumes "distinct (map Path rs)" and "\<forall>r \<in> set rs. simple (Path r) \<and> served m (Path r) = None"
  shows "\<exists>m'. register_all register rs m = Some m' \<and> served m' = served m ++ map_of (table rs)"
  using assms
proof (induction rs arbitrary: m)
  case (Cons r rs)
  then obtain m1 where m1: "register (Path r) (Handler r) m = Some m1"
    "served m1 = (served m)(Path r \<mapsto> Handler r)"
    using registers [of "Path r" m "Handler r"] by auto
  have "\<forall>r' \<in> set rs. simple (Path r') \<and> served m1 (Path r') = None"
    using Cons.prems by (auto simp: m1(2) image_iff)
  then obtain m' where "register_all register rs m1 = Some m'" and m': "served m' = served m1 ++ map_of (table rs)"
    using Cons.IH [of m1] Cons.prems(1) by auto
  moreover have "map_of (table rs) (Path r) = None"
    using Cons.prems(1) by (auto simp: map_of_eq_None_iff image_image)
  then have "served m1 ++ map_of (table rs) = served m ++ map_of (table (r # rs))"
    by (auto simp: m1(2) fun_eq_iff map_add_def split: option.split)
  ultimately show ?case by (auto simp: m1(1) fun_eq_iff map_add_def split: option.split)
qed simp

lemma routes_registered:
  assumes "\<forall>r \<in> set (Routes.Routes p). simple (Path r) \<and> served m (Path r) = None"
  shows "\<exists>m'. register_all register (Routes.Routes p) m = Some m' \<and>
    served m' = served m ++ map_of (table (Routes.Routes p))"
  by (rule all_registered [OF _ assms]) (simp add: Routes.Routes_def Let_def distinct_dedupe)

end

interpretation mux: router mux_handle map_of plain_path
proof
  fix path and m :: "(string \<times> endpoint) list" and h
  assume "plain_path path" and "map_of m path = None"
  moreover from this(2) have "map_of (m @ [(path, h)]) = (map_of m)(path \<mapsto> h)"
    by (auto simp: fun_eq_iff map_add_def split: option.split)
  ultimately show "\<exists>m'. mux_handle path h m = Some m' \<and> map_of m' = (map_of m)(path \<mapsto> h)"
    by (simp add: mux_handle_def map_of_eq_None_iff)
qed

section \<open>Property\<close>

text \<open>
  C34. On every router that serves what is registered with it, the standard library's mux among
  them, mounting a provider whose paths are free and without patterns does not panic, adds
  exactly the provider's routes and takes nothing away: a path is served by the endpoint that comes
  first in the configured order, the metadata document at the well-known path with the
  resource's own path after it (RFC 9728) included whenever the resource has a path.
\<close>

theorem mounted_routes_served:
  assumes "router any served simple" and "\<forall>r \<in> set (Routes.Routes p). simple (Path r) \<and> served m (Path r) = None"
  shows "\<exists>m'. echo_Mount any p m = Some m' \<and> gin_Mount any p m = Some m' \<and>
    served m' = served m ++ map_of (table (configured_routes p @
      (if protectedResourceMetadataSuffix (ResourceURL (cfg p)) = [] then []
       else [\<lparr>Path = ProtectedResourceMetadataPath @ protectedResourceMetadataSuffix (ResourceURL (cfg p)),
              Methods = metadataMethods, Handler = ResourceMetadataEndpoint\<rparr>])))"
proof -
  have "map_of (table (Routes.Routes p)) = map_of (table (configured_routes p @
      (if protectedResourceMetadataSuffix (ResourceURL (cfg p)) = [] then []
       else [\<lparr>Path = ProtectedResourceMetadataPath @ protectedResourceMetadataSuffix (ResourceURL (cfg p)),
              Methods = metadataMethods, Handler = ResourceMetadataEndpoint\<rparr>])))"
    by (simp add: Routes.Routes_def Let_def map_of_dedupe)
  with router.routes_registered [OF assms] show ?thesis
    unfolding echo_Mount_def gin_Mount_def by metis
qed

theorem mounted_routes_served_witness:
  "\<exists>m'. Mount sample_provider [] = Some m' \<and>
     map_of m' = map_of (table (configured_routes sample_provider @
       [\<lparr>Path = ProtectedResourceMetadataPath @ ''/mcp'', Methods = metadataMethods, Handler = ResourceMetadataEndpoint\<rparr>]))"
proof -
  have "list_all (\<lambda>r. plain_path (Path r)) (Routes.Routes sample_provider)" by code_simp
  moreover have "protectedResourceMetadataSuffix (ResourceURL (cfg sample_provider)) = ''/mcp''" by code_simp
  ultimately show ?thesis
    using mounted_routes_served [OF mux.router_axioms, of sample_provider "[]"]
    by (auto simp: echo_Mount_def Mount_register_all list_all_iff)
qed

end
