(* ===== verification/Spec2Isabelle.thy ===== *)
theory Spec2Isabelle
  imports Token_Properties Component_Properties Race_Properties Lifetimes Answered Pg_Properties Schema_Properties Verify_Properties
    Pages Mounting
begin

text \<open>
  Verification library for \<open>mcp-oauth\<close>: an OAuth 2.1 authorization server that is embedded in
  a Go program, guards an MCP resource and signs its users in with Google.

  \<^bold>\<open>The program.\<close> A client registers (\<open>Register\<close>); the browser of its user asks for
  authorization (\<open>Authorize\<close>, GET), approves it on the consent page (POST) and is sent to Google;
  Google sends it back to \<open>GoogleCallback\<close>, which exchanges Google's code, checks the ID token
  against the cached keys and stores an authorization code; the client exchanges the code for
  an access token and a refresh token (\<open>Token\<close>) and later rotates the refresh token there; the
  resource is guarded by \<open>Middleware\<close>. Everything that lasts is in a \<open>Store\<close> the deployment
  provides - the library ships an in-memory one and one on PostgreSQL, and \<open>VerifyStore\<close> to check
  any other - and the only state of the process is the provider's memory: the grace cache, the
  instant of the last purge and the key cache.

  \<^bold>\<open>How it is modelled.\<close> A handler is an effect program (\<open>Prog\<close>): one constructor for each call
  to the clock, the random source, a store method, a critical section of the provider or the
  network, and Go's own code between them. \<open>run\<close> executes a handler alone against any
  implementation of the store interface. \<open>sys_step\<close> lets any one of a list of handlers in flight
  make its next call, so \<open>sys_run\<close> ranges over every interleaving of any number of requests, and over
  every answer of the clock, the random source and the network. An error is a value (\<open>Inl\<close>), a
  response is the value a handler ends with, an instant is the number of nanoseconds since
  Go's zero time, a table of the stores is a list of rows.

  \<^bold>\<open>Theories and sources.\<close>
  \<^item> \<open>Prelude\<close>, \<open>Go_Strings\<close>, \<open>Go_Crypto\<close>, \<open>Go_Url\<close>: instants, results, and what the source uses of
    Go's standard library - strings, SHA-256, HMAC, hex and base64url as computable definitions,
    URLs and IP addresses.
  \<^item> \<open>Types\<close>: the records of \<open>types.go\<close>, the provider of \<open>mcpoauth.go\<close>; what is not under \<open>src/\<close> - the JWT
    library, the order in which Go walks a map, Unicode case - is the parameter \<open>lib\<close>.
  \<^item> \<open>Store\<close>: the interface of \<open>store.go\<close> as \<open>store_ops\<close>, and its contract (\<open>store.go\<close>,
    \<open>STORE-CONTRACT.md\<close>) as the locale \<open>store_contract\<close>: an abstraction to maps and one law per method,
    for a store whose every call may fail and whose instants may be rounded. \<open>reliable_store\<close>
    extends it by calls that do not fail.
  \<^item> \<open>Memstore\<close> (\<open>memstore/memstore.go\<close>) and \<open>Pgstore\<close> (\<open>pgstore/pgstore.go\<close>) are the two stores; the locales
    are interpreted on both (\<open>mem\<close>, \<open>memr\<close>, and \<open>utc\<close>, \<open>ny\<close> through \<open>pg_server\<close> and \<open>pg_answering\<close> in
    \<open>Pgstore_Contract\<close>). \<open>Schema\<close> is \<open>pgstore/schema.go\<close>.
  \<^item> \<open>Secrets\<close> and \<open>Access_Token\<close> (\<open>token.go\<close>, the middleware of \<open>handlers.go\<close>), \<open>Grace\<close> (\<open>grace.go\<close>),
    \<open>Http\<close> (responses), \<open>Token_Endpoint\<close>, \<open>Registration\<close>, \<open>Authorize\<close>, \<open>Callback\<close> (\<open>handlers.go\<close>, \<open>consent.go\<close>),
    \<open>Pages\<close> (the HTML of \<open>consent.go\<close> and \<open>handlers.go\<close>), \<open>Binder\<close> and \<open>Provider_Config\<close> (\<open>mcpoauth.go\<close>),
    \<open>Google\<close> (\<open>google.go\<close>), \<open>Routes\<close> (\<open>routes.go\<close>, \<open>mux.go\<close>), \<open>Mounting\<close> (\<open>mount/\<close>, with the locale \<open>router\<close>)
    and \<open>Verify_Store\<close> (\<open>verify.go\<close>): one definition per function, under its name, and definitions of
    their own for parts of the long ones.

  \<^bold>\<open>Lemma groups and properties.\<close>
  \<^item> \<open>Wp\<close>: \<open>awp\<close>, a weakest precondition of \<open>run\<close> over the abstract store, sound for every store that
    keeps the contract. \<open>Token_Spec\<close> states what the documentation says of a refresh token as the
    decision \<open>judge\<close> and its effect on the tables and proves that the handlers refine it; \<open>Flow_Spec\<close> holds
    the postconditions of the login flow: the row that is written field by field, over the bytes the random
    source gives, and the answer as the browser, the client or Google reads it (\<open>sent_back\<close>, \<open>login_redirect\<close>).
    \<open>Token_Properties\<close> and \<open>Flow_Properties\<close> are the properties of
    the endpoints run alone.
  \<^item> \<open>Concurrency\<close>, \<open>Traces\<close>: executions, \<open>along\<close> (every history of a handler, whatever it is answered) and
    \<open>effect\<close> (what an event does to the abstract store). \<open>Token_Histories\<close> and \<open>Serving\<close> describe the
    histories of the endpoints; \<open>Races\<close> and \<open>Interleavings\<close> put them together. \<open>Race_Properties\<close>: a code is
    exchanged once, a refresh token has one successor, a revocation holds, the grace cache is bounded.
    \<open>Answered\<close>: every request ends.
  \<^item> \<open>Justified\<close>, \<open>Provenance\<close>: why a request saves a row, and from it, by induction on the run, the chain behind
    every session - asked for by a registered client, approved in the user's browser, logged in with Google
    in the same browser, exchanged with the verifier. \<open>Lifetimes\<close>: when a session began and how long it can
    last. \<open>Complete_Flow\<close> is a login from end to end, on which both are shown to speak of something.
  \<^item> \<open>Pg_Properties\<close> and \<open>Schema_Properties\<close>: the contract, what is read back, partial failure, upgrades.
  \<^item> \<open>Verify_Spec\<close> and \<open>Verify_Evidence\<close>, \<open>Verify_Properties\<close>: \<open>VerifyStore\<close> is silent against a store that keeps
    the contract, and what its silence shows of any store.
    \<open>Hash_Vectors\<close> evaluates the hashes of its canaries in the kernel, by SHA-256 on natural numbers that is
    proved equal to the one on words, and checks the definitions against the example of RFC 7636.
  \<^item> \<open>Query_Strings\<close> and \<open>Component_Properties\<close>: round trips, the constructor, the policies, the bounds.

  \<^bold>\<open>Bounds and termination.\<close> Every definition is total. The loops of the source that do not follow
  a list are the one of \<open>hkdfExpand\<close> and the eviction of the grace cache, both with a termination proof
  (the bytes that are missing; the entries that are left), and the one of \<open>net.ParseIP\<close> over the
  groups of an IPv6 address, with fuel 8: a round stores a group, and Go's loop stops at the eighth too. \<open>max_calls\<close> bounds the calls of one request; it is proved, not assumed.
  The 64-bit wrap-around is written out where the source can reach it, in \<open>cacheTTL\<close>; the instants
  and the other durations are bounded by the configuration and the clock.

  \<^bold>\<open>What is assumed.\<close> Each hypothesis is named where it is used: \<open>store_contract\<close> or \<open>reliable_store\<close> of the
  store (proved of both stores), \<open>jwt_library\<close> of the JWT library (it accepts what it signed, and what
  it accepts was checked with the key it was given and meets the options that are not empty), a clock after \<open>clock_floor\<close>, no hash
  collision where two hashes have to differ, \<open>pg_documented\<close> of the driver and the server (an instant
  comes back to the microsecond, rounded in order), and for \<open>session_lifetime_capped\<close> that an instant which
  was read is stored again as it is. No property assumes that secrets
  cannot be guessed; the random source is an arbitrary sequence of bytes that may run out.

  \<^bold>\<open>Approximations.\<close>
  \<^item> A store method is one atomic step of an interleaving. That is what the contract asks of the methods that
    consume; for the purge of PostgreSQL, which is four statements, \<open>pg_PurgeExpired\<close> has the
    failure after each of them, but no other request between them; a request that came between two would find the
    tables as after a purge that failed, which the executions have (\<open>purge_statement_partly\<close>).
  \<^item> A statement on PostgreSQL is executed, refused or lost before it, or executed with the answer
    lost. A text the server cannot store (an invalid encoding) is a statement that is refused. An index
    of the catalog is known by its name and the columns it needs. Dropping a column keeps the indexes (none of the
    baseline is on the column that is dropped), and the statements on the version row ask for the
    column \<open>version\<close> only, though the source names \<open>singleton\<close> and \<open>updated_at\<close> too.
  \<^item> \<open>redirect\<close> is \<open>http.Redirect\<close> for an absolute URL: a relative one (a relative \<open>GoogleAuthURL\<close>, which \<open>New\<close> does not
    refuse, or a relative redirect URI in a row the library did not write) would be completed with the path of the
    request. The mux does not redirect unclean paths.
  \<^item> A panic of the source that the callers exclude (a \<open>nil\<close> store, a duplicate route) is an error value or has no
    counterpart; a JSON error in the redirect URIs of a stored client is an error of the statement that reads
    it; log lines and the wording of the problems of \<open>VerifyStore\<close> are left out; a request is what the
    source reads of it, and so is a reply from the network.

  \<^bold>\<open>Not modelled.\<close> The network, the JWT library, the SQL driver and the routers of Echo and Gin
  themselves, which are parameters; the style sheet of the pages beyond its text; the tests.

  \<^bold>\<open>What the proofs showed.\<close> \<open>legacy_rotation_escapes\<close>: the re-read that protects a
  rotation against a concurrent revocation does not protect a row without a family.
  \<open>cleanup_expires_nothing_on_pgstore\<close>: the cleanup of \<open>VerifyStore\<close> saves a refresh canary again to expire
  it, which PostgreSQL refuses. \<open>cacheTTL_clamped\<close>: a \<open>max-age\<close> that overflows can give the least
  lifetime and not the greatest (9223372037 does).
\<close>

end
